(* ===== verification/Prelude.thy ===== *)
theory Prelude
  imports Complex_Main "HOL-Library.Word" "HOL-Library.Multiset" "HOL-Library.AList"
    "HOL-Library.Sublist" "HOL-Library.Signed_Division"
begin

text \<open>
  Shared vocabulary of the development: Go's clock and 64-bit integers, slices cut to their last
  entries, Go maps as association lists, and the in-place insertion sort that the sources write out
  four times (\<open>sortFloat64s\<close>, \<open>sortDurations\<close> and the two drain-candidate selections).
  A \<open>time.Time\<close> is the number of nanoseconds since Go's zero time, so the zero value is 0;
  a \<open>time.Duration\<close> is a number of nanoseconds.
\<close>

named_theorems wf_intros \<comment> \<open>operations keep a component's invariant\<close>
named_theorems view_simps \<comment> \<open>what an operation does to the abstract view of its state\<close>

section \<open>Time\<close>

type_synonym time = int
type_synonym duration = int

definition second :: duration where "second = 1000000000"
definition millisecond :: duration where "millisecond = 1000000"
definition minute :: duration where "minute = 60 * second"

definition zero_time :: time where "zero_time = 0"

definition IsZero :: "time \<Rightarrow> bool" where "IsZero t \<longleftrightarrow> t = zero_time"

definition max_duration :: duration where "max_duration = 2 ^ 63 - 1"
definition min_duration :: duration where "min_duration = - (2 ^ 63)"

text \<open>\<open>t.Sub(u)\<close> saturates at the ends of the 64-bit range.\<close>

definition time_sub :: "time \<Rightarrow> time \<Rightarrow> duration" where
  "time_sub t u = max min_duration (min max_duration (t - u))"

lemma time_sub_exact:
  "min_duration \<le> t - u \<Longrightarrow> t - u \<le> max_duration \<Longrightarrow> time_sub t u = t - u"
  by (simp add: time_sub_def)

lemma time_sub_less_iff:
  "min_duration < d \<Longrightarrow> d \<le> max_duration \<Longrightarrow> time_sub t u < d \<longleftrightarrow> t - u < d"
  by (auto simp: time_sub_def)

lemmas time_units = second_def millisecond_def minute_def

section \<open>64-bit integers\<close>

definition wrap64 :: "int \<Rightarrow> int" where
  "wrap64 x = sint (word_of_int x :: 64 word)"

lemma wrap64_id: "- (2 ^ 63) \<le> x \<Longrightarrow> x < 2 ^ 63 \<Longrightarrow> wrap64 x = x"
  by (simp add: wrap64_def sint_sbintrunc' signed_take_bit_int_eq_self)

lemma wrap64_range: "- (2 ^ 63) \<le> wrap64 x \<and> wrap64 x < 2 ^ 63"
  using sint_range_size [of "word_of_int x :: 64 word"] by (simp add: wrap64_def word_size)

lemma wrap64_mult: "wrap64 (a * wrap64 b) = wrap64 (a * b)"
  by (simp add: wrap64_def wi_hom_mult [symmetric])

lemma wrap64_multiple: "wrap64 (2 ^ 64 * b) = 0"
proof -
  have "(word_of_int (2 ^ 64 * b) :: 64 word) = word_of_int (2 ^ 64) * word_of_int b"
    by (simp only: wi_hom_mult)
  also have "(word_of_int (2 ^ 64) :: 64 word) = 0" by simp
  finally show ?thesis by (simp add: wrap64_def)
qed

section \<open>The last entries of a slice\<close>

definition lastn :: "nat \<Rightarrow> 'a list \<Rightarrow> 'a list" where
  "lastn n xs = drop (length xs - n) xs"

lemma length_lastn [simp]: "length (lastn n xs) = min n (length xs)"
  by (simp add: lastn_def)

lemma lastn_all [simp]: "length xs \<le> n \<Longrightarrow> lastn n xs = xs"
  by (simp add: lastn_def)

lemma suffix_lastn: "suffix (lastn n xs) xs"
  by (simp add: lastn_def suffix_drop)

lemma lastn_append: "lastn n (xs @ ys) = lastn (n - length ys) xs @ lastn n ys"
  by (cases "length ys \<le> n") (simp_all add: lastn_def diff_diff_eq add.commute)

lemma lastn_suffix: "suffix zs xs \<Longrightarrow> n \<le> length zs \<Longrightarrow> lastn n zs = lastn n xs"
  by (auto simp: suffix_def lastn_append lastn_def)

lemma lastn_lastn: "lastn m (lastn n xs) = lastn (min m n) xs"
proof (cases "m \<le> length (lastn n xs)")
  case True
  then have "min m n = m" by simp
  with True show ?thesis by (simp add: lastn_suffix [OF suffix_lastn])
next
  case False
  then have "length xs \<le> n \<or> n < m" by auto
  with False show ?thesis by (auto simp: lastn_def min_def)
qed

lemma last_lastn: "xs \<noteq> [] \<Longrightarrow> 0 < n \<Longrightarrow> last (lastn n xs) = last xs"
  by (simp add: lastn_def last_drop)

section \<open>Go maps as association lists\<close>

text \<open>
  A Go map is an association list with distinct keys; \<open>AList.update\<close> is \<open>m[k] = v\<close> and
  \<open>AList.delete\<close> is \<open>delete(m, k)\<close>. The language leaves the order of a \<open>range\<close> loop open, so
  an operation whose result depends on it takes the order as an argument that \<open>enumerates\<close> the map.
\<close>

definition enumerates :: "'k list \<Rightarrow> ('k \<times> 'v) list \<Rightarrow> bool" where
  "enumerates ks m \<longleftrightarrow> distinct ks \<and> set ks = fst ` set m"

abbreviation keys_distinct :: "('k \<times> 'v) list \<Rightarrow> bool" where
  "keys_distinct m \<equiv> distinct (map fst m)"

lemma enumerates_own: "keys_distinct m \<Longrightarrow> enumerates (map fst m) m"
  by (simp add: enumerates_def)

lemma enumerates_length: "keys_distinct m \<Longrightarrow> enumerates ks m \<Longrightarrow> length ks = length m"
  by (metis enumerates_def distinct_card length_map set_map)

lemma enumerates_lookup: "enumerates ks m \<Longrightarrow> k \<in> set ks \<Longrightarrow> \<exists>v. map_of m k = Some v"
  by (metis enumerates_def domD dom_map_of_conv_image_fst)

lemma map_of_update [simp]: "map_of (AList.update k v m) = (map_of m)(k \<mapsto> v)"
  by (rule update_conv')

lemma map_of_delete [simp]: "map_of (AList.delete k m) = (map_of m)(k := None)"
  by (rule delete_conv')

lemma set_update_subset: "set (AList.update k v m) \<subseteq> insert (k, v) (set m)"
  by (induction m) auto

lemma set_delete_subset: "set (AList.delete k m) \<subseteq> set m"
  by (auto simp: AList.delete_eq)

lemma set_delete_notin: "x \<in> set (AList.delete k m) \<Longrightarrow> fst x \<noteq> k"
  by (auto simp: AList.delete_eq)

section \<open>The in-place insertion sort\<close>

text \<open>
  The inner loop moves entries with a key above the inserted one up by one slot; its last argument
  is \<open>j + 1\<close>, so that 0 is the source's \<open>j < 0\<close>. The outer loop runs \<open>i\<close> from 1.
\<close>

fun ins_shift :: "('a \<Rightarrow> 'k::linorder) \<Rightarrow> 'a list \<Rightarrow> 'a \<Rightarrow> nat \<Rightarrow> 'a list" where
  "ins_shift f a x 0 = a[0 := x]"
| "ins_shift f a x (Suc j) =
     (if f x < f (a ! j) then ins_shift f (a[Suc j := a ! j]) x j else a[Suc j := x])"

lemma length_ins_shift [simp]: "length (ins_shift f a x j) = length a"
  by (induction f a x j rule: ins_shift.induct) auto

function ins_loop :: "('a \<Rightarrow> 'k::linorder) \<Rightarrow> 'a list \<Rightarrow> nat \<Rightarrow> 'a list" where
  "ins_loop f a i = (if i < length a then ins_loop f (ins_shift f a (a ! i) i) (Suc i) else a)"
  by pat_completeness auto
termination by (relation "measure (\<lambda>(f, a, i). length a - i)") auto

declare ins_loop.simps [simp del]

definition insertion_sort :: "('a \<Rightarrow> 'k::linorder) \<Rightarrow> 'a list \<Rightarrow> 'a list" where
  "insertion_sort f a = ins_loop f a 1"

text \<open>What one pass of the inner loop does to the sorted prefix.\<close>

definition ins_right :: "('a \<Rightarrow> 'k::linorder) \<Rightarrow> 'a \<Rightarrow> 'a list \<Rightarrow> 'a list" where
  "ins_right f x xs = rev (dropWhile (\<lambda>z. f x < f z) (rev xs)) @ x #
     rev (takeWhile (\<lambda>z. f x < f z) (rev xs))"

lemma ins_shift_prefix:
  "ins_shift f (xs @ y # zs) x (length xs) = ins_right f x xs @ zs"
proof (induction xs arbitrary: y zs rule: rev_induct)
  case Nil
  show ?case by (simp add: ins_right_def)
next
  case (snoc z xs)
  have "(xs @ z # y # zs)[Suc (length xs) := z] = xs @ z # z # zs"
    by (simp add: list_update_append)
  moreover have "(xs @ z # y # zs)[Suc (length xs) := x] = xs @ z # x # zs"
    by (simp add: list_update_append)
  ultimately show ?case
    using snoc.IH [of z "z # zs"] by (simp add: ins_right_def)
qed

lemma mset_ins_right: "mset (ins_right f x xs) = add_mset x (mset xs)"
proof -
  have "mset (rev (dropWhile P (rev xs))) + mset (rev (takeWhile P (rev xs))) = mset xs" for P
    by (metis mset_append mset_rev takeWhile_dropWhile_id union_commute)
  then show ?thesis by (simp add: ins_right_def)
qed

lemma filter_ins_right:
  "filter (\<lambda>z. k = f z) (ins_right f x xs) = filter (\<lambda>z. k = f z) (xs @ [x])"
proof -
  let ?P = "\<lambda>z. f x < f z" and ?Q = "\<lambda>z. k = f z"
  have split: "xs = rev (dropWhile ?P (rev xs)) @ rev (takeWhile ?P (rev xs))"
    by (metis rev_append rev_rev_ident takeWhile_dropWhile_id)
  have "filter ?Q (rev (takeWhile ?P (rev xs))) = []" if "k = f x"
    using that by (auto simp: filter_empty_conv dest!: set_takeWhileD)
  moreover have "filter ?Q xs = filter ?Q (rev (dropWhile ?P (rev xs))) @
      filter ?Q (rev (takeWhile ?P (rev xs)))"
    by (subst split) (rule filter_append)
  ultimately show ?thesis by (auto simp: ins_right_def)
qed

lemma sorted_ins_right:
  assumes "sorted (map f xs)"
  shows "sorted (map f (ins_right f x xs))"
  using assms
proof (induction xs rule: rev_induct)
  case Nil
  show ?case by (simp add: ins_right_def)
next
  case (snoc z xs)
  show ?case
  proof (cases "f x < f z")
    case True
    then have eq: "ins_right f x (xs @ [z]) = ins_right f x xs @ [z]"
      by (simp add: ins_right_def)
    have "set (ins_right f x xs) = insert x (set xs)"
      by (metis mset_ins_right set_mset_add_mset_insert set_mset_mset)
    with True snoc show ?thesis by (auto simp: eq sorted_append)
  next
    case False
    then have "ins_right f x (xs @ [z]) = xs @ [z, x]" by (simp add: ins_right_def)
    with False snoc.prems show ?thesis by (force simp: sorted_append)
  qed
qed

lemma ins_right_sort_key: "ins_right f x (sort_key f xs) = sort_key f (xs @ [x])"
proof (rule properties_for_sort_key [symmetric])
  show "mset (ins_right f x (sort_key f xs)) = mset (xs @ [x])"
    by (simp add: mset_ins_right)
  show "sorted (map f (ins_right f x (sort_key f xs)))"
    by (simp add: sorted_ins_right)
  fix k
  show "filter (\<lambda>z. k = f z) (ins_right f x (sort_key f xs)) = filter (\<lambda>z. k = f z) (xs @ [x])"
    using sort_key_stable [of f k xs] filter_ins_right [of k f x "sort_key f xs"]
    by (simp add: eq_commute)
qed

lemma ins_loop_sort_key:
  "ins_loop f (sort_key f xs @ ys) (length xs) = sort_key f (xs @ ys)"
proof (induction ys arbitrary: xs)
  case Nil
  show ?case by (simp add: ins_loop.simps)
next
  case (Cons y ys)
  have "ins_shift f (sort_key f xs @ y # ys) y (length xs) = sort_key f (xs @ [y]) @ ys"
    using ins_shift_prefix [of f "sort_key f xs" y ys y] by (simp add: ins_right_sort_key)
  moreover have "(sort_key f xs @ y # ys) ! length xs = y"
    by (metis length_sort nth_append_length)
  ultimately have "ins_loop f (sort_key f xs @ y # ys) (length xs) =
      ins_loop f (sort_key f (xs @ [y]) @ ys) (length (xs @ [y]))"
    by (subst ins_loop.simps) simp
  then show ?case using Cons.IH [of "xs @ [y]"] by simp
qed

theorem insertion_sort_eq: "insertion_sort f a = sort_key f a"
proof (cases a)
  case Nil
  then show ?thesis by (simp add: insertion_sort_def ins_loop.simps)
next
  case (Cons x xs)
  then show ?thesis using ins_loop_sort_key [of f "[x]" xs] by (simp add: insertion_sort_def)
qed

lemma sorted_insertion_sort: "sorted (map f (insertion_sort f a))"
  and mset_insertion_sort: "mset (insertion_sort f a) = mset a"
  and set_insertion_sort [simp]: "set (insertion_sort f a) = set a"
  and length_insertion_sort [simp]: "length (insertion_sort f a) = length a"
  by (simp_all add: insertion_sort_eq)

end
