(* ===== verification/Bounded_Log.thy ===== *)
theory Bounded_Log
  imports Prelude
begin

text \<open>
  The interface shared by every history the program keeps: an append that trims. When the slice grows
  past \<open>hi\<close> entries it is cut to its last \<open>lo\<close>. The verbose log (4000 to 2000), the event log
  (1000 to 500) and the completed flights (2000 to 1000) trim in batches; the scaling actions (50),
  the startup durations (200) and the rolling windows trim to the bound itself. The locale's clients
  rest on these laws alone: the bound, that the newest entry is kept, and that the last \<open>lo\<close> entries
  are those of the whole history.
\<close>

definition push_trim :: "nat \<Rightarrow> nat \<Rightarrow> 'x \<Rightarrow> 'x list \<Rightarrow> 'x list" where
  "push_trim hi lo x xs = (if hi < length xs + 1 then lastn lo (xs @ [x]) else xs @ [x])"

lemma push_trim_same: "length xs \<le> n \<Longrightarrow> push_trim n n x xs = lastn n (xs @ [x])"
  by (simp add: push_trim_def)

lemma suffix_push_trim: "suffix (push_trim hi lo x xs) (xs @ [x])"
  unfolding push_trim_def by (auto simp del: suffix_snoc intro: suffix_lastn)

lemma lastn_push_trim: "n \<le> lo \<Longrightarrow> lastn n (push_trim hi lo x xs) = lastn n (xs @ [x])"
  by (simp add: push_trim_def lastn_lastn min_absorb1)

locale bounded_log =
  fixes add :: "'x \<Rightarrow> 's \<Rightarrow> 's"
    and view :: "'s \<Rightarrow> 'x list"
    and inv :: "'s \<Rightarrow> bool"
    and hi lo :: nat
  assumes lo_pos: "0 < lo"
    and lo_le_hi: "lo \<le> hi"
    and inv_add: "inv s \<Longrightarrow> inv (add x s)"
    and view_add: "inv s \<Longrightarrow> view (add x s) = push_trim hi lo x (view s)"
begin

lemma bound_add: "inv s \<Longrightarrow> length (view s) \<le> hi \<Longrightarrow> length (view (add x s)) \<le> hi"
  using lo_le_hi by (simp add: view_add push_trim_def)

lemma newest: "inv s \<Longrightarrow> view (add x s) \<noteq> [] \<and> last (view (add x s)) = x"
proof -
  assume "inv s"
  moreover have "lastn lo (view s @ [x]) \<noteq> []" using lo_pos by (simp add: lastn_def)
  ultimately show ?thesis using lo_pos by (simp add: view_add push_trim_def last_lastn)
qed

lemma inv_run: "inv s \<Longrightarrow> inv (fold add xs s)"
  by (induction xs arbitrary: s) (simp_all add: inv_add)

lemma bound_run: "inv s \<Longrightarrow> length (view s) \<le> hi \<Longrightarrow> length (view (fold add xs s)) \<le> hi"
  by (induction xs arbitrary: s) (simp_all add: inv_add bound_add)

lemma suffix_run: "inv s \<Longrightarrow> suffix (view (fold add xs s)) (view s @ xs)"
proof (induction xs arbitrary: s)
  case Nil
  then show ?case by simp
next
  case (Cons x xs)
  have "suffix (view (fold add xs (add x s))) (view (add x s) @ xs)"
    using Cons by (simp add: inv_add)
  moreover have "suffix (view (add x s) @ xs) ((view s @ [x]) @ xs)"
    using suffix_push_trim [of hi lo x "view s"] Cons.prems
    by (auto simp: view_add suffix_def simp del: suffix_snoc)
  ultimately show ?case by (auto intro: suffix_order.trans)
qed

lemma recent_run: "inv s \<Longrightarrow> n \<le> lo \<Longrightarrow> lastn n (view (fold add xs s)) = lastn n (view s @ xs)"
proof (induction xs arbitrary: s)
  case Nil
  then show ?case by simp
next
  case (Cons x xs)
  have "lastn n (view (fold add xs (add x s))) = lastn n (view (add x s) @ xs)"
    using Cons by (simp add: inv_add)
  also have "\<dots> = lastn n ((view s @ [x]) @ xs)"
    using Cons.prems by (simp only: lastn_append [of n _ xs] view_add) (simp add: lastn_push_trim)
  finally show ?case by simp
qed

end

text \<open>Trimming to the bound itself keeps exactly the last \<open>hi\<close> entries of the history.\<close>

locale sliding_log = bounded_log +
  assumes sliding: "lo = hi"
begin

lemma view_run:
  assumes "inv s" and "length (view s) \<le> hi"
  shows "view (fold add xs s) = lastn hi (view s @ xs)"
proof -
  have "lastn hi (view (fold add xs s)) = lastn hi (view s @ xs)"
    using recent_run [OF assms(1), of hi xs] sliding by simp
  then show ?thesis using bound_run [OF assms, of xs] by simp
qed

end

section \<open>Reading the last entries\<close>

text \<open>
  \<open>LogSnapshot\<close>, \<open>EventsSnapshot\<close> and \<open>Recent\<close> share one shape: everything when the limit is not
  positive or not below the length, else the last \<open>limit\<close> entries.
\<close>

definition recent_of :: "int \<Rightarrow> 'x list \<Rightarrow> 'x list" where
  "recent_of limit xs =
     (if limit \<le> 0 \<or> int (length xs) \<le> limit then xs
      else drop (nat (int (length xs) - limit)) xs)"

lemma recent_of_lastn: "recent_of limit xs = (if limit \<le> 0 then xs else lastn (nat limit) xs)"
  by (auto simp: recent_of_def lastn_def nat_diff_distrib)

end
