(* ===== verification/Monitoring.thy ===== *)
theory Monitoring
  imports Bounded_Log
begin

text \<open>
  The log store of \<open>master/monitoring/verbose.go\<close>: the verbose trace, the event list shown in the
  Notifications tab, their limits, and the writer that turns lines of Go's \<open>log\<close> package into
  events. The package's global variables are the fields of \<open>Monitor\<close>; \<open>printed\<close> collects what
  \<open>Verbose\<close> writes to standard output.
\<close>

record LogEntry =
  le_Time :: time
  le_Place :: string
  le_Msg :: string

record Monitor =
  verboseEnabled :: bool
  stdoutEnabled :: bool
  logEntries :: "LogEntry list"
  eventEntries :: "LogEntry list"
  printed :: "string list"

definition initial_monitor :: Monitor where
  "initial_monitor = \<lparr>verboseEnabled = True, stdoutEnabled = False, logEntries = [],
     eventEntries = [], printed = []\<rparr>"

definition SetVerboseEnabled :: "bool \<Rightarrow> Monitor \<Rightarrow> Monitor" where
  "SetVerboseEnabled enabled m = m\<lparr>verboseEnabled := enabled\<rparr>"

definition SetStdoutEnabled :: "bool \<Rightarrow> Monitor \<Rightarrow> Monitor" where
  "SetStdoutEnabled enabled m = m\<lparr>stdoutEnabled := enabled\<rparr>"

definition LogSnapshot :: "int \<Rightarrow> Monitor \<Rightarrow> LogEntry list" where
  "LogSnapshot limit m =
     (if limit \<le> 0 \<or> int (length (logEntries m)) \<le> limit then logEntries m
      else drop (nat (int (length (logEntries m)) - limit)) (logEntries m))"

definition Verbose :: "time \<Rightarrow> string \<Rightarrow> string \<Rightarrow> Monitor \<Rightarrow> Monitor" where
  "Verbose now place msg m =
     (let entry = \<lparr>le_Time = now, le_Place = place, le_Msg = msg\<rparr> in
      if \<not> verboseEnabled m then m
      else
        let entries = logEntries m @ [entry];
            entries = (if 4000 < length entries then drop (length entries - 2000) entries else entries);
            m = m\<lparr>logEntries := entries\<rparr>
        in if stdoutEnabled m
           then m\<lparr>printed := printed m @ [''['' @ place @ ''] '' @ msg @ [CHR 0x0A]]\<rparr>
           else m)"

definition Event :: "time \<Rightarrow> string \<Rightarrow> string \<Rightarrow> Monitor \<Rightarrow> Monitor" where
  "Event now place msg m =
     (let entry = \<lparr>le_Time = now, le_Place = place, le_Msg = msg\<rparr>;
          entries = eventEntries m @ [entry];
          entries = (if 1000 < length entries then drop (length entries - 500) entries else entries)
      in Verbose now place msg (m\<lparr>eventEntries := entries\<rparr>))"

definition EventsSnapshot :: "int \<Rightarrow> Monitor \<Rightarrow> LogEntry list" where
  "EventsSnapshot limit m =
     (if limit \<le> 0 \<or> int (length (eventEntries m)) \<le> limit then eventEntries m
      else drop (nat (int (length (eventEntries m)) - limit)) (eventEntries m))"

section \<open>The log writer\<close>

definition TrimRight :: "char list \<Rightarrow> string \<Rightarrow> string" where
  "TrimRight cutset s = rev (dropWhile (\<lambda>c. c \<in> set cutset) (rev s))"

definition TrimLeft :: "char list \<Rightarrow> string \<Rightarrow> string" where
  "TrimLeft cutset s = dropWhile (\<lambda>c. c \<in> set cutset) s"

definition Index :: "string \<Rightarrow> char \<Rightarrow> int" where
  "Index s c = (if c \<in> set s then int (length (takeWhile (\<lambda>d. d \<noteq> c) s)) else -1)"

text \<open>\<open>Write\<close> returns the number of bytes taken, always all of them, and no error.\<close>

definition Write :: "time \<Rightarrow> string \<Rightarrow> Monitor \<Rightarrow> int \<times> Monitor" where
  "Write now p m =
     (let line = TrimRight [CHR 0x0A, CHR 0x0D] p in
      if line = '''' then (int (length p), m)
      else
        let msg = (if 20 < length line \<and> line ! 4 = CHR ''/'' \<and> line ! 7 = CHR ''/''
                   then TrimLeft '' '' (drop 20 line) else line);
            e = Index msg (CHR '']'');
            (place, msg) =
              (if prefix ''['' msg \<and> 0 < e
               then (take (nat e - 1) (drop 1 msg), TrimLeft '' '' (drop (nat e + 1) msg))
               else (''system'', msg))
        in (int (length p), Event now place msg m))"

section \<open>Both logs are bounded\<close>

definition log_entry :: "LogEntry \<Rightarrow> Monitor \<Rightarrow> Monitor" where
  "log_entry e = Verbose (le_Time e) (le_Place e) (le_Msg e)"

definition event_entry :: "LogEntry \<Rightarrow> Monitor \<Rightarrow> Monitor" where
  "event_entry e = Event (le_Time e) (le_Place e) (le_Msg e)"

lemma Verbose_view [view_simps]:
  "logEntries (Verbose now place msg m) = (if verboseEnabled m
     then push_trim 4000 2000 \<lparr>le_Time = now, le_Place = place, le_Msg = msg\<rparr> (logEntries m)
     else logEntries m)"
  "eventEntries (Verbose now place msg m) = eventEntries m"
  "verboseEnabled (Verbose now place msg m) = verboseEnabled m"
  "stdoutEnabled (Verbose now place msg m) = stdoutEnabled m"
  by (simp_all add: Verbose_def push_trim_def lastn_def Let_def)

lemma Event_view [view_simps]:
  "logEntries (Event now place msg m) = (if verboseEnabled m
     then push_trim 4000 2000 \<lparr>le_Time = now, le_Place = place, le_Msg = msg\<rparr> (logEntries m)
     else logEntries m)"
  "eventEntries (Event now place msg m) =
     push_trim 1000 500 \<lparr>le_Time = now, le_Place = place, le_Msg = msg\<rparr> (eventEntries m)"
  "verboseEnabled (Event now place msg m) = verboseEnabled m"
  by (simp_all add: Event_def Verbose_view push_trim_def lastn_def Let_def)

lemma LogEntry_eta: "\<lparr>le_Time = le_Time e, le_Place = le_Place e, le_Msg = le_Msg e\<rparr> = e"
  by (cases e) simp

interpretation verbose_log: bounded_log log_entry logEntries verboseEnabled 4000 2000
  by unfold_locales (simp_all add: log_entry_def view_simps LogEntry_eta)

interpretation event_log: bounded_log event_entry eventEntries "\<lambda>_. True" 1000 500
  by unfold_locales (simp_all add: event_entry_def view_simps LogEntry_eta)

lemma LogSnapshot_eq: "LogSnapshot limit m = recent_of limit (logEntries m)"
  by (simp add: LogSnapshot_def recent_of_def)

lemma EventsSnapshot_eq: "EventsSnapshot limit m = recent_of limit (eventEntries m)"
  by (simp add: EventsSnapshot_def recent_of_def)

text \<open>However many events are recorded, the event log holds at most 1000 entries, and a snapshot of
  up to 500 entries shows exactly the most recent ones, in order, as if the log were never trimmed.\<close>

theorem events_snapshot_recent:
  assumes "length (eventEntries m) \<le> 1000" and "0 < limit" and "limit \<le> 500"
  shows "length (eventEntries (fold event_entry es m)) \<le> 1000 \<and>
    EventsSnapshot limit (fold event_entry es m) = lastn (nat limit) (eventEntries m @ es)"
proof -
  have "nat limit \<le> 500" using assms by simp
  then show ?thesis
    using event_log.bound_run [where s = m and xs = es]
      event_log.recent_run [where s = m and xs = es and n = "nat limit"] assms
    by (simp add: EventsSnapshot_eq recent_of_lastn)
qed

theorem events_snapshot_recent_witness:
  "EventsSnapshot 1 (fold event_entry [\<lparr>le_Time = 7, le_Place = ''server'', le_Msg = ''up''\<rparr>]
     initial_monitor) = [\<lparr>le_Time = 7, le_Place = ''server'', le_Msg = ''up''\<rparr>]"
  using events_snapshot_recent [of initial_monitor 1
      "[\<lparr>le_Time = 7, le_Place = ''server'', le_Msg = ''up''\<rparr>]"]
  by (simp add: initial_monitor_def lastn_def)

section \<open>The writer parses what the log package prints\<close>

lemma TrimRight_keep: "s \<noteq> [] \<Longrightarrow> last s \<notin> set cs \<Longrightarrow> set t \<subseteq> set cs \<Longrightarrow> TrimRight cs (s @ t) = s"
proof -
  assume s: "s \<noteq> []" "last s \<notin> set cs" "set t \<subseteq> set cs"
  then have "dropWhile (\<lambda>c. c \<in> set cs) (rev t @ rev s) = dropWhile (\<lambda>c. c \<in> set cs) (rev s)"
    by (intro dropWhile_append2) auto
  also have "\<dots> = rev s" using s by (cases s rule: rev_cases) auto
  finally show ?thesis by (simp add: TrimRight_def)
qed

lemma TrimLeft_keep: "s = [] \<or> hd s \<notin> set cs \<Longrightarrow> set t \<subseteq> set cs \<Longrightarrow> TrimLeft cs (t @ s) = s"
proof -
  assume s: "s = [] \<or> hd s \<notin> set cs" "set t \<subseteq> set cs"
  then have "dropWhile (\<lambda>c. c \<in> set cs) (t @ s) = dropWhile (\<lambda>c. c \<in> set cs) s"
    by (intro dropWhile_append2) auto
  also have "\<dots> = s" using s by (cases s) auto
  finally show ?thesis by (simp add: TrimLeft_def)
qed

lemma Index_tag: "CHR '']'' \<notin> set place \<Longrightarrow> Index (''['' @ place @ '']'' @ rest) (CHR '']'') = int (length place) + 1"
  by (auto simp: Index_def) (subst takeWhile_append2; auto)

text \<open>A line that Go's log package prints, with its 20-byte time stamp, a bracketed place and a message,
  reaches the event log as exactly that place and that message.\<close>

theorem Write_parses_tagged_line:
  assumes "length stamp = 20" and "stamp ! 4 = CHR ''/''" and "stamp ! 7 = CHR ''/''"
    and "CHR '']'' \<notin> set place"
    and "msg \<noteq> []" and "hd msg \<noteq> CHR '' ''" and "last msg \<notin> {CHR 0x0A, CHR 0x0D}"
  shows "Write now (stamp @ ''['' @ place @ ''] '' @ msg @ [CHR 0x0A]) m =
    (int (length place + length msg + 24), Event now place msg m)"
proof -
  let ?line = "stamp @ ''['' @ place @ ''] '' @ msg"
  have line: "TrimRight [CHR 0x0A, CHR 0x0D] (?line @ [CHR 0x0A]) = ?line"
    using assms by (intro TrimRight_keep) auto
  have stamp: "20 < length ?line \<and> ?line ! 4 = CHR ''/'' \<and> ?line ! 7 = CHR ''/''"
    using assms by (simp add: nth_append)
  have body: "TrimLeft '' '' (drop 20 ?line) = ''['' @ place @ '']'' @ '' '' @ msg"
    using assms(1) TrimLeft_keep [of "''['' @ place @ '']'' @ '' '' @ msg" "'' ''" "[]"] by simp
  have "TrimLeft '' '' ('' '' @ msg) = msg" using assms by (intro TrimLeft_keep) auto
  then show ?thesis
    using line stamp body assms(1) Index_tag [OF assms(4), of "'' '' @ msg"]
    by (simp add: Write_def nat_add_distrib del: append.simps) simp
qed

theorem Write_parses_tagged_line_witness:
  "Write 3 (''2026/05/01 10:00:00 [server] ready'' @ [CHR 0x0A]) initial_monitor =
     (35, Event 3 ''server'' ''ready'' initial_monitor)"
  using Write_parses_tagged_line [of "''2026/05/01 10:00:00 ''" "''server''" "''ready''" 3 initial_monitor]
  by simp

end
