(* ===== verification/Float64.thy ===== *)
theory Float64
  imports Prelude
begin

text \<open>
  Go's \<open>float64\<close>: IEEE 754 binary64 values as rationals, every operation rounded to the nearest
  value with 53 significant bits, ties to even. The exponent range is left unbounded: the program's
  floats are counts, rates, ratios and seconds, so neither overflow nor subnormal values, infinities
  nor NaN arise (each division of the sources is guarded against a zero divisor).
  What proofs use of it: rounding is monotone, exact on integers below \<open>2^53\<close>, and off by at most
  one part in \<open>2^53\<close>.
\<close>

type_synonym float64 = rat

section \<open>Rounding\<close>

definition round_even :: "rat \<Rightarrow> int" where
  "round_even y = (let n = \<lfloor>y\<rfloor>; d = y - of_int n in
     if d < 1/2 then n else if 1/2 < d then n + 1 else if even n then n else n + 1)"

lemma round_even_int [simp]: "round_even (of_int n) = n"
  by (simp add: round_even_def)

lemma round_even_bounds: "\<lfloor>y\<rfloor> \<le> round_even y \<and> round_even y \<le> \<lfloor>y\<rfloor> + 1"
  by (simp add: round_even_def Let_def)

lemma round_even_mono:
  assumes "x \<le> y"
  shows "round_even x \<le> round_even y"
proof (cases "\<lfloor>x\<rfloor> = \<lfloor>y\<rfloor>")
  case True
  with assms show ?thesis by (auto simp: round_even_def Let_def)
next
  case False
  with floor_mono [OF assms] have "\<lfloor>x\<rfloor> + 1 \<le> \<lfloor>y\<rfloor>" by simp
  with round_even_bounds [of x] round_even_bounds [of y] show ?thesis by linarith
qed

lemma round_even_error: "\<bar>of_int (round_even y) - y\<bar> \<le> 1/2"
proof -
  have "of_int \<lfloor>y\<rfloor> \<le> y" "y < of_int \<lfloor>y\<rfloor> + 1" by linarith+
  then show ?thesis unfolding round_even_def Let_def by (simp split: if_split)
qed

text \<open>The binary exponent of a positive rational, from the lengths of its fraction.\<close>

function bit_len :: "int \<Rightarrow> nat" where
  "bit_len n = (if n \<le> 0 then 0 else Suc (bit_len (n div 2)))"
  by pat_completeness auto
termination by (relation "measure nat") auto

declare bit_len.simps [simp del]

lemma bit_len_bounds: "0 < n \<Longrightarrow> 2 ^ (bit_len n - 1) \<le> n \<and> n < 2 ^ bit_len n"
proof (induction n rule: bit_len.induct)
  case (1 n)
  show ?case
  proof (cases "n < 2")
    case True
    with "1.prems" have "n = 1" by simp
    then show ?thesis by (simp add: bit_len.simps)
  next
    case False
    then have pos: "0 < n div 2" by simp
    with "1.IH" "1.prems"
    have IH: "2 ^ (bit_len (n div 2) - 1) \<le> n div 2" "n div 2 < 2 ^ bit_len (n div 2)"
      by auto
    have "0 < bit_len (n div 2)" using pos by (subst bit_len.simps) simp
    then have "(2::int) ^ bit_len (n div 2) = 2 * 2 ^ (bit_len (n div 2) - 1)"
      by (metis Suc_diff_1 power_Suc)
    with IH have "2 ^ bit_len (n div 2) \<le> n \<and> n < 2 * 2 ^ bit_len (n div 2)" by linarith
    moreover have "bit_len n = Suc (bit_len (n div 2))" using False by (subst bit_len.simps) simp
    ultimately show ?thesis by simp
  qed
qed

definition fl_exp :: "rat \<Rightarrow> int" where
  "fl_exp x = (let (p, q) = quotient_of x; k = int (bit_len p) - int (bit_len q) in
     if 2 powi k \<le> x then k else k - 1)"

lemma fl_exp_bounds:
  assumes "0 < x"
  shows "2 powi fl_exp x \<le> x \<and> x < 2 powi (fl_exp x + 1)"
proof -
  obtain p q where pq: "quotient_of x = (p, q)" by (cases "quotient_of x")
  have q: "0 < q" using quotient_of_denom_pos [OF pq] .
  have x: "x = of_int p / of_int q" using quotient_of_div [OF pq] .
  with assms q have p: "0 < p" by (simp add: zero_less_divide_iff)
  define a b where "a = bit_len p" and "b = bit_len q"
  have bits: "(2::rat) powi (int (bit_len m) - 1) \<le> of_int m \<and>
      of_int m < (2::rat) powi int (bit_len m)" if m: "0 < m" for m :: int
  proof -
    let ?n = "bit_len m"
    have B: "2 ^ (?n - 1) \<le> m" "m < 2 ^ ?n" using bit_len_bounds [OF m] by auto
    have "0 < ?n" using m by (subst bit_len.simps) simp
    then have "int ?n - 1 = int (?n - 1)" by simp
    moreover have "2 ^ (?n - 1) \<le> (of_int m :: rat)" "(of_int m :: rat) < 2 ^ ?n"
      using B of_int_le_iff [of "2 ^ (?n - 1)" m] of_int_less_iff [of m "2 ^ ?n"] by simp_all
    ultimately show ?thesis by (simp only: power_int_of_nat)
  qed
  from bits [OF p] bits [OF q] have pb: "(2::rat) powi (int a - 1) \<le> of_int p" "of_int p < (2::rat) powi int a"
    and qb: "(2::rat) powi (int b - 1) \<le> of_int q" "of_int q < (2::rat) powi int b"
    by (auto simp: a_def b_def)
  have "x < 2 powi int a / 2 powi (int b - 1)"
    unfolding x using pb qb by (intro frac_less) (use p in auto)
  then have hi: "x < 2 powi (int a - int b + 1)" by (simp add: power_int_diff power_int_add field_simps)
  have "2 powi (int a - 1) / 2 powi int b \<le> x"
    unfolding x using pb qb p q by (intro frac_le) auto
  then have lo: "2 powi (int a - int b - 1) \<le> x" by (simp add: power_int_diff divide_divide_eq_left')
  show ?thesis using hi lo pq by (auto simp: fl_exp_def a_def b_def Let_def)
qed

lemma powi2_mono: "a \<le> b \<Longrightarrow> (2::rat) powi a \<le> 2 powi b"
  by (simp add: power_int_increasing)

lemma fl_exp_unique:
  assumes "2 powi e \<le> x" and "x < 2 powi (e + 1)"
  shows "fl_exp x = e"
proof -
  have "0 < (2::rat) powi e" by simp
  with assms(1) have "0 < x" by linarith
  from fl_exp_bounds [OF this] assms have "(2::rat) powi e < 2 powi (fl_exp x + 1)"
    "(2::rat) powi fl_exp x < 2 powi (e + 1)" by linarith+
  then have "e < fl_exp x + 1" "fl_exp x < e + 1"
    using powi2_mono leD leI by metis+
  then show ?thesis by simp
qed

lemma fl_exp_mono: "0 < x \<Longrightarrow> x \<le> y \<Longrightarrow> fl_exp x \<le> fl_exp y"
proof -
  assume "0 < x" "x \<le> y"
  with fl_exp_bounds [of x] fl_exp_bounds [of y]
  have "(2::rat) powi fl_exp x < 2 powi (fl_exp y + 1)" by linarith
  then have "fl_exp x < fl_exp y + 1" using powi2_mono leD leI by metis
  then show ?thesis by simp
qed

definition fl_pos :: "rat \<Rightarrow> rat" where
  "fl_pos x = (let u = 2 powi (fl_exp x - 52) in of_int (round_even (x / u)) * u)"

definition fl :: "rat \<Rightarrow> float64" where
  "fl x = (if x = 0 then 0 else if x < 0 then - fl_pos (- x) else fl_pos x)"

lemma fl_pos_bounds:
  assumes "0 < x"
  shows "2 powi fl_exp x \<le> fl_pos x \<and> fl_pos x \<le> 2 powi (fl_exp x + 1)"
proof -
  let ?e = "fl_exp x" and ?u = "(2::rat) powi (fl_exp x - 52)"
  have u: "0 < ?u" by simp
  have "(2::rat) powi ?e = 2 ^ 52 * ?u" "(2::rat) powi (?e + 1) = 2 ^ 53 * ?u"
    by (simp_all add: power_int_diff power_int_add)
  with fl_exp_bounds [OF assms] u have "of_int (2 ^ 52) \<le> x / ?u" "x / ?u \<le> of_int (2 ^ 53)"
    by (simp_all add: field_simps)
  then have "2 ^ 52 \<le> round_even (x / ?u)" "round_even (x / ?u) \<le> 2 ^ 53"
    using round_even_mono round_even_int by metis+
  then have "of_int (2 ^ 52) \<le> (of_int (round_even (x / ?u)) :: rat)"
    "(of_int (round_even (x / ?u)) :: rat) \<le> of_int (2 ^ 53)"
    unfolding of_int_le_iff by auto
  with u have "of_int (2 ^ 52) * ?u \<le> fl_pos x" "fl_pos x \<le> of_int (2 ^ 53) * ?u"
    by (simp_all add: fl_pos_def Let_def)
  moreover have "of_int (2 ^ 52) * ?u = 2 powi ?e" "of_int (2 ^ 53) * ?u = 2 powi (?e + 1)"
    by (simp_all add: power_int_diff power_int_add)
  ultimately show ?thesis by simp
qed

lemma fl_pos_positive: "0 < x \<Longrightarrow> 0 < fl_pos x"
  using fl_pos_bounds [of x] by (metis less_le_trans zero_less_numeral zero_less_power_int)

lemma fl_pos_mono:
  assumes "0 < x" and "x \<le> y"
  shows "fl_pos x \<le> fl_pos y"
proof (cases "fl_exp x = fl_exp y")
  case True
  have "x / 2 powi (fl_exp y - 52) \<le> y / 2 powi (fl_exp y - 52)"
    using assms by (intro divide_right_mono) auto
  from round_even_mono [OF this] show ?thesis by (simp add: fl_pos_def Let_def True)
next
  case False
  with fl_exp_mono [OF assms] have "(2::rat) powi (fl_exp x + 1) \<le> 2 powi fl_exp y"
    by (intro powi2_mono) simp
  with fl_pos_bounds [OF assms(1)] fl_pos_bounds [of y] assms show ?thesis by linarith
qed

theorem fl_mono: "x \<le> y \<Longrightarrow> fl x \<le> fl y"
  using fl_pos_mono [of x y] fl_pos_mono [of "- y" "- x"] fl_pos_positive [of y]
    fl_pos_positive [of "- x"]
  by (auto simp: fl_def)

lemma fl_0 [simp]: "fl 0 = 0"
  by (simp add: fl_def)

lemma fl_minus: "fl (- x) = - fl x"
  by (auto simp: fl_def)

lemma fl_nonneg: "0 \<le> x \<Longrightarrow> 0 \<le> fl x"
  using fl_mono [of 0 x] by simp

lemma fl_eq_0_iff [simp]: "fl x = 0 \<longleftrightarrow> x = 0"
  using fl_pos_positive [of x] fl_pos_positive [of "- x"] by (auto simp: fl_def)

text \<open>A value with at most 53 significant bits is its own rounding.\<close>

lemma fl_pos_exact:
  fixes m k :: int
  assumes "0 < m" and "m < 2 ^ 53"
  shows "fl_pos (of_int m * 2 powi k) = of_int m * 2 powi k"
proof -
  let ?x = "of_int m * (2::rat) powi k"
  let ?e = "fl_exp ?x" and ?u = "(2::rat) powi (fl_exp ?x - 52)"
  have pos: "0 < ?x" using assms by simp
  have "of_int m < (of_int (2 ^ 53) :: rat)" using assms(2) by (rule of_int_less_iff [THEN iffD2])
  then have "?x < 2 powi (53 + k)" by (simp add: power_int_add)
  with fl_exp_bounds [OF pos] have "\<not> (2::rat) powi (53 + k) \<le> 2 powi ?e" by linarith
  then have "?e < 53 + k" using powi2_mono leI by blast
  then have d: "k - (?e - 52) = int (nat (k - (?e - 52)))" by simp
  have "?x / ?u = of_int m * (2::rat) powi (k - (?e - 52))"
    by (simp add: power_int_diff)
  also have "\<dots> = of_int (m * 2 ^ nat (k - (?e - 52)))"
    by (subst d) (simp only: power_int_of_nat of_int_mult of_int_power of_int_numeral)
  finally have "of_int (round_even (?x / ?u)) = ?x / ?u" by (metis round_even_int)
  then show ?thesis by (simp add: fl_pos_def Let_def)
qed

lemma fl_exact:
  assumes "\<bar>m\<bar> < 2 ^ 53"
  shows "fl (of_int m * 2 powi k) = of_int m * 2 powi k"
proof -
  have u: "(0::rat) < 2 powi k" by simp
  consider "m = 0" | "0 < m" | "m < 0" by linarith
  then show ?thesis
  proof cases
    case 3
    with u have "of_int m * 2 powi k < (0::rat)" by (simp add: mult_neg_pos)
    with 3 assms fl_pos_exact [of "- m" k] show ?thesis by (simp add: fl_def)
  next
    case 2
    with u have "(0::rat) < of_int m * 2 powi k" by simp
    then have "\<not> of_int m * 2 powi k < (0::rat)" by linarith
    with 2 assms fl_pos_exact [of m k] show ?thesis unfolding fl_def by simp
  qed simp
qed

theorem fl_of_int [simp]: "\<bar>m\<bar> < 2 ^ 53 \<Longrightarrow> fl (of_int m) = of_int m"
  using fl_exact [of m 0] by simp

text \<open>Rounding is idempotent.\<close>

lemma fl_pos_mantissa:
  assumes "0 < x"
  shows "\<exists>m k. 0 < m \<and> m < 2 ^ 53 \<and> fl_pos x = of_int m * 2 powi k"
proof -
  define k where "k = fl_exp x - 52"
  define m where "m = round_even (x / 2 powi k)"
  have x: "fl_pos x = of_int m * 2 powi k" by (simp add: fl_pos_def k_def m_def Let_def)
  have "x < 2 powi (k + 53)" using fl_exp_bounds [OF assms] by (simp add: k_def add.commute)
  then have "x / 2 powi k \<le> of_int (2 ^ 53)"
    by (simp add: divide_le_eq power_int_add)
  then have "m \<le> 2 ^ 53" using round_even_mono [of "x / 2 powi k" "of_int (2 ^ 53)"] by (simp only: m_def round_even_int)
  moreover have "0 < m" using fl_pos_positive [OF assms] x zero_less_power_int [of "2 :: rat" k]
    by (auto simp: zero_less_mult_iff simp del: zero_less_power_int)
  moreover have "0 < (2 ^ 52 :: int) \<and> (2 ^ 52 :: int) < 2 ^ 53 \<and> fl_pos x = of_int (2 ^ 52) * 2 powi (k + 1)"
    if "m = 2 ^ 53"
    using x that by (simp add: power_int_add)
  ultimately show ?thesis using x by (cases "m = 2 ^ 53") (blast, auto)
qed

lemma fl_fl [simp]: "fl (fl x) = fl x"
proof -
  have "fl_pos (fl_pos y) = fl_pos y \<and> 0 < fl_pos y" if "0 < y" for y
    using fl_pos_mantissa [OF that] fl_pos_positive [OF that] fl_pos_exact by auto
  from this [of x] this [of "- x"] show ?thesis by (auto simp: fl_def)
qed

lemma fl_numeral [simp]: "numeral n < (2::int) ^ 53 \<Longrightarrow> fl (numeral n) = numeral n"
  using fl_of_int [of "numeral n"] by simp

lemma fl_1 [simp]: "fl 1 = 1"
  using fl_of_int [of 1] by simp

text \<open>Rounding keeps a value inside any interval whose ends are floats.\<close>

lemma fl_le: "x \<le> of_int m \<Longrightarrow> \<bar>m\<bar> < 2 ^ 53 \<Longrightarrow> fl x \<le> of_int m"
  using fl_mono [of x "of_int m"] by simp

lemma fl_ge: "of_int m \<le> x \<Longrightarrow> \<bar>m\<bar> < 2 ^ 53 \<Longrightarrow> of_int m \<le> fl x"
  using fl_mono [of "of_int m" x] by simp

lemma fl_le_1: "x \<le> 1 \<Longrightarrow> fl x \<le> 1"
  using fl_mono [of x 1] by simp

theorem fl_error: "\<bar>fl x - x\<bar> \<le> \<bar>x\<bar> / 2 ^ 53"
proof -
  have pos: "\<bar>fl_pos y - y\<bar> \<le> y / 2 ^ 53" if "0 < y" for y
  proof -
    let ?u = "(2::rat) powi (fl_exp y - 52)"
    have u: "0 < ?u" by simp
    have "fl_pos y - y = (of_int (round_even (y / ?u)) - y / ?u) * ?u"
      by (simp add: fl_pos_def Let_def algebra_simps)
    then have "\<bar>fl_pos y - y\<bar> = \<bar>of_int (round_even (y / ?u)) - y / ?u\<bar> * ?u"
      using u by (simp add: abs_mult)
    also have "\<dots> \<le> 1/2 * ?u" using round_even_error u by (intro mult_right_mono) auto
    also have "\<dots> = 2 powi fl_exp y / 2 ^ 53" by (simp add: power_int_diff)
    also have "\<dots> \<le> y / 2 ^ 53" using fl_exp_bounds [OF that] by (simp add: divide_right_mono)
    finally show ?thesis .
  qed
  consider "x = 0" | "0 < x" | "x < 0" by linarith
  then show ?thesis
  proof cases
    case 3
    with pos [of "- x"] show ?thesis by (simp add: fl_def)
  qed (use pos [of x] in \<open>auto simp: fl_def\<close>)
qed

text \<open>Evaluating a rounding from its exponent and significand.\<close>

lemma fl_eval:
  assumes "2 powi e \<le> x" and "x < 2 powi (e + 1)" and "round_even (x / 2 powi (e - 52)) = m"
  shows "fl x = of_int m * 2 powi (e - 52)"
proof -
  have "0 < (2::rat) powi e" by simp
  with assms(1) have "0 < x" by linarith
  then show ?thesis
    using assms(3) fl_exp_unique [OF assms(1,2)] by (simp add: fl_def fl_pos_def Let_def)
qed

lemma rat_floor_numeral: "\<lfloor>(numeral a :: rat) / numeral b\<rfloor> = numeral a div numeral b"
  using floor_divide_of_int_eq [of "numeral a" "numeral b", where 'a = rat] by simp

lemmas fl_evaluate = power_int_minus round_even_def Let_def rat_floor_numeral

lemma fl_seven_tenths: "fl (7/10) = 6305039478318694 / 2 ^ 53"
  using fl_eval [of "-1" "7/10" 6305039478318694]
  by (simp add: fl_evaluate)

lemma fl_three_tenths: "fl (3/10) = 5404319552844595 / 2 ^ 54"
  using fl_eval [of "-2" "3/10" 5404319552844595]
  by (simp add: fl_evaluate)

section \<open>Operations\<close>

definition fadd :: "float64 \<Rightarrow> float64 \<Rightarrow> float64" where "fadd x y = fl (x + y)"
definition fsub :: "float64 \<Rightarrow> float64 \<Rightarrow> float64" where "fsub x y = fl (x - y)"
definition fmul :: "float64 \<Rightarrow> float64 \<Rightarrow> float64" where "fmul x y = fl (x * y)"
definition fdiv :: "float64 \<Rightarrow> float64 \<Rightarrow> float64" where "fdiv x y = fl (x / y)"

text \<open>\<open>float64(n)\<close>, and \<open>int(x)\<close>, which drops the fraction.\<close>

definition float_of_int :: "int \<Rightarrow> float64" where "float_of_int n = fl (of_int n)"
definition int_of_float :: "float64 \<Rightarrow> int" where
  "int_of_float x = (if x < 0 then - \<lfloor>- x\<rfloor> else \<lfloor>x\<rfloor>)"

lemmas float_ops = fadd_def fsub_def fmul_def fdiv_def float_of_int_def

text \<open>\<open>d.Seconds()\<close>: whole seconds plus the rest over \<open>1e9\<close>.\<close>

definition Seconds :: "duration \<Rightarrow> float64" where
  "Seconds d = fadd (float_of_int (d sdiv second)) (fdiv (float_of_int (d smod second)) 1000000000)"

lemma float_of_int_nonneg: "0 \<le> n \<Longrightarrow> 0 \<le> float_of_int n"
  by (simp add: float_of_int_def fl_nonneg)

lemma float_of_int_mono: "m \<le> n \<Longrightarrow> float_of_int m \<le> float_of_int n"
  by (simp add: float_of_int_def fl_mono)

lemma float_of_int_exact [simp]: "\<bar>n\<bar> < 2 ^ 53 \<Longrightarrow> float_of_int n = of_int n"
  by (simp add: float_of_int_def)

lemma int_of_float_of_int [simp]: "int_of_float (of_int n) = n"
  by (simp add: int_of_float_def)

lemma int_of_float_mono: "x \<le> y \<Longrightarrow> int_of_float x \<le> int_of_float y"
proof -
  assume xy: "x \<le> y"
  have "- \<lfloor>- x\<rfloor> \<le> \<lfloor>y\<rfloor>" if "x < 0" "0 \<le> y"
  proof -
    from that have "0 \<le> \<lfloor>- x\<rfloor>" "0 \<le> \<lfloor>y\<rfloor>" by simp_all
    then show ?thesis by linarith
  qed
  with xy show ?thesis by (auto simp: int_of_float_def floor_mono)
qed

lemma int_of_float_nonneg: "0 \<le> x \<Longrightarrow> 0 \<le> int_of_float x"
  using int_of_float_mono [of 0 x] int_of_float_of_int [of 0] by simp

end
