(* ===== verification/Cluster_Limits.thy ===== *)
theory Cluster_Limits
  imports Prelude
begin

text \<open>The capacity constants of \<open>master/lib/limits.go\<close>.\<close>

definition WorkerMaxConcurrency :: int where "WorkerMaxConcurrency = 50"
definition MaxWorkersPerAgent :: int where "MaxWorkersPerAgent = 20"
definition PriorityQueueExtra :: int where "PriorityQueueExtra = 200"
definition EliteBurstSlots :: int where "EliteBurstSlots = 50"
definition ProBurstSlots :: int where "ProBurstSlots = 20"

lemmas limits = WorkerMaxConcurrency_def MaxWorkersPerAgent_def PriorityQueueExtra_def
  EliteBurstSlots_def ProBurstSlots_def

end
