(* ===== verification/Worker.thy ===== *)
theory Worker
  imports Float64 Cluster_Limits
begin

text \<open>
  The worker record of \<open>master/lib/worker.go\<close>: lifecycle states, the dial loop of \<open>NewWorker\<close>, the
  marks, the request counter and the smoothed snapshot shown by the TUI. The gRPC connection is third
  party: a record field says whether there is one and whether it was closed, and the outcome of a
  dial, a call or a ping is an argument of the operation. A call through the nil client of a
  placeholder worker panics, which is \<open>None\<close> here.
\<close>

datatype WorkerStatus = WorkerHealthy | WorkerDraining

datatype LifecycleState =
  StateStarting | StateWarming | StateHealthy | StateDraining | StateStopping | StateDead

definition lifecycle_string :: "LifecycleState \<Rightarrow> string" where
  "lifecycle_string ls = (case ls of
     StateStarting \<Rightarrow> ''STARTING''
   | StateWarming \<Rightarrow> ''WARMING''
   | StateHealthy \<Rightarrow> ''HEALTHY''
   | StateDraining \<Rightarrow> ''DRAINING''
   | StateStopping \<Rightarrow> ''STOPPING''
   | StateDead \<Rightarrow> ''DEAD'')"

definition ToWorkerStatus :: "LifecycleState \<Rightarrow> WorkerStatus" where
  "ToWorkerStatus ls = (case ls of
     StateHealthy \<Rightarrow> WorkerHealthy
   | StateDraining \<Rightarrow> WorkerDraining
   | StateStopping \<Rightarrow> WorkerDraining
   | _ \<Rightarrow> WorkerDraining)"

datatype conn_state = NilConn | OpenConn | ClosedConn

record Worker =
  w_id :: string
  w_addr :: string
  activeRequests :: int
  displayActive :: int
  lifecycle :: LifecycleState
  w_status :: WorkerStatus
  w_agentID :: string
  w_conn :: conn_state

section \<open>Constructors\<close>

text \<open>
  The dial loop: \<open>dial i\<close> is the error of the i-th dial, if any. The result is the last error, the
  number of dials and the time slept; the back-off doubles, and the code sleeps after the last
  failure too.
\<close>

fun dial_loop :: "(nat \<Rightarrow> string option) \<Rightarrow> nat \<Rightarrow> nat \<Rightarrow> duration \<Rightarrow> duration \<Rightarrow> string option \<Rightarrow>
    string option \<times> nat \<times> duration" where
  "dial_loop dial 0 i backoff slept err = (err, i, slept)"
| "dial_loop dial (Suc n) i backoff slept err =
     (case dial i of
        None \<Rightarrow> (None, Suc i, slept)
      | Some e \<Rightarrow> dial_loop dial n (Suc i) (backoff * 2) (slept + backoff) (Some e))"

definition NewWorker :: "(nat \<Rightarrow> string option) \<Rightarrow> string \<Rightarrow> string \<Rightarrow> string + Worker" where
  "NewWorker dial wid addr =
     (case dial_loop dial 3 0 (500 * millisecond) 0 None of
        (Some err, _, _) \<Rightarrow> Inl (''failed to connect after retries: '' @ err)
      | (None, _, _) \<Rightarrow> Inr \<lparr>w_id = wid, w_addr = addr, activeRequests = 0, displayActive = 0,
          lifecycle = StateHealthy, w_status = WorkerHealthy, w_agentID = '''', w_conn = OpenConn\<rparr>)"

definition NewStartingWorker :: "string \<Rightarrow> string \<Rightarrow> string \<Rightarrow> Worker" where
  "NewStartingWorker wid addr agentID =
     \<lparr>w_id = wid, w_addr = addr, activeRequests = 0, displayActive = 0, lifecycle = StateStarting,
      w_status = WorkerDraining, w_agentID = agentID, w_conn = NilConn\<rparr>"

section \<open>Requests\<close>

definition tierToPriority :: "string \<Rightarrow> int" where
  "tierToPriority tier =
     (if tier = ''elite'' then 10000
      else if tier = ''pro'' then 100
      else if tier = ''free'' then 50
      else 50)"

text \<open>The message of the gRPC call.\<close>

record pb_Request =
  pb_RequestId :: string
  pb_Message :: string
  pb_Priority :: int

definition send_begin :: "Worker \<Rightarrow> Worker" where
  "send_begin w = w\<lparr>activeRequests := activeRequests w + 1\<rparr>"

definition send_end :: "Worker \<Rightarrow> Worker" where
  "send_end w = w\<lparr>activeRequests := activeRequests w - 1\<rparr>"

definition make_request :: "string \<Rightarrow> string \<Rightarrow> string \<Rightarrow> pb_Request" where
  "make_request requestID prompt tier =
     \<lparr>pb_RequestId = requestID, pb_Message = prompt, pb_Priority = tierToPriority tier\<rparr>"

text \<open>\<open>Send\<close>: count the request, call the worker, give the count back whatever the outcome.\<close>

definition Send :: "(pb_Request \<Rightarrow> 'e + string) \<Rightarrow> string \<Rightarrow> string \<Rightarrow> string \<Rightarrow> Worker \<Rightarrow>
    (('e + string) \<times> Worker) option" where
  "Send handle requestID prompt tier w =
     (let w = send_begin w in
      if w_conn w = NilConn then None
      else Some (handle (make_request requestID prompt tier), send_end w))"

definition isRoutable :: "Worker \<Rightarrow> bool" where
  "isRoutable w \<longleftrightarrow> lifecycle w = StateHealthy"

definition IsHealthy :: "Worker \<Rightarrow> bool" where
  "IsHealthy w \<longleftrightarrow> lifecycle w = StateHealthy"

section \<open>Lifecycle\<close>

definition SetLifecycleState :: "LifecycleState \<Rightarrow> Worker \<Rightarrow> Worker" where
  "SetLifecycleState state w = w\<lparr>lifecycle := state, w_status := ToWorkerStatus state\<rparr>"

definition MarkHealthy :: "Worker \<Rightarrow> Worker" where
  "MarkHealthy w = w\<lparr>lifecycle := StateHealthy, w_status := WorkerHealthy\<rparr>"

definition MarkDraining :: "Worker \<Rightarrow> Worker" where
  "MarkDraining w = w\<lparr>lifecycle := StateDraining, w_status := WorkerDraining\<rparr>"

definition SetDraining :: "Worker \<Rightarrow> Worker" where
  "SetDraining w = w\<lparr>lifecycle := StateDraining, w_status := WorkerDraining\<rparr>"

definition SetAgentID :: "string \<Rightarrow> Worker \<Rightarrow> Worker" where
  "SetAgentID a w = w\<lparr>w_agentID := a\<rparr>"

text \<open>\<open>close_err\<close> is what the gRPC connection answers to being closed.\<close>

definition Close :: "string option \<Rightarrow> Worker \<Rightarrow> string option \<times> Worker" where
  "Close close_err w =
     (if w_conn w = NilConn then (None, w) else (close_err, w\<lparr>w_conn := ClosedConn\<rparr>))"

section \<open>Snapshot\<close>

record WorkerSnapshot =
  ws_ID :: string
  ws_Addr :: string
  ws_Status :: WorkerStatus
  ws_Lifecycle :: LifecycleState
  ws_Failures :: int
  ws_Successes :: int
  ws_ActiveRequests :: int
  ws_AgentID :: string

definition smooth :: "int \<Rightarrow> int \<Rightarrow> int" where
  "smooth prev raw =
     (if prev = 0 \<and> raw = 0 then 0
      else if prev = 0 then raw
      else
        let smoothed = int_of_float (fadd (fmul (float_of_int prev) (fl (7/10)))
                                          (fmul (float_of_int raw) (fl (3/10))))
        in if smoothed < 1 \<and> raw = 0 then 0 else smoothed)"

definition Snapshot :: "Worker \<Rightarrow> WorkerSnapshot \<times> Worker" where
  "Snapshot w =
     (let smoothed = smooth (displayActive w) (activeRequests w);
          w = w\<lparr>displayActive := smoothed\<rparr>
      in (\<lparr>ws_ID = w_id w, ws_Addr = w_addr w, ws_Status = w_status w, ws_Lifecycle = lifecycle w,
           ws_Failures = 0, ws_Successes = 0, ws_ActiveRequests = smoothed,
           ws_AgentID = w_agentID w\<rparr>, w))"

section \<open>Invariant of a worker\<close>

text \<open>
  The legacy status follows the lifecycle, the counter never goes negative, and a worker without a
  connection is in no state that is routed to or pinged.
\<close>

definition worker_ok :: "Worker \<Rightarrow> bool" where
  "worker_ok w \<longleftrightarrow> w_status w = ToWorkerStatus (lifecycle w) \<and> 0 \<le> activeRequests w \<and>
     (w_conn w = NilConn \<longrightarrow> lifecycle w \<noteq> StateHealthy \<and> lifecycle w \<noteq> StateWarming)"

lemmas worker_defs = send_begin_def send_end_def SetLifecycleState_def MarkHealthy_def
  MarkDraining_def SetDraining_def SetAgentID_def Close_def

lemma worker_ok_new [wf_intros]:
  "NewWorker dial i a = Inr w \<Longrightarrow> worker_ok w"
  "worker_ok (NewStartingWorker i a g)"
  by (auto simp: NewWorker_def NewStartingWorker_def worker_ok_def ToWorkerStatus_def
      split: prod.splits option.splits)

lemma worker_ok_ops [wf_intros]:
  "worker_ok w \<Longrightarrow> worker_ok (send_begin w)"
  "worker_ok w \<Longrightarrow> 0 < activeRequests w \<Longrightarrow> worker_ok (send_end w)"
  "worker_ok w \<Longrightarrow> s \<noteq> StateHealthy \<Longrightarrow> s \<noteq> StateWarming \<Longrightarrow> worker_ok (SetLifecycleState s w)"
  "worker_ok w \<Longrightarrow> w_conn w \<noteq> NilConn \<Longrightarrow> worker_ok (MarkHealthy w)"
  "worker_ok w \<Longrightarrow> worker_ok (SetDraining w)"
  "worker_ok w \<Longrightarrow> worker_ok (SetAgentID a w)"
  "worker_ok w \<Longrightarrow> worker_ok (snd (Close e w))"
  "worker_ok w \<Longrightarrow> worker_ok (snd (Snapshot w))"
  by (auto simp: worker_ok_def worker_defs ToWorkerStatus_def Snapshot_def Let_def)

lemma w_id_ops [simp]:
  "w_id (send_begin w) = w_id w" "w_id (send_end w) = w_id w"
  "w_id (SetLifecycleState s w) = w_id w" "w_id (MarkHealthy w) = w_id w"
  "w_id (SetDraining w) = w_id w" "w_id (SetAgentID a w) = w_id w"
  "w_id (snd (Close e w)) = w_id w" "w_id (snd (Snapshot w)) = w_id w"
  by (simp_all add: worker_defs Snapshot_def Let_def)

lemma NewWorker_fields:
  "NewWorker dial i a = Inr w \<Longrightarrow> w_id w = i \<and> w_addr w = a \<and> isRoutable w \<and>
     activeRequests w = 0 \<and> w_conn w = OpenConn"
  by (auto simp: NewWorker_def isRoutable_def split: prod.splits option.splits)

lemma routable_conn: "worker_ok w \<Longrightarrow> isRoutable w \<Longrightarrow> w_conn w \<noteq> NilConn"
  by (auto simp: worker_ok_def isRoutable_def)

text \<open>\<open>Send\<close> on a routable worker never hits the nil client and leaves the worker as it was.\<close>

lemma Send_routable:
  "worker_ok w \<Longrightarrow> isRoutable w \<Longrightarrow>
     Send handle r p t w = Some (handle (make_request r p t), w)"
  using routable_conn [of w] by (simp add: Send_def send_begin_def send_end_def)

section \<open>The dial loop\<close>

lemma dial_loop_bound:
  "dial_loop dial n i b s err = (res, k, slept) \<Longrightarrow> i \<le> k \<and> k \<le> i + n"
  by (induction dial n i b s err rule: dial_loop.induct) (fastforce split: option.splits)+

lemma dial_loop_fail:
  "\<forall>j. i \<le> j \<and> j < i + n \<longrightarrow> dial j \<noteq> None \<Longrightarrow> 0 < n \<Longrightarrow>
     fst (dial_loop dial n i b s err) = dial (i + n - 1)"
proof (induction dial n i b s err rule: dial_loop.induct)
  case (2 dial n i b s err)
  from "2.prems" obtain e where e: "dial i = Some e" by force
  show ?case
  proof (cases n)
    case (Suc m)
    with e "2.prems"(1) show ?thesis using "2.IH" [OF e] by simp
  qed (use e in simp)
qed simp

lemma dial_loop_success:
  "i \<le> j \<Longrightarrow> j < i + n \<Longrightarrow> dial j = None \<Longrightarrow> fst (dial_loop dial n i b s err) = None"
proof (induction dial n i b s err rule: dial_loop.induct)
  case (2 dial n i b s err)
  then show ?case by (cases "i = j") (auto split: option.split)
qed simp

text \<open>\<open>NewWorker\<close> succeeds exactly when one of its three dials does, and otherwise reports the third
  dial's error; a new worker is routable, idle and connected.\<close>

lemma NewWorker_outcome:
  "NewWorker dial i a =
     (if dial 0 = None \<or> dial 1 = None \<or> dial 2 = None
      then Inr \<lparr>w_id = i, w_addr = a, activeRequests = 0, displayActive = 0,
          lifecycle = StateHealthy, w_status = WorkerHealthy, w_agentID = '''', w_conn = OpenConn\<rparr>
      else Inl (''failed to connect after retries: '' @ the (dial 2)))"
  by (cases "dial 0"; cases "dial 1"; cases "dial 2")
    (simp_all add: NewWorker_def eval_nat_numeral)

text \<open>With three failures the loop has slept 3.5 s.\<close>

lemma NewWorker_slept:
  "dial 0 = Some e0 \<Longrightarrow> dial 1 = Some e1 \<Longrightarrow> dial 2 = Some e2 \<Longrightarrow>
     dial_loop dial 3 0 (500 * millisecond) 0 None = (Some e2, 3, 3500 * millisecond)"
  by (simp add: eval_nat_numeral)

section \<open>The smoothed counter\<close>

lemma smooth_nonneg:
  assumes "0 \<le> prev" and "0 \<le> raw"
  shows "0 \<le> smooth prev raw"
proof -
  have "0 \<le> fadd (fmul (float_of_int prev) (fl (7/10))) (fmul (float_of_int raw) (fl (3/10)))"
    using assms by (simp add: fadd_def fmul_def fl_nonneg float_of_int_nonneg)
  then show ?thesis using assms by (simp add: smooth_def int_of_float_nonneg Let_def)
qed

lemma smooth_mono_raw:
  assumes "0 < prev" and "0 < raw" and "raw \<le> raw'"
  shows "smooth prev raw \<le> smooth prev raw'"
proof -
  have "fmul (float_of_int raw) (fl (3/10)) \<le> fmul (float_of_int raw') (fl (3/10))"
    using assms by (simp add: fmul_def fl_mono mult_right_mono fl_nonneg float_of_int_mono)
  then have "fadd x (fmul (float_of_int raw) (fl (3/10))) \<le> fadd x (fmul (float_of_int raw') (fl (3/10)))" for x
    by (simp add: fadd_def fl_mono)
  then show ?thesis using assms by (simp add: smooth_def Let_def int_of_float_mono)
qed

text \<open>The smoothed counter does not settle on the value it smooths: because 3 * 0.7 + 3 * 0.3 is
  2.9999999999999996 in binary64 and the conversion to an integer drops the fraction, a worker with
  a steady load of 3 requests is shown with 2, for ever, while one with a steady load of 2 is shown right.\<close>

theorem smooth_steady_three: "smooth 0 3 = 3 \<and> smooth 3 3 = 2 \<and> smooth 2 3 = 2 \<and> smooth 2 2 = 2"
proof -
  have m1: "fmul 3 (fl (7/10)) = 9457559217478040 / 2 ^ 52"
    using fl_eval [of 1 "3 * fl (7/10)" 4728779608739020] by (simp add: fmul_def fl_seven_tenths fl_evaluate)
  have m2: "fmul 3 (fl (3/10)) = 8106479329266892 / 2 ^ 53"
    using fl_eval [of "-1" "3 * fl (3/10)" 8106479329266892]
    by (simp add: fmul_def fl_three_tenths fl_evaluate)
  have m3: "fmul 2 (fl (7/10)) = 6305039478318694 / 2 ^ 52"
    using fl_eval [of 0 "2 * fl (7/10)" 6305039478318694] by (simp add: fmul_def fl_seven_tenths fl_evaluate)
  have m4: "fmul 2 (fl (3/10)) = 5404319552844595 / 2 ^ 53"
    using fl_eval [of "-1" "2 * fl (3/10)" 5404319552844595]
    by (simp add: fmul_def fl_three_tenths fl_evaluate)
  have s1: "fadd (fmul 3 (fl (7/10))) (fmul 3 (fl (3/10))) = 6755399441055743 / 2251799813685248"
    using fl_eval [of 1 "9457559217478040 / 2 ^ 52 + 8106479329266892 / 2 ^ 53" 6755399441055743]
    by (simp add: m1 m2 fadd_def fl_evaluate)
  have s2: "fadd (fmul 2 (fl (7/10))) (fmul 3 (fl (3/10))) = 5179139571476070 / 2251799813685248"
    using fl_eval [of 1 "6305039478318694 / 2 ^ 52 + 8106479329266892 / 2 ^ 53" 5179139571476070]
    by (simp add: m3 m2 fadd_def fl_evaluate)
  have s3: "fadd (fmul 2 (fl (7/10))) (fmul 2 (fl (3/10))) = 2"
    using fl_eval [of 0 "6305039478318694 / 2 ^ 52 + 5404319552844595 / 2 ^ 53" 9007199254740992]
    by (simp add: m3 m4 fadd_def fl_evaluate)
  show ?thesis by (simp add: smooth_def int_of_float_def s1 s2 s3 rat_floor_numeral)
qed

end
