(* ===== verification/Keyed_Store.thy ===== *)
theory Keyed_Store
  imports Prelude
begin

text \<open>
  The interface of the program's registries (in-flight requests, agents, workers): a store whose
  values carry their own key, with the laws of a Go map. Its clients see only \<open>look\<close>, so every
  sequence of insertions and deletions refines the same sequence on an abstract map; \<open>counted_store\<close>
  adds the size.
\<close>

datatype ('k, 'v) store_op = Put 'v | Del 'k

text \<open>The abstract specification: the operations on a partial map.\<close>

fun spec_op :: "('v \<Rightarrow> 'k) \<Rightarrow> ('k, 'v) store_op \<Rightarrow> ('k \<rightharpoonup> 'v) \<Rightarrow> ('k \<rightharpoonup> 'v)" where
  "spec_op key (Put v) m = m(key v \<mapsto> v)"
| "spec_op key (Del k) m = m(k := None)"

fun run_op :: "('v \<Rightarrow> 's \<Rightarrow> 's) \<Rightarrow> ('k \<Rightarrow> 's \<Rightarrow> 's) \<Rightarrow> ('k, 'v) store_op \<Rightarrow> 's \<Rightarrow> 's" where
  "run_op put del (Put v) s = put v s"
| "run_op put del (Del k) s = del k s"

text \<open>A registry that is only added to: the last value put under a key is the one found.\<close>

locale put_store =
  fixes put :: "'v \<Rightarrow> 's \<Rightarrow> 's"
    and look :: "'s \<Rightarrow> 'k \<rightharpoonup> 'v"
    and key :: "'v \<Rightarrow> 'k"
    and inv :: "'s \<Rightarrow> bool"
    and valid :: "'v \<Rightarrow> bool"
  assumes inv_put: "inv s \<Longrightarrow> valid v \<Longrightarrow> inv (put v s)"
    and look_put: "inv s \<Longrightarrow> look (put v s) = (look s)(key v \<mapsto> v)"
    and look_key: "inv s \<Longrightarrow> look s k = Some v \<Longrightarrow> key v = k"
begin

lemma inv_puts: "inv s \<Longrightarrow> list_all valid vs \<Longrightarrow> inv (fold put vs s)"
  by (induction vs arbitrary: s) (simp_all add: inv_put)

lemma look_puts:
  "inv s \<Longrightarrow> list_all valid vs \<Longrightarrow> look (fold put vs s) = look s ++ map_of (rev (map (\<lambda>v. (key v, v)) vs))"
  by (induction vs arbitrary: s) (simp_all add: inv_put look_put)

lemma put_idem: "inv s \<Longrightarrow> valid v \<Longrightarrow> look (put v (put v s)) = look (put v s)"
  by (simp add: look_put inv_put)

end

fun valid_op :: "('v \<Rightarrow> bool) \<Rightarrow> ('k, 'v) store_op \<Rightarrow> bool" where
  "valid_op valid (Put v) = valid v"
| "valid_op valid (Del k) = True"

locale keyed_store = put_store put look key inv valid
  for put :: "'v \<Rightarrow> 's \<Rightarrow> 's"
    and look :: "'s \<Rightarrow> 'k \<rightharpoonup> 'v"
    and key :: "'v \<Rightarrow> 'k"
    and inv :: "'s \<Rightarrow> bool"
    and valid :: "'v \<Rightarrow> bool" +
  fixes del :: "'k \<Rightarrow> 's \<Rightarrow> 's"
  assumes inv_del: "inv s \<Longrightarrow> inv (del k s)"
    and look_del: "inv s \<Longrightarrow> look (del k s) = (look s)(k := None)"
begin

lemma inv_op: "inv s \<Longrightarrow> valid_op valid x \<Longrightarrow> inv (run_op put del x s)"
  by (cases x) (simp_all add: inv_put inv_del)

lemma refines_op: "inv s \<Longrightarrow> look (run_op put del x s) = spec_op key x (look s)"
  by (cases x) (simp_all add: look_put look_del)

lemma inv_run: "inv s \<Longrightarrow> list_all (valid_op valid) xs \<Longrightarrow> inv (fold (run_op put del) xs s)"
  by (induction xs arbitrary: s) (simp_all add: inv_op)

lemma refines_run:
  "inv s \<Longrightarrow> list_all (valid_op valid) xs \<Longrightarrow>
     look (fold (run_op put del) xs s) = fold (spec_op key) xs (look s)"
  by (induction xs arbitrary: s) (simp_all add: inv_op refines_op)

lemma put_del: "inv s \<Longrightarrow> valid v \<Longrightarrow> look s (key v) = None \<Longrightarrow> look (del (key v) (put v s)) = look s"
  by (auto simp: look_put look_del inv_put)

end

locale counted_store = keyed_store +
  fixes count :: "'s \<Rightarrow> nat"
  assumes count: "inv s \<Longrightarrow> count s = card (dom (look s))"
    and finite_look: "inv s \<Longrightarrow> finite (dom (look s))"
begin

lemma count_put:
  "inv s \<Longrightarrow> valid v \<Longrightarrow>
     count (put v s) = (if look s (key v) = None then Suc (count s) else count s)"
  using finite_look [of s]
  by (auto simp: count inv_put look_put card_insert_if domIff)

lemma count_del:
  "inv s \<Longrightarrow> count (del k s) = (if look s k = None then count s else count s - 1)"
  using finite_look [of s]
  by (auto simp: count inv_del look_del card_Diff_singleton domIff)

end

end
