(* ===== verification/Inflight.thy ===== *)
theory Inflight
  imports Bounded_Log Keyed_Store
begin

text \<open>
  The in-flight store of \<open>master/monitoring/inflight.go\<close>: the requests a worker is serving, by
  request id, and the history of completed ones.
\<close>

record InFlight =
  if_RequestID :: string
  if_Worker :: string
  if_StartedAt :: time

record CompletedFlight =
  cf_RequestID :: string
  cf_Worker :: string
  cf_StartedAt :: time
  cf_EndedAt :: time
  cf_Duration :: duration

record InFlightStore =
  requests :: "(string \<times> InFlight) list"
  completed :: "CompletedFlight list"

definition NewInFlightStore :: InFlightStore where
  "NewInFlightStore = \<lparr>requests = [], completed = []\<rparr>"

definition Add :: "time \<Rightarrow> string \<Rightarrow> string \<Rightarrow> InFlightStore \<Rightarrow> InFlightStore" where
  "Add now requestID workerAddr t = t\<lparr>requests := AList.update requestID
     \<lparr>if_RequestID = requestID, if_Worker = workerAddr, if_StartedAt = now\<rparr> (requests t)\<rparr>"

definition completion :: "time \<Rightarrow> InFlight \<Rightarrow> CompletedFlight" where
  "completion endedAt flight = \<lparr>cf_RequestID = if_RequestID flight, cf_Worker = if_Worker flight,
     cf_StartedAt = if_StartedAt flight, cf_EndedAt = endedAt,
     cf_Duration = time_sub endedAt (if_StartedAt flight)\<rparr>"

definition Remove :: "time \<Rightarrow> string \<Rightarrow> InFlightStore \<Rightarrow> InFlightStore" where
  "Remove now requestID t =
     (let t = (case map_of (requests t) requestID of
          None \<Rightarrow> t
        | Some flight \<Rightarrow>
            let cs = completed t @ [completion now flight]
            in t\<lparr>completed := (if 2000 < length cs then drop (length cs - 1000) cs else cs)\<rparr>)
      in t\<lparr>requests := AList.delete requestID (requests t)\<rparr>)"

definition Count :: "InFlightStore \<Rightarrow> nat" where
  "Count t = length (requests t)"

text \<open>The order of \<open>GetAll\<close> is that of a Go map, unspecified; its users count or sort the result.\<close>

definition GetAll :: "InFlightStore \<Rightarrow> InFlight list" where
  "GetAll t = map snd (requests t)"

definition Recent :: "int \<Rightarrow> InFlightStore \<Rightarrow> CompletedFlight list" where
  "Recent limit t =
     (if limit \<le> 0 \<or> int (length (completed t)) \<le> limit then completed t
      else drop (nat (int (length (completed t)) - limit)) (completed t))"

section \<open>Invariant and laws\<close>

definition wf_inflight :: "InFlightStore \<Rightarrow> bool" where
  "wf_inflight t \<longleftrightarrow> keys_distinct (requests t) \<and>
     (\<forall>(k, f) \<in> set (requests t). if_RequestID f = k) \<and> length (completed t) \<le> 2000"

definition flight_of :: "InFlightStore \<Rightarrow> string \<rightharpoonup> InFlight" where
  "flight_of t = map_of (requests t)"

definition put_flight :: "InFlight \<Rightarrow> InFlightStore \<Rightarrow> InFlightStore" where
  "put_flight f = Add (if_StartedAt f) (if_RequestID f) (if_Worker f)"

lemma wf_NewInFlightStore [wf_intros]: "wf_inflight NewInFlightStore"
  by (simp add: wf_inflight_def NewInFlightStore_def)

lemma wf_Add [wf_intros]: "wf_inflight t \<Longrightarrow> wf_inflight (Add now r w t)"
  using set_update_subset [of r _ "requests t"]
  by (fastforce simp: wf_inflight_def Add_def distinct_update)

lemma Remove_fields [view_simps]:
  "requests (Remove now r t) = AList.delete r (requests t)"
  "completed (Remove now r t) = (case map_of (requests t) r of None \<Rightarrow> completed t
     | Some f \<Rightarrow> push_trim 2000 1000 (completion now f) (completed t))"
  by (simp_all add: Remove_def push_trim_def lastn_def Let_def split: option.split)

lemma wf_Remove [wf_intros]: "wf_inflight t \<Longrightarrow> wf_inflight (Remove now r t)"
  using set_delete_subset [of r "requests t"]
  by (auto simp: wf_inflight_def view_simps distinct_delete push_trim_def split: option.split)

lemma flight_of_Add [view_simps]:
  "flight_of (Add now r w t) =
     (flight_of t)(r \<mapsto> \<lparr>if_RequestID = r, if_Worker = w, if_StartedAt = now\<rparr>)"
  by (simp add: flight_of_def Add_def)

lemma flight_of_Remove [view_simps]: "flight_of (Remove now r t) = (flight_of t)(r := None)"
  by (simp add: flight_of_def view_simps)

lemma completed_Add [view_simps]: "completed (Add now r w t) = completed t"
  by (simp add: Add_def)

interpretation inflight_store:
  counted_store put_flight flight_of if_RequestID wf_inflight "\<lambda>_. True" "Remove now" Count
  for now
proof unfold_locales
  fix t :: InFlightStore and f :: InFlight and k :: string
  assume wf: "wf_inflight t"
  show "wf_inflight (put_flight f t)" by (simp add: put_flight_def wf_Add wf)
  show "wf_inflight (Remove now k t)" by (simp add: wf_Remove wf)
  show "flight_of (put_flight f t) = (flight_of t)(if_RequestID f \<mapsto> f)"
    by (cases f) (simp add: put_flight_def flight_of_Add)
  show "flight_of (Remove now k t) = (flight_of t)(k := None)" by (rule flight_of_Remove)
  show "if_RequestID f = k" if "flight_of t k = Some f"
    using that wf by (auto simp: flight_of_def wf_inflight_def dest!: map_of_SomeD)
  have "card (fst ` set (requests t)) = length (requests t)"
    using wf by (metis wf_inflight_def distinct_card length_map set_map)
  then show "Count t = card (dom (flight_of t))"
    by (simp add: Count_def flight_of_def dom_map_of_conv_image_fst)
  show "finite (dom (flight_of t))" by (simp add: flight_of_def finite_dom_map_of)
qed

text \<open>Appending one completed flight, as \<open>Remove\<close> does for a request it knows.\<close>

definition complete :: "CompletedFlight \<Rightarrow> InFlightStore \<Rightarrow> InFlightStore" where
  "complete c t = t\<lparr>completed := push_trim 2000 1000 c (completed t)\<rparr>"

interpretation completed_log: bounded_log complete completed "\<lambda>_. True" 2000 1000
  by unfold_locales (simp_all add: complete_def)

lemma Recent_eq: "Recent limit t = recent_of limit (completed t)"
  by (simp add: Recent_def recent_of_def)

lemma flight_lifecycle_lemma:
  assumes "wf_inflight t" and "flight_of t r = None"
  shows "flight_of (Remove t2 r (Add t1 r w t)) = flight_of t \<and>
    Count (Remove t2 r (Add t1 r w t)) = Count t \<and>
    last (completed (Remove t2 r (Add t1 r w t))) = \<lparr>cf_RequestID = r, cf_Worker = w,
      cf_StartedAt = t1, cf_EndedAt = t2, cf_Duration = time_sub t2 t1\<rparr> \<and>
    wf_inflight (Remove t2 r (Add t1 r w t))"
proof -
  let ?f = "\<lparr>if_RequestID = r, if_Worker = w, if_StartedAt = t1\<rparr>"
  have put: "Add t1 r w t = put_flight ?f t" by (simp add: put_flight_def)
  have wf: "wf_inflight (put_flight ?f t)" using assms by (simp add: put [symmetric] wf_Add)
  have "map_of (requests (put_flight ?f t)) r = Some ?f"
    using inflight_store.look_put [OF assms(1), of ?f] by (simp add: flight_of_def)
  then have hist: "completed (Remove t2 r (put_flight ?f t)) =
      push_trim 2000 1000 (completion t2 ?f) (completed t)"
    by (simp add: view_simps put_flight_def)
  have newest: "last (push_trim 2000 1000 c cs) = c" for c :: CompletedFlight and cs
    using completed_log.newest [where s = "NewInFlightStore\<lparr>completed := cs\<rparr>" and x = c]
    by (simp add: complete_def)
  show ?thesis
    unfolding put hist newest
    using inflight_store.put_del [OF assms(1), of ?f] inflight_store.count_put [OF assms(1), of ?f]
      inflight_store.count_del [OF wf, of t2 r] inflight_store.look_put [OF assms(1), of ?f] assms
    by (simp add: completion_def wf wf_Remove)
qed

text \<open>Starting a request and finishing it restores the set of requests in flight, and leaves exactly one
  completed flight at the end of the history: that request, on that worker, with its duration.\<close>

theorem flight_lifecycle:
  assumes "wf_inflight t" and "flight_of t r = None"
  shows "flight_of (Remove t2 r (Add t1 r w t)) = flight_of t \<and>
    Count (Remove t2 r (Add t1 r w t)) = Count t \<and>
    last (completed (Remove t2 r (Add t1 r w t))) = \<lparr>cf_RequestID = r, cf_Worker = w,
      cf_StartedAt = t1, cf_EndedAt = t2, cf_Duration = time_sub t2 t1\<rparr> \<and>
    wf_inflight (Remove t2 r (Add t1 r w t))"
  by (rule flight_lifecycle_lemma [OF assms])

theorem flight_lifecycle_witness:
  "Count (Remove 90 ''r1'' (Add 50 ''r1'' ''10.0.0.2:8001'' NewInFlightStore)) = 0"
  using flight_lifecycle [of NewInFlightStore "''r1''" 90 50 "''10.0.0.2:8001''"]
  by (simp add: wf_NewInFlightStore) (simp add: NewInFlightStore_def flight_of_def Count_def)

end
