(* ===== verification/Router.thy ===== *)
theory Router
  imports Worker Inflight
begin

text \<open>
  The router's state and registries: \<open>master/lib/router.go\<close> without the chat loop, and the two
  operations of \<open>master/lib/admin.go\<close> that add and remove workers.

  Workers are shared by pointer: the registry, the goroutines that drain and the requests being served
  all hold \<open>*Worker\<close> values, and a worker replaced in the registry lives on for those that hold it. So
  \<open>heap\<close> is the list of allocated workers and a pointer is an index into it. A goroutine that an
  operation starts is returned as a value.
\<close>

record AgentInfo =
  ai_AgentID :: string
  ai_Host :: string
  ai_Port :: int
  ai_AddedAt :: time

record Router =
  heap :: "Worker list"
  workers :: "(string \<times> nat) list"
  agents :: "(string \<times> AgentInfo) list"
  inflight :: InFlightStore
  strategy :: string
  rrCounter :: "64 word"
  startupDurations :: "duration list"
  startupFailures :: int
  has_autoscaler :: bool

datatype go_error =
    ErrNoWorkersAvailable
  | ErrWorkerFailed string
  | ErrWorkerNotFound
  | Errorf string

datatype goroutine =
    GoTriggerScaleUp
  | GoDestroyWorker string string \<comment> \<open>\<open>destroyWorkerOnAgent(workerID, agentID)\<close>\<close>
  | GoKill nat string \<comment> \<open>the goroutine of \<open>DrainWorker\<close>\<close>
  | GoDrain nat \<comment> \<open>\<open>drainAndRemoveWorker(w)\<close>\<close>
  | GoSpawn string string \<comment> \<open>\<open>fireSpawnRequest(agentID, agentAddr, \<dots>)\<close>\<close>

definition StrategyRoundRobin :: string where "StrategyRoundRobin = ''round_robin''"
definition StrategyLeastConnections :: string where "StrategyLeastConnections = ''least_connections''"
definition StrategyRandom :: string where "StrategyRandom = ''random''"

lemmas strategies = StrategyRoundRobin_def StrategyLeastConnections_def StrategyRandom_def

definition NewRouter :: Router where
  "NewRouter = \<lparr>heap = [], workers = [], agents = [], inflight = NewInFlightStore,
     strategy = StrategyLeastConnections, rrCounter = 0, startupDurations = [], startupFailures = 0,
     has_autoscaler = False\<rparr>"

section \<open>Pointers\<close>

definition deref :: "Router \<Rightarrow> nat \<Rightarrow> Worker" where
  "deref r p = heap r ! p"

definition modify :: "nat \<Rightarrow> (Worker \<Rightarrow> Worker) \<Rightarrow> Router \<Rightarrow> Router" where
  "modify p f r = r\<lparr>heap := (heap r)[p := f (heap r ! p)]\<rparr>"

definition alloc :: "Worker \<Rightarrow> Router \<Rightarrow> nat \<times> Router" where
  "alloc w r = (length (heap r), r\<lparr>heap := heap r @ [w]\<rparr>)"

text \<open>The values a \<open>range\<close> over the registry yields.\<close>

definition registered :: "Router \<Rightarrow> Worker list" where
  "registered r = map (\<lambda>(k, p). deref r p) (workers r)"

section \<open>Registry operations\<close>

definition RegisterAgent :: "AgentInfo \<Rightarrow> Router \<Rightarrow> Router" where
  "RegisterAgent info r = r\<lparr>agents := AList.update (ai_AgentID info) info (agents r)\<rparr>"

definition WorkerExists :: "string \<Rightarrow> Router \<Rightarrow> bool" where
  "WorkerExists i r \<longleftrightarrow> map_of (workers r) i \<noteq> None"

definition AddWorkerWithInstance :: "nat \<Rightarrow> Router \<Rightarrow> Router" where
  "AddWorkerWithInstance p r = r\<lparr>workers := AList.update (w_id (deref r p)) p (workers r)\<rparr>"

definition WorkerCount :: "Router \<Rightarrow> int" where
  "WorkerCount r = int (length (workers r))"

fun count_healthy :: "Worker list \<Rightarrow> int" where
  "count_healthy [] = 0"
| "count_healthy (w # ws) = (if lifecycle w = StateHealthy then 1 else 0) + count_healthy ws"

definition HealthyWorkerCount :: "Router \<Rightarrow> int" where
  "HealthyWorkerCount r = count_healthy (registered r)"

text \<open>\<open>counts[k]++\<close> on a map of counters, and the read that is 0 for a missing key.\<close>

definition lookup0 :: "(string \<times> int) list \<Rightarrow> string \<Rightarrow> int" where
  "lookup0 m k = (case map_of m k of None \<Rightarrow> 0 | Some n \<Rightarrow> n)"

definition incr :: "string \<Rightarrow> (string \<times> int) list \<Rightarrow> (string \<times> int) list" where
  "incr k m = AList.update k (lookup0 m k + 1) m"

fun agent_counts :: "Worker list \<Rightarrow> (string \<times> int) list \<Rightarrow> (string \<times> int) list" where
  "agent_counts [] m = m"
| "agent_counts (w # ws) m = agent_counts ws (if w_agentID w \<noteq> '''' then incr (w_agentID w) m else m)"

definition WorkerCountByAgent :: "Router \<Rightarrow> (string \<times> int) list" where
  "WorkerCountByAgent r = agent_counts (registered r) []"

fun healthy_agent_counts :: "Worker list \<Rightarrow> (string \<times> int) list \<Rightarrow> (string \<times> int) list" where
  "healthy_agent_counts [] m = m"
| "healthy_agent_counts (w # ws) m = healthy_agent_counts ws
     (if lifecycle w = StateHealthy
      then (if w_agentID w \<noteq> '''' then incr (w_agentID w) m else m) else m)"

definition HealthyWorkerCountByAgent :: "Router \<Rightarrow> (string \<times> int) list" where
  "HealthyWorkerCountByAgent r = healthy_agent_counts (registered r) []"

definition GetAgents :: "Router \<Rightarrow> AgentInfo list" where
  "GetAgents r = map snd (agents r)"

record AgentSnapshot =
  as_AgentID :: string
  as_Host :: string
  as_Port :: int
  as_WorkerCount :: int
  as_AddedAt :: time

definition AgentsSnapshot :: "Router \<Rightarrow> AgentSnapshot list" where
  "AgentsSnapshot r =
     (let workerCounts = WorkerCountByAgent r
      in map (\<lambda>a. \<lparr>as_AgentID = ai_AgentID a, as_Host = ai_Host a, as_Port = ai_Port a,
           as_WorkerCount = lookup0 workerCounts (ai_AgentID a), as_AddedAt = ai_AddedAt a\<rparr>)
         (GetAgents r))"

definition AddInFlight :: "time \<Rightarrow> string \<Rightarrow> string \<Rightarrow> Router \<Rightarrow> Router" where
  "AddInFlight now requestID workerAddr r = r\<lparr>inflight := Add now requestID workerAddr (inflight r)\<rparr>"

definition RemoveInFlight :: "time \<Rightarrow> string \<Rightarrow> Router \<Rightarrow> Router" where
  "RemoveInFlight now requestID r = r\<lparr>inflight := Remove now requestID (inflight r)\<rparr>"

definition InFlightCount :: "Router \<Rightarrow> int" where
  "InFlightCount r = int (Count (inflight r))"

definition InFlightForWorker :: "string \<Rightarrow> Router \<Rightarrow> int" where
  "InFlightForWorker workerAddr r =
     int (length (filter (\<lambda>f. if_Worker f = workerAddr) (GetAll (inflight r))))"

section \<open>Adding and removing workers\<close>

definition AddWorker :: "(nat \<Rightarrow> string option) \<Rightarrow> string \<Rightarrow> Router \<Rightarrow> go_error option \<times> Router" where
  "AddWorker dial addr r =
     (let i = ''worker-'' @ addr in
      if map_of (workers r) i \<noteq> None then (Some (Errorf (''worker already exists: '' @ i)), r)
      else case NewWorker dial i addr of
          Inl err \<Rightarrow> (Some (Errorf err), r)
        | Inr w \<Rightarrow> let (p, r) = alloc w r in (None, r\<lparr>workers := AList.update i p (workers r)\<rparr>))"

definition RemoveWorker :: "string option \<Rightarrow> string \<Rightarrow> Router \<Rightarrow>
    go_error option \<times> Router \<times> goroutine list" where
  "RemoveWorker close_err i r =
     (case map_of (workers r) i of
        None \<Rightarrow> (Some ErrWorkerNotFound, r, [])
      | Some p \<Rightarrow>
          let r = r\<lparr>workers := AList.delete i (workers r)\<rparr>;
              (closeErr, w) = Close close_err (deref r p);
              r = modify p (\<lambda>_. w) r
          in (map_option Errorf closeErr, r,
              if w_agentID w \<noteq> '''' then [GoDestroyWorker (w_id w) (w_agentID w)] else []))"

text \<open>\<open>RemoveIdleDraining\<close> first collects ids under the read lock, then removes them one by one.\<close>

definition idle_draining_ids :: "Router \<Rightarrow> string list" where
  "idle_draining_ids r = map w_id
     (filter (\<lambda>w. lifecycle w = StateDraining \<and> activeRequests w = 0) (registered r))"

fun remove_all :: "(string \<Rightarrow> string option) \<Rightarrow> string list \<Rightarrow> Router \<Rightarrow> goroutine list \<Rightarrow>
    Router \<times> goroutine list" where
  "remove_all ce [] r gs = (r, gs)"
| "remove_all ce (i # is) r gs =
     (let (_, r, g) = RemoveWorker (ce i) i r in remove_all ce is r (gs @ g))"

definition RemoveIdleDraining :: "(string \<Rightarrow> string option) \<Rightarrow> Router \<Rightarrow> Router \<times> goroutine list" where
  "RemoveIdleDraining ce r = remove_all ce (idle_draining_ids r) r []"

section \<open>Startup statistics\<close>

definition RecordStartupDuration :: "duration \<Rightarrow> Router \<Rightarrow> Router" where
  "RecordStartupDuration d r =
     (let ds = startupDurations r @ [d]
      in r\<lparr>startupDurations := (if 200 < length ds then drop (length ds - 200) ds else ds)\<rparr>)"

definition RecordStartupFailure :: "Router \<Rightarrow> Router" where
  "RecordStartupFailure r = r\<lparr>startupFailures := startupFailures r + 1\<rparr>"

record StartupStats =
  AvgDuration :: duration
  P95Duration :: duration
  FailedStartups :: int
  TotalStartups :: int

definition sortFloat64s :: "float64 list \<Rightarrow> float64 list" where
  "sortFloat64s a = insertion_sort (\<lambda>x. x) a"

fun sum_seconds :: "duration list \<Rightarrow> float64 \<Rightarrow> float64" where
  "sum_seconds [] acc = acc"
| "sum_seconds (d # ds) acc = sum_seconds ds (fadd acc (Seconds d))"

definition GetStartupStats :: "Router \<Rightarrow> StartupStats" where
  "GetStartupStats r =
     (let stats = \<lparr>AvgDuration = 0, P95Duration = 0, FailedStartups = startupFailures r,
            TotalStartups = int (length (startupDurations r)) + startupFailures r\<rparr>;
          n = int (length (startupDurations r))
      in if n = 0 then stats
      else
        let sum = sum_seconds (startupDurations r) 0;
            stats = stats\<lparr>AvgDuration := int_of_float (fdiv sum (float_of_int n)) * second\<rparr>;
            sorted = sortFloat64s (map Seconds (startupDurations r));
            p95Idx = int_of_float (fmul (float_of_int n) (fl (95/100)));
            p95Idx = (if n \<le> p95Idx then n - 1 else p95Idx)
        in stats\<lparr>P95Duration := int_of_float (sorted ! nat p95Idx) * second\<rparr>)"

end
