(* ===== verification/Registry.thy ===== *)
theory Registry
  imports Router
begin

text \<open>
  The invariant of the router's state and what its registry operations promise: the registries are
  maps (interpretations of \<open>put_store\<close> and \<open>keyed_store\<close>), the counts count, and the clean-up removes
  exactly the idle draining workers.
\<close>

definition wf_router :: "Router \<Rightarrow> bool" where
  "wf_router r \<longleftrightarrow> keys_distinct (workers r) \<and>
     (\<forall>(k, p) \<in> set (workers r). p < length (heap r) \<and> w_id (heap r ! p) = k) \<and>
     (\<forall>w \<in> set (heap r). worker_ok w) \<and>
     keys_distinct (agents r) \<and> (\<forall>(k, a) \<in> set (agents r). ai_AgentID a = k) \<and>
     wf_inflight (inflight r) \<and> length (startupDurations r) \<le> 200"

definition worker_of :: "Router \<Rightarrow> string \<rightharpoonup> Worker" where
  "worker_of r k = map_option (deref r) (map_of (workers r) k)"

definition agent_of :: "Router \<Rightarrow> string \<rightharpoonup> AgentInfo" where
  "agent_of r = map_of (agents r)"

text \<open>What every caller of \<open>AddWorkerWithInstance\<close> does: register a worker it has just allocated.\<close>

definition add_fresh :: "Worker \<Rightarrow> Router \<Rightarrow> Router" where
  "add_fresh w r = (let (p, r) = alloc w r in AddWorkerWithInstance p r)"

definition drop_worker :: "(string \<Rightarrow> string option) \<Rightarrow> string \<Rightarrow> Router \<Rightarrow> Router" where
  "drop_worker ce k r = fst (snd (RemoveWorker (ce k) k r))"

section \<open>Pointers of a well-formed router\<close>

lemma wf_pointer:
  "wf_router r \<Longrightarrow> map_of (workers r) k = Some p \<Longrightarrow> p < length (heap r) \<and> w_id (deref r p) = k"
  by (auto simp: wf_router_def deref_def dest!: map_of_SomeD)

lemma wf_pointer_inj:
  "wf_router r \<Longrightarrow> map_of (workers r) k = Some p \<Longrightarrow> map_of (workers r) k' = Some p \<Longrightarrow> k = k'"
  using wf_pointer by metis

lemma wf_worker_ok: "wf_router r \<Longrightarrow> p < length (heap r) \<Longrightarrow> worker_ok (deref r p)"
  by (simp add: wf_router_def deref_def)

lemma wf_registered: "wf_router r \<Longrightarrow> w \<in> set (registered r) \<Longrightarrow> worker_ok w"
  by (auto simp: registered_def wf_router_def deref_def)

lemma wf_NewRouter [wf_intros]: "wf_router NewRouter"
  by (simp add: wf_router_def NewRouter_def wf_NewInFlightStore)

lemma modify_fields [simp]:
  "workers (modify p f r) = workers r" "agents (modify p f r) = agents r"
  "inflight (modify p f r) = inflight r" "strategy (modify p f r) = strategy r"
  "rrCounter (modify p f r) = rrCounter r" "length (heap (modify p f r)) = length (heap r)"
  "has_autoscaler (modify p f r) = has_autoscaler r"
  by (simp_all add: modify_def)

lemma deref_modify:
  "p < length (heap r) \<Longrightarrow> deref (modify p f r) q = (if q = p then f (deref r p) else deref r q)"
  by (simp add: modify_def deref_def nth_list_update)

lemma wf_modify [wf_intros]:
  assumes "wf_router r" and "worker_ok (f (deref r p))" and "w_id (f (deref r p)) = w_id (deref r p)"
  shows "wf_router (modify p f r)"
proof (cases "p < length (heap r)")
  case True
  with assms show ?thesis
    using set_update_subset_insert [of "heap r" p "f (heap r ! p)"]
    by (fastforce simp: wf_router_def modify_def deref_def nth_list_update)
next
  case False
  with assms(1) show ?thesis by (simp add: modify_def list_update_beyond)
qed

lemma worker_of_modify:
  assumes "wf_router r" and "map_of (workers r) k = Some p"
  shows "worker_of (modify p f r) = (worker_of r)(k \<mapsto> f (deref r p))"
proof
  fix k'
  from wf_pointer [OF assms] have "p < length (heap r)" by simp
  then show "worker_of (modify p f r) k' = ((worker_of r)(k \<mapsto> f (deref r p))) k'"
    using assms wf_pointer_inj [OF assms(1) _ assms(2), of k']
    by (cases "map_of (workers r) k'") (auto simp: worker_of_def deref_modify)
qed

section \<open>The registries are maps\<close>

lemma wf_add_fresh [wf_intros]: "wf_router r \<Longrightarrow> worker_ok w \<Longrightarrow> wf_router (add_fresh w r)"
  using set_update_subset [of "w_id w" "length (heap r)" "workers r"]
  by (fastforce simp: wf_router_def add_fresh_def alloc_def AddWorkerWithInstance_def deref_def
      nth_append distinct_update)

lemma worker_of_add_fresh [view_simps]:
  assumes "wf_router r"
  shows "worker_of (add_fresh w r) = (worker_of r)(w_id w \<mapsto> w)"
proof
  fix k
  show "worker_of (add_fresh w r) k = ((worker_of r)(w_id w \<mapsto> w)) k"
    using wf_pointer [OF assms, of k]
    by (cases "map_of (workers r) k")
      (auto simp: worker_of_def add_fresh_def alloc_def AddWorkerWithInstance_def deref_def nth_append)
qed

lemma RemoveWorker_absent: "worker_of r k = None \<Longrightarrow> RemoveWorker e k r = (Some ErrWorkerNotFound, r, [])"
  by (simp add: worker_of_def RemoveWorker_def)

lemma wf_drop_worker [wf_intros]:
  assumes "wf_router r"
  shows "wf_router (drop_worker ce k r)"
proof (cases "map_of (workers r) k")
  case None
  then show ?thesis by (simp add: drop_worker_def RemoveWorker_def assms)
next
  case (Some p)
  let ?r = "r\<lparr>workers := AList.delete k (workers r)\<rparr>"
  have d: "deref ?r p = deref r p" by (simp add: deref_def)
  have "wf_router ?r"
    using assms set_delete_subset [of k "workers r"] by (auto simp: wf_router_def distinct_delete)
  moreover have "worker_ok (snd (Close (ce k) (deref r p)))"
    using wf_worker_ok [OF assms] wf_pointer [OF assms Some] by (simp add: worker_ok_ops)
  ultimately have "wf_router (modify p (\<lambda>_. snd (Close (ce k) (deref r p))) ?r)"
    by (intro wf_modify) (simp_all add: d)
  then show ?thesis
    by (simp add: drop_worker_def RemoveWorker_def Some Let_def split_beta d)
qed

lemma worker_of_drop_worker [view_simps]:
  assumes "wf_router r"
  shows "worker_of (drop_worker ce k r) = (worker_of r)(k := None)"
proof (cases "map_of (workers r) k")
  case None
  then show ?thesis by (auto simp: drop_worker_def RemoveWorker_def worker_of_def)
next
  case (Some p)
  show ?thesis
  proof
    fix k'
    have "p < length (heap r)" using wf_pointer [OF assms Some] by simp
    then show "worker_of (drop_worker ce k r) k' = ((worker_of r)(k := None)) k'"
      using Some wf_pointer_inj [OF assms _ Some, of k']
      by (cases "map_of (workers r) k'")
        (auto simp: drop_worker_def RemoveWorker_def worker_of_def Let_def split_beta modify_def
          deref_def nth_list_update)
  qed
qed

interpretation worker_registry:
  keyed_store add_fresh worker_of w_id wf_router worker_ok "drop_worker ce"
  for ce
proof unfold_locales
  show "w_id w = k" if "wf_router r" "worker_of r k = Some w" for r k w
    using that wf_pointer by (auto simp: worker_of_def)
qed (simp_all add: wf_intros view_simps)

lemma agent_of_RegisterAgent [view_simps]:
  "agent_of (RegisterAgent a r) = (agent_of r)(ai_AgentID a \<mapsto> a)"
  by (simp add: agent_of_def RegisterAgent_def)

lemma wf_RegisterAgent [wf_intros]: "wf_router r \<Longrightarrow> wf_router (RegisterAgent a r)"
  using set_update_subset [of "ai_AgentID a" a "agents r"]
  by (fastforce simp: wf_router_def RegisterAgent_def distinct_update)

interpretation agent_registry:
  put_store RegisterAgent agent_of ai_AgentID wf_router "\<lambda>_. True"
proof unfold_locales
  show "ai_AgentID a = k" if "wf_router r" "agent_of r k = Some a" for r k a
    using that by (auto simp: wf_router_def agent_of_def dest!: map_of_SomeD)
qed (simp_all add: wf_intros view_simps)

section \<open>Removing\<close>

lemma RemoveWorker_present:
  assumes "wf_router r" and "worker_of r k = Some w"
  shows "\<exists>p. map_of (workers r) k = Some p \<and> deref r p = w \<and> w_id w = k \<and>
    RemoveWorker e k r =
      (if w_conn w = NilConn then None else map_option Errorf e,
       modify p (\<lambda>_. snd (Close e w)) (r\<lparr>workers := AList.delete k (workers r)\<rparr>),
       if w_agentID w \<noteq> '''' then [GoDestroyWorker k (w_agentID w)] else [])"
proof -
  from assms(2) obtain p where p: "map_of (workers r) k = Some p" "deref r p = w"
    by (auto simp: worker_of_def)
  moreover have "w_id w = k" using wf_pointer [OF assms(1) p(1)] p(2) by simp
  moreover have "w_agentID (snd (Close e w)) = w_agentID w" by (simp add: Close_def)
  moreover have "deref (r\<lparr>workers := ws\<rparr>) p = deref r p" for ws by (simp add: deref_def)
  ultimately show ?thesis
    by (intro exI [of _ p]) (simp add: RemoveWorker_def Let_def split_beta, simp add: Close_def)
qed

text \<open>Removing a worker by id fails without effect when the id is unknown. Otherwise the id is free
  afterwards and every other registration is unchanged, the worker's connection is closed, and the
  agent that hosts it is told to destroy it exactly when the worker has one.\<close>

theorem RemoveWorker_outcome:
  assumes "wf_router r"
  shows "(case worker_of r k of
      None \<Rightarrow> RemoveWorker e k r = (Some ErrWorkerNotFound, r, [])
    | Some w \<Rightarrow> (\<exists>err r' gs. RemoveWorker e k r = (err, r', gs) \<and> wf_router r' \<and>
        worker_of r' = (worker_of r)(k := None) \<and>
        err = (if w_conn w = NilConn then None else map_option Errorf e) \<and>
        gs = (if w_agentID w = '''' then [] else [GoDestroyWorker k (w_agentID w)]) \<and>
        (\<exists>p. map_of (workers r) k = Some p \<and> w_conn (deref r' p) \<noteq> OpenConn)))"
proof (cases "worker_of r k")
  case None
  then show ?thesis by (simp add: RemoveWorker_absent)
next
  case (Some w)
  let ?R = "RemoveWorker e k r"
  obtain p where p: "map_of (workers r) k = Some p" "deref r p = w"
    and R: "?R = (if w_conn w = NilConn then None else map_option Errorf e,
       modify p (\<lambda>_. snd (Close e w)) (r\<lparr>workers := AList.delete k (workers r)\<rparr>),
       if w_agentID w \<noteq> '''' then [GoDestroyWorker k (w_agentID w)] else [])"
    using RemoveWorker_present [OF assms Some] by blast
  have "fst (snd ?R) = drop_worker (\<lambda>_. e) k r" by (simp add: drop_worker_def)
  moreover have "w_conn (deref (fst (snd ?R)) p) \<noteq> OpenConn"
    using wf_pointer [OF assms p(1)] p(2)
    by (auto simp: R modify_def deref_def Close_def nth_list_update)
  ultimately show ?thesis
    using R p worker_registry.look_del [OF assms, of "\<lambda>_. e" k]
      worker_registry.inv_del [OF assms, of "\<lambda>_. e" k] by (simp add: Some)
qed

text \<open>The clean-up of draining workers.\<close>

lemma remove_all_state:
  "fst (remove_all ce is r gs) = fold (drop_worker ce) is r"
  by (induction "is" arbitrary: r gs) (simp_all add: drop_worker_def split_beta Let_def)

lemma fold_drop_worker:
  "wf_router r \<Longrightarrow> worker_of (fold (drop_worker ce) is r) = worker_of r |` (- set is) \<and>
     wf_router (fold (drop_worker ce) is r)"
  by (induction "is" arbitrary: r)
    (auto simp: worker_registry.look_del worker_registry.inv_del fun_eq_iff restrict_map_def)

lemma idle_draining_ids_iff:
  assumes "wf_router r"
  shows "k \<in> set (idle_draining_ids r) \<longleftrightarrow>
    (\<exists>w. worker_of r k = Some w \<and> lifecycle w = StateDraining \<and> activeRequests w = 0)"
proof -
  have "worker_of r k = Some w \<longleftrightarrow> (\<exists>p. (k, p) \<in> set (workers r) \<and> deref r p = w)" for w
    using assms by (auto simp: worker_of_def wf_router_def)
  moreover have "w_id (deref r p) = k'" if "(k', p) \<in> set (workers r)" for k' p
    using assms that by (auto simp: wf_router_def deref_def)
  ultimately show ?thesis by (force simp: idle_draining_ids_def registered_def)
qed

text \<open>The periodic clean-up removes exactly the workers that are draining and serve no request, and
  leaves every other registration untouched.\<close>

lemma RemoveIdleDraining_exact:
  assumes "wf_router r"
  shows "worker_of (fst (RemoveIdleDraining ce r)) =
    (\<lambda>k. case worker_of r k of None \<Rightarrow> None
       | Some w \<Rightarrow> if lifecycle w = StateDraining \<and> activeRequests w = 0 then None else Some w) \<and>
    wf_router (fst (RemoveIdleDraining ce r))"
  using fold_drop_worker [OF assms, of ce "idle_draining_ids r"] idle_draining_ids_iff [OF assms]
  by (auto simp: RemoveIdleDraining_def remove_all_state fun_eq_iff restrict_map_def split: option.split)

section \<open>Request counters\<close>

text \<open>What every operation but sending a request and the choice of a strategy keeps: the strategy, the requests
  in flight, and of the workers that none disappears, that its counter of requests and whether it has a connection stay, and
  that a new one serves no request.\<close>

definition keeps_load :: "Router \<Rightarrow> Router \<Rightarrow> bool" where
  "keeps_load r r' \<longleftrightarrow> strategy r' = strategy r \<and> inflight r' = inflight r \<and> length (heap r) \<le> length (heap r') \<and>
     (\<forall>p < length (heap r'). if p < length (heap r)
        then activeRequests (deref r' p) = activeRequests (deref r p) \<and>
          (w_conn (deref r' p) = NilConn \<longleftrightarrow> w_conn (deref r p) = NilConn)
        else activeRequests (deref r' p) = 0)"

lemma keeps_load_same: "heap r' = heap r \<Longrightarrow> strategy r' = strategy r \<Longrightarrow> inflight r' = inflight r \<Longrightarrow> keeps_load r r'"
  by (simp add: keeps_load_def deref_def)

lemma keeps_load_trans [trans]: "keeps_load r s \<Longrightarrow> keeps_load s t \<Longrightarrow> keeps_load r t"
  unfolding keeps_load_def by (smt (verit) order_less_le_trans order_trans)

lemma keeps_load_add_fresh: "activeRequests w = 0 \<Longrightarrow> keeps_load r (add_fresh w r)"
  by (auto simp: keeps_load_def add_fresh_def alloc_def AddWorkerWithInstance_def deref_def nth_append)

lemma keeps_load_modify:
  assumes "activeRequests (f (deref r p)) = activeRequests (deref r p)"
    and "w_conn (f (deref r p)) = NilConn \<longleftrightarrow> w_conn (deref r p) = NilConn"
  shows "keeps_load r (modify p f r)"
proof (cases "p < length (heap r)")
  case True
  then show ?thesis using assms by (simp add: keeps_load_def deref_modify)
next
  case False
  then show ?thesis by (simp add: modify_def list_update_beyond keeps_load_same)
qed

lemma strategy_add_fresh [simp]: "strategy (add_fresh w r) = strategy r"
  by (simp add: add_fresh_def alloc_def AddWorkerWithInstance_def)

lemma Close_load: "activeRequests (snd (Close e w)) = activeRequests w"
  "w_conn (snd (Close e w)) = NilConn \<longleftrightarrow> w_conn w = NilConn"
  by (simp_all add: Close_def)

lemma keeps_load_drop_worker: "keeps_load r (drop_worker ce k r)"
proof (cases "map_of (workers r) k")
  case None
  then show ?thesis by (simp add: drop_worker_def RemoveWorker_def keeps_load_same)
next
  case (Some p)
  let ?r = "r\<lparr>workers := AList.delete k (workers r)\<rparr>"
  have "deref ?r p = deref r p" by (simp add: deref_def)
  then have "keeps_load ?r (modify p (\<lambda>_. snd (Close (ce k) (deref r p))) ?r)"
    by (intro keeps_load_modify) (simp_all add: Close_load)
  moreover have "keeps_load r ?r" by (simp add: keeps_load_same)
  moreover have "drop_worker ce k r = modify p (\<lambda>_. snd (Close (ce k) (deref r p))) ?r"
    using \<open>deref ?r p = deref r p\<close> by (simp add: drop_worker_def RemoveWorker_def Some Let_def split_beta)
  ultimately show ?thesis using keeps_load_trans by metis
qed

lemma keeps_load_RemoveIdleDraining: "keeps_load r (fst (RemoveIdleDraining ce r))"
proof -
  have "keeps_load s (fold (drop_worker ce) is s)" for "is" s
    by (induction "is" arbitrary: s) (auto intro: keeps_load_same keeps_load_trans keeps_load_drop_worker)
  then show ?thesis by (simp add: RemoveIdleDraining_def remove_all_state)
qed

text \<open>A small cluster for the examples: an idle draining worker and a healthy one with \<open>n\<close> requests.\<close>

definition example_worker :: "string \<Rightarrow> LifecycleState \<Rightarrow> int \<Rightarrow> Worker" where
  "example_worker i ls n = \<lparr>w_id = i, w_addr = ''10.0.0.1:50051'', activeRequests = n, displayActive = 0,
     lifecycle = ls, w_status = ToWorkerStatus ls, w_agentID = ''agent'', w_conn = OpenConn\<rparr>"

definition example_router :: "int \<Rightarrow> Router" where
  "example_router n = NewRouter\<lparr>heap := [example_worker ''a'' StateDraining 0, example_worker ''b'' StateHealthy n,
       example_worker ''c'' StateHealthy 0],
     workers := [(''a'', 0), (''b'', 1), (''c'', 2)]\<rparr>"

lemma wf_example: "0 \<le> n \<Longrightarrow> wf_router (example_router n)"
  by (simp add: wf_router_def example_router_def example_worker_def NewRouter_def worker_ok_def
      wf_NewInFlightStore)

lemma worker_of_example:
  "worker_of (example_router n) = [''a'' \<mapsto> example_worker ''a'' StateDraining 0,
     ''b'' \<mapsto> example_worker ''b'' StateHealthy n, ''c'' \<mapsto> example_worker ''c'' StateHealthy 0]"
  by (auto simp: worker_of_def example_router_def deref_def fun_eq_iff NewRouter_def)

theorem RemoveWorker_outcome_witness:
  "RemoveWorker None ''z'' (example_router 1) = (Some ErrWorkerNotFound, example_router 1, []) \<and>
   (\<exists>r'. RemoveWorker None ''b'' (example_router 1) = (None, r', [GoDestroyWorker ''b'' ''agent'']) \<and>
     worker_of r' ''b'' = None \<and> worker_of r' ''c'' = Some (example_worker ''c'' StateHealthy 0))"
  using RemoveWorker_outcome [OF wf_example [of 1], where k = "''z''" and e = None]
    RemoveWorker_outcome [OF wf_example [of 1], where k = "''b''" and e = None]
  by (auto simp: worker_of_example) (auto simp: example_worker_def)

lemma RemoveIdleDraining_example:
  "worker_of (fst (RemoveIdleDraining (\<lambda>_. None) (example_router 1))) =
     [''b'' \<mapsto> example_worker ''b'' StateHealthy 1, ''c'' \<mapsto> example_worker ''c'' StateHealthy 0]"
  using RemoveIdleDraining_exact [OF wf_example [of 1], of "\<lambda>_. None"]
  by (auto simp: worker_of_example fun_eq_iff) (auto simp: example_worker_def)

section \<open>Counting\<close>

lemma count_healthy_eq: "count_healthy ws = int (length (filter isRoutable ws))"
  by (induction ws) (simp_all add: isRoutable_def)

lemma lookup0_incr: "lookup0 (incr k m) a = lookup0 m a + (if a = k then 1 else 0)"
  by (simp add: lookup0_def incr_def)

lemma lookup0_agent_counts:
  "a \<noteq> '''' \<Longrightarrow> lookup0 (agent_counts ws m) a = lookup0 m a + int (length (filter (\<lambda>w. w_agentID w = a) ws))"
  by (induction ws m rule: agent_counts.induct) (auto simp: lookup0_incr)

lemma lookup0_healthy_agent_counts:
  "a \<noteq> '''' \<Longrightarrow> lookup0 (healthy_agent_counts ws m) a =
     lookup0 m a + int (length (filter (\<lambda>w. w_agentID w = a \<and> isRoutable w) ws))"
  by (induction ws m rule: healthy_agent_counts.induct) (auto simp: lookup0_incr isRoutable_def)

lemma WorkerCountByAgent_eq:
  "a \<noteq> '''' \<Longrightarrow> lookup0 (WorkerCountByAgent r) a =
     int (length (filter (\<lambda>w. w_agentID w = a) (registered r)))"
  by (simp add: WorkerCountByAgent_def lookup0_agent_counts) (simp add: lookup0_def)

lemma HealthyWorkerCountByAgent_eq:
  "a \<noteq> '''' \<Longrightarrow> lookup0 (HealthyWorkerCountByAgent r) a =
     int (length (filter (\<lambda>w. w_agentID w = a \<and> isRoutable w) (registered r)))"
  by (simp add: HealthyWorkerCountByAgent_def lookup0_healthy_agent_counts) (simp add: lookup0_def)

lemma HealthyWorkerCountByAgent_zero:
  "a \<noteq> '''' \<Longrightarrow> lookup0 (HealthyWorkerCountByAgent r) a = 0 \<longleftrightarrow>
     (\<forall>w \<in> set (registered r). isRoutable w \<longrightarrow> w_agentID w \<noteq> a)"
  by (auto simp: HealthyWorkerCountByAgent_eq filter_empty_conv)

lemma HealthyWorkerCount_eq: "HealthyWorkerCount r = int (length (filter isRoutable (registered r)))"
  by (simp add: HealthyWorkerCount_def count_healthy_eq)

lemma WorkerCount_eq: "WorkerCount r = int (length (registered r))"
  by (simp add: WorkerCount_def registered_def)

lemma HealthyWorkerCount_bounds: "0 \<le> HealthyWorkerCount r \<and> HealthyWorkerCount r \<le> WorkerCount r"
  by (simp add: HealthyWorkerCount_eq WorkerCount_eq)

lemma registered_iff:
  assumes "wf_router r"
  shows "w \<in> set (registered r) \<longleftrightarrow> (\<exists>k. worker_of r k = Some w)"
  using assms by (force simp: registered_def worker_of_def wf_router_def)

section \<open>Startup statistics\<close>

interpretation startup_log: sliding_log RecordStartupDuration startupDurations "\<lambda>_. True" 200 200
  by unfold_locales (simp_all add: RecordStartupDuration_def push_trim_def lastn_def Let_def)

lemma sortFloat64s_eq: "sortFloat64s a = sort a"
  by (simp add: sortFloat64s_def insertion_sort_eq)

text \<open>The 95th-percentile index stays inside the slice, whatever the rounding of the product.\<close>

lemma p95_index:
  assumes "0 < n" and "n < 2 ^ 53"
  shows "0 \<le> int_of_float (fmul (float_of_int n) (fl (95/100))) \<and>
    int_of_float (fmul (float_of_int n) (fl (95/100))) \<le> n"
proof -
  have f: "0 \<le> fl (95/100)" "fl (95/100) \<le> 1" by (auto intro: fl_nonneg fl_le_1)
  have "of_int n * fl (95/100) \<le> of_int n" using assms f by (simp add: mult_left_le)
  then have "fmul (of_int n) (fl (95/100)) \<le> of_int n" "0 \<le> fmul (of_int n) (fl (95/100))"
    using assms f by (auto simp: fmul_def intro: fl_le fl_nonneg)
  then have "int_of_float (fmul (of_int n) (fl (95/100))) \<le> n"
    "0 \<le> int_of_float (fmul (of_int n) (fl (95/100)))"
    by (metis int_of_float_mono int_of_float_of_int, metis int_of_float_nonneg)
  then show ?thesis using assms by simp
qed

text \<open>A duration read as seconds keeps its whole seconds.\<close>

lemma Seconds_whole:
  assumes "0 \<le> d" and "d < 2 ^ 20 * second"
  shows "int_of_float (Seconds d) = d div second"
proof -
  define s n where "s = d div second" and "n = d mod second"
  have quot: "d sdiv second = s" "d smod second = n"
    using assms by (simp_all add: s_def n_def signed_divide_int_def signed_modulo_int_def second_def
        sgn_if minus_div_mult_eq_mod)
  have s: "0 \<le> s" "s < 2 ^ 20" and n: "0 \<le> n" "n \<le> 999999999"
    using assms by (auto simp: s_def n_def second_def)
  let ?x = "fdiv (of_int n) 1000000000 :: rat"
  have "of_int n / 1000000000 \<le> (999999999 / 1000000000 :: rat)"
    using n by (simp add: divide_right_mono)
  moreover have "fl (999999999 / 1000000000) \<le> 999999999 / 1000000000 + 1 / 2 ^ 53"
    using fl_error [of "999999999 / 1000000000", THEN abs_le_D1] by simp
  ultimately have x: "0 \<le> ?x" "?x \<le> 999999999 / 1000000000 + 1 / 2 ^ 53"
    using n fl_mono [of "of_int n / 1000000000" "999999999 / 1000000000"]
    by (auto simp: fdiv_def fl_nonneg)
  let ?y = "of_int s + ?x"
  have y: "of_int s \<le> ?y" "?y \<le> of_int s + 999999999 / 1000000000 + 1 / 2 ^ 53" "?y \<le> 2 ^ 20"
    using x s of_int_le_iff [of s "2 ^ 20 - 1", where 'a = rat] by auto
  have "\<bar>?y\<bar> / 2 ^ 53 \<le> 2 ^ 20 / 2 ^ 53" using y s x by (intro divide_right_mono) auto
  then have "fl ?y \<le> ?y + 2 ^ 20 / 2 ^ 53"
    using fl_error [of ?y] by (simp only: abs_le_iff) linarith
  then have "fl ?y < of_int s + 1" using y(2) by simp
  moreover have "of_int s \<le> fl ?y" using y(1) s by (intro fl_ge) auto
  ultimately have "int_of_float (fl ?y) = s"
    using s by (auto simp: int_of_float_def floor_eq_iff)
  then show ?thesis
    using s n by (simp add: Seconds_def quot fadd_def s_def)
qed

lemma Seconds_mono: 
  assumes "0 \<le> c" and "c \<le> d" and "d < 2 ^ 20 * second"
  shows "Seconds c \<le> Seconds d"
proof (cases "c div second = d div second")
  case True
  have pos: "e sdiv second = e div second" "e smod second = e mod second" if "0 \<le> e" for e
    using that by (simp_all add: signed_divide_int_def signed_modulo_int_def second_def
        sgn_if minus_div_mult_eq_mod)
  have "c mod second \<le> d mod second" using assms True by (metis minus_div_mult_eq_mod diff_right_mono)
  then have "fdiv (float_of_int (c mod second)) 1000000000 \<le> fdiv (float_of_int (d mod second)) 1000000000"
    by (simp add: fdiv_def fl_mono divide_right_mono float_of_int_mono)
  then show ?thesis using assms True by (simp add: Seconds_def pos fadd_def fl_mono)
next
  case False
  then have "c div second < d div second" using assms zdiv_mono1 [of c d second]
    by (auto simp: second_def)
  moreover have "int_of_float (Seconds c) = c div second" "int_of_float (Seconds d) = d div second"
    using assms by (auto intro: Seconds_whole)
  ultimately show ?thesis using int_of_float_mono [of "Seconds d" "Seconds c"] by linarith
qed

text \<open>The reported P95 startup time is that of the sample at the 95 % index of the sorted history, cut to
  whole seconds: a fleet of workers that all start within a second is reported with 0.\<close>

theorem startup_p95_truncated:
  assumes "wf_router r" and "startupDurations r \<noteq> []"
    and "\<forall>d \<in> set (startupDurations r). 0 \<le> d \<and> d < 2 ^ 20 * second"
  shows "\<exists>i < length (startupDurations r).
    P95Duration (GetStartupStats r) = (sort (startupDurations r) ! i) div second * second \<and>
    (int i = int_of_float (fmul (float_of_int (int (length (startupDurations r)))) (fl (95/100))) \<or>
     i = length (startupDurations r) - 1)"
proof -
  let ?ds = "startupDurations r"
  let ?n = "int (length ?ds)"
  let ?k = "int_of_float (fmul (float_of_int ?n) (fl (95/100)))"
  let ?i = "nat (if ?n \<le> ?k then ?n - 1 else ?k)"
  have n: "0 < ?n" "?n < 2 ^ 53" using assms by (auto simp: wf_router_def)
  then have i: "?i < length ?ds" "int ?i = ?k \<or> ?i = length ?ds - 1"
    using p95_index [OF n] by (auto simp: nat_less_iff nat_diff_distrib simp del: of_int_of_nat_eq)
  have "sorted (map Seconds (sort ?ds))"
    using assms(3) by (auto simp: sorted_map intro!: sorted_wrt_mono_rel [OF _ sorted_sort] Seconds_mono)
  then have "sortFloat64s (map Seconds ?ds) = map Seconds (sort ?ds)"
    by (simp add: sortFloat64s_eq) (metis mset_map mset_sort properties_for_sort)
  then have "P95Duration (GetStartupStats r) = int_of_float (Seconds (sort ?ds ! ?i)) * second"
    using n i by (simp add: GetStartupStats_def Let_def)
  moreover have "sort ?ds ! ?i \<in> set ?ds" using i by (metis length_sort nth_mem set_sort)
  ultimately show ?thesis using assms(3) i by (intro exI [of _ ?i]) (simp add: Seconds_whole)
qed

theorem startup_p95_truncated_witness:
  "P95Duration (GetStartupStats (NewRouter\<lparr>startupDurations := [999 * millisecond]\<rparr>)) = 0"
proof -
  let ?r = "NewRouter\<lparr>startupDurations := [999 * millisecond]\<rparr>"
  have "wf_router ?r" using wf_NewRouter by (simp add: wf_router_def)
  then show ?thesis
    using startup_p95_truncated [of ?r] by (simp add: time_units)
qed

text \<open>Registered and unregistered workers over a whole history.\<close>

text \<open>C1. Any sequence of registrations of fresh workers and removals by id acts on the registry as the same
  sequence of insertions and deletions acts on a map, and keeps the router well formed.\<close>

theorem registry_refines_map:
  assumes "wf_router r" and "\<forall>w. Put w \<in> set ops \<longrightarrow> worker_ok w"
  shows "worker_of (fold (run_op add_fresh (drop_worker ce)) ops r) = fold (spec_op w_id) ops (worker_of r) \<and>
    wf_router (fold (run_op add_fresh (drop_worker ce)) ops r)"
proof -
  have "valid_op worker_ok x" if "x \<in> set ops" for x
    by (rule store_op.exhaust [of x]) (use that assms(2) in auto)
  then have "list_all (valid_op worker_ok) ops" by (simp add: list_all_iff)
  then show ?thesis
    using worker_registry.refines_run [OF assms(1)] worker_registry.inv_run [OF assms(1)] by blast
qed

theorem registry_refines_map_witness:
  "worker_of (fold (run_op add_fresh (drop_worker (\<lambda>_. None)))
     [Put (NewStartingWorker ''w1'' ''h:1'' ''a''), Put (NewStartingWorker ''w2'' ''h:2'' ''a''), Del ''w1'']
     NewRouter) =
   Map.empty(''w2'' \<mapsto> NewStartingWorker ''w2'' ''h:2'' ''a'')"
  using registry_refines_map [OF wf_NewRouter, of
      "[Put (NewStartingWorker ''w1'' ''h:1'' ''a''), Put (NewStartingWorker ''w2'' ''h:2'' ''a''), Del ''w1'']"
      "\<lambda>_. None"]
  by (auto simp: worker_ok_new fun_eq_iff) (simp_all add: NewStartingWorker_def worker_of_def NewRouter_def)

end
