(* ===== verification/Metrics.thy ===== *)
theory Metrics
  imports Registry
begin

text \<open>
  The metrics layer of the autoscaler: \<open>master/lib/metrics.go\<close> (smoothed averages, rolling windows, the
  collector and its traffic trend). A slice index out of range panics, which is \<open>None\<close>; the theorems
  show that no window of positive size ever gets there.
\<close>

section \<open>Exponentially weighted moving average\<close>

record EWMA =
  alpha :: float64
  ewma_value :: float64
  ewma_set :: bool

definition NewEWMA :: "float64 \<Rightarrow> EWMA" where
  "NewEWMA a = \<lparr>alpha = a, ewma_value = 0, ewma_set = False\<rparr>"

definition EWMA_Add :: "float64 \<Rightarrow> EWMA \<Rightarrow> EWMA" where
  "EWMA_Add sample e =
     (if \<not> ewma_set e then e\<lparr>ewma_value := sample, ewma_set := True\<rparr>
      else e\<lparr>ewma_value := fadd (fmul (alpha e) sample) (fmul (fsub 1 (alpha e)) (ewma_value e))\<rparr>)"

definition EWMA_Value :: "EWMA \<Rightarrow> float64" where
  "EWMA_Value e = ewma_value e"

definition EWMA_Reset :: "EWMA \<Rightarrow> EWMA" where
  "EWMA_Reset e = e\<lparr>ewma_value := 0, ewma_set := False\<rparr>"

section \<open>Rolling window\<close>

record RollingWindow =
  rw_data :: "float64 list"
  rw_size :: int
  rw_pos :: int
  rw_full :: bool

definition NewRollingWindow :: "int \<Rightarrow> RollingWindow option" where
  "NewRollingWindow sz =
     (if sz < 0 then None
      else Some \<lparr>rw_data = replicate (nat sz) 0, rw_size = sz, rw_pos = 0, rw_full = False\<rparr>)"

definition RW_Add :: "float64 \<Rightarrow> RollingWindow \<Rightarrow> RollingWindow option" where
  "RW_Add v rw =
     (if rw_pos rw < 0 \<or> int (length (rw_data rw)) \<le> rw_pos rw then None
      else
        let rw = rw\<lparr>rw_data := (rw_data rw)[nat (rw_pos rw) := v]\<rparr>;
            rw = rw\<lparr>rw_pos := rw_pos rw + 1\<rparr>
        in Some (if rw_size rw \<le> rw_pos rw then rw\<lparr>rw_pos := 0, rw_full := True\<rparr> else rw))"

definition RW_Len :: "RollingWindow \<Rightarrow> int" where
  "RW_Len rw = (if rw_full rw then rw_size rw else rw_pos rw)"

text \<open>\<open>copy(dst[off:], src)\<close>\<close>

definition copy_at :: "nat \<Rightarrow> 'a list \<Rightarrow> 'a list \<Rightarrow> 'a list" where
  "copy_at off dst src =
     take off dst @ take (length dst - off) src @ drop (off + length src) dst"

definition RW_Values :: "RollingWindow \<Rightarrow> float64 list" where
  "RW_Values rw =
     (let n = RW_Len rw;
          out = replicate (nat n) 0
      in if rw_full rw
         then let out = copy_at 0 out (drop (nat (rw_pos rw)) (rw_data rw))
              in copy_at (nat (rw_size rw - rw_pos rw)) out (take (nat (rw_pos rw)) (rw_data rw))
         else copy_at 0 out (take (nat (rw_pos rw)) (rw_data rw)))"

definition go_index :: "'a list \<Rightarrow> int \<Rightarrow> 'a option" where
  "go_index xs i = (if 0 \<le> i \<and> i < int (length xs) then Some (xs ! nat i) else None)"

definition RW_Percentile :: "float64 \<Rightarrow> RollingWindow \<Rightarrow> float64 option" where
  "RW_Percentile p rw =
     (let vals = RW_Values rw;
          n = int (length vals)
      in if n = 0 then Some 0
      else
        let sorted = sortFloat64s vals;
            rank = fmul (fdiv p 100) (float_of_int (n - 1));
            lower = \<lfloor>rank\<rfloor>;
            upper = \<lceil>rank\<rceil>
        in if lower = upper \<or> n \<le> upper then go_index sorted lower
           else
             let frac = fsub rank (float_of_int lower) in
             case (go_index sorted lower, go_index sorted upper) of
               (Some a, Some b) \<Rightarrow> Some (fadd (fmul a (fsub 1 frac)) (fmul b frac))
             | _ \<Rightarrow> None)"

fun fsum :: "float64 list \<Rightarrow> float64 \<Rightarrow> float64" where
  "fsum [] acc = acc"
| "fsum (v # vs) acc = fsum vs (fadd acc v)"

definition RW_Avg :: "RollingWindow \<Rightarrow> float64" where
  "RW_Avg rw =
     (let vals = RW_Values rw
      in if length vals = 0 then 0 else fdiv (fsum vals 0) (float_of_int (int (length vals))))"

section \<open>The collector\<close>

record ClusterMetrics =
  QueueDepth :: float64
  P95Latency :: float64
  WorkerUtilization :: float64
  ErrorRate :: float64
  RequestsPerSec :: float64
  TotalWorkers :: int
  HealthyWorkers :: int
  m_InFlight :: int
  QueueSize :: int
  RPSTrend :: float64
  CollectedAt :: time

definition zero_metrics :: ClusterMetrics where
  "zero_metrics = \<lparr>QueueDepth = 0, P95Latency = 0, WorkerUtilization = 0, ErrorRate = 0,
     RequestsPerSec = 0, TotalWorkers = 0, HealthyWorkers = 0, m_InFlight = 0, QueueSize = 0,
     RPSTrend = 0, CollectedAt = zero_time\<rparr>"

record MetricsCollectorConfig =
  EWMAAlpha :: float64
  LatencyWindowSize :: int
  RPSWindowSize :: int
  CollectInterval :: duration
  MaxConcurrency :: int

definition DefaultMetricsCollectorConfig :: MetricsCollectorConfig where
  "DefaultMetricsCollectorConfig = \<lparr>EWMAAlpha = fl (3/10), LatencyWindowSize = 200,
     RPSWindowSize = 30, CollectInterval = 1 * second, MaxConcurrency = WorkerMaxConcurrency\<rparr>"

record MetricsCollector =
  mc_cfg :: MetricsCollectorConfig
  mc_snap :: ClusterMetrics
  queueEWMA :: EWMA
  latencyEWMA :: EWMA
  utilizationEWMA :: EWMA
  errorRateEWMA :: EWMA
  rpsEWMA :: EWMA
  latencyWindow :: RollingWindow
  rpsWindow :: RollingWindow
  totalRequests :: int
  totalErrors :: int
  prevRequests :: int
  prevErrors :: int
  prevTime :: time
  mc_queueSize :: int

definition NewMetricsCollector :: "time \<Rightarrow> MetricsCollectorConfig \<Rightarrow> MetricsCollector option" where
  "NewMetricsCollector now cfg =
     (case (NewRollingWindow (LatencyWindowSize cfg), NewRollingWindow (RPSWindowSize cfg)) of
        (Some lw, Some rw) \<Rightarrow> Some
          \<lparr>mc_cfg = cfg, mc_snap = zero_metrics, queueEWMA = NewEWMA (EWMAAlpha cfg),
           latencyEWMA = NewEWMA (EWMAAlpha cfg), utilizationEWMA = NewEWMA (EWMAAlpha cfg),
           errorRateEWMA = NewEWMA (EWMAAlpha cfg), rpsEWMA = NewEWMA (EWMAAlpha cfg),
           latencyWindow = lw, rpsWindow = rw, totalRequests = 0, totalErrors = 0, prevRequests = 0,
           prevErrors = 0, prevTime = now, mc_queueSize = 0\<rparr>
      | _ \<Rightarrow> None)"

definition RecordLatency :: "float64 \<Rightarrow> MetricsCollector \<Rightarrow> MetricsCollector option" where
  "RecordLatency seconds mc =
     (case RW_Add seconds (latencyWindow mc) of
        None \<Rightarrow> None
      | Some rw \<Rightarrow> Some (mc\<lparr>latencyWindow := rw, latencyEWMA := EWMA_Add seconds (latencyEWMA mc)\<rparr>))"

definition RecordRequest :: "MetricsCollector \<Rightarrow> MetricsCollector" where
  "RecordRequest mc = mc\<lparr>totalRequests := totalRequests mc + 1\<rparr>"

definition RecordError :: "MetricsCollector \<Rightarrow> MetricsCollector" where
  "RecordError mc = mc\<lparr>totalErrors := totalErrors mc + 1\<rparr>"

definition SetQueueSize :: "int \<Rightarrow> MetricsCollector \<Rightarrow> MetricsCollector" where
  "SetQueueSize sz mc = mc\<lparr>mc_queueSize := sz\<rparr>"

text \<open>The sums of the regression: \<open>(sumX, sumY, sumXY, sumX2)\<close>.\<close>

fun trend_loop :: "float64 list \<Rightarrow> int \<Rightarrow> float64 \<times> float64 \<times> float64 \<times> float64 \<Rightarrow>
    float64 \<times> float64 \<times> float64 \<times> float64" where
  "trend_loop [] i acc = acc"
| "trend_loop (y # ys) i (sumX, sumY, sumXY, sumX2) =
     (let x = float_of_int i in
      trend_loop ys (i + 1)
        (fadd sumX x, fadd sumY y, fadd sumXY (fmul x y), fadd sumX2 (fmul x x)))"

definition trend :: "float64 list \<Rightarrow> float64" where
  "trend vals =
     (let n = int (length vals) in
      if n < 3 then 0
      else
        let (sumX, sumY, sumXY, sumX2) = trend_loop vals 0 (0, 0, 0, 0);
            nf = float_of_int n;
            denom = fsub (fmul nf sumX2) (fmul sumX sumX)
        in if denom = 0 then 0
           else fdiv (fsub (fmul nf sumXY) (fmul sumX sumY)) denom)"

definition computeRPSTrend :: "MetricsCollector \<Rightarrow> float64" where
  "computeRPSTrend mc = trend (RW_Values (rpsWindow mc))"

text \<open>The loop over the registered workers: healthy workers and their requests.\<close>

fun count_load :: "Worker list \<Rightarrow> int \<Rightarrow> int \<Rightarrow> int \<times> int" where
  "count_load [] healthy active = (healthy, active)"
| "count_load (w # ws) healthy active =
     (if lifecycle w = StateHealthy then count_load ws (healthy + 1) (active + activeRequests w)
      else count_load ws healthy active)"

definition Collect :: "time \<Rightarrow> Router \<Rightarrow> MetricsCollector \<Rightarrow>
    (ClusterMetrics \<times> MetricsCollector) option" where
  "Collect now router mc =
     (let elapsed = Seconds (time_sub now (prevTime mc));
          elapsed = (if elapsed \<le> 0 then 1 else elapsed);
          deltaReqs = totalRequests mc - prevRequests mc;
          rps = fdiv (float_of_int deltaReqs) elapsed;
          mc = mc\<lparr>rpsEWMA := EWMA_Add rps (rpsEWMA mc)\<rparr>
      in case RW_Add rps (rpsWindow mc) of
        None \<Rightarrow> None
      | Some rw \<Rightarrow>
          let mc = mc\<lparr>rpsWindow := rw\<rparr>;
              deltaErrors = totalErrors mc - prevErrors mc;
              errRate = (if 0 < deltaReqs then fdiv (float_of_int deltaErrors) (float_of_int deltaReqs)
                         else 0);
              mc = mc\<lparr>errorRateEWMA := EWMA_Add errRate (errorRateEWMA mc)\<rparr>;
              mc = mc\<lparr>prevRequests := totalRequests mc, prevErrors := totalErrors mc, prevTime := now\<rparr>;
              mc = mc\<lparr>queueEWMA := EWMA_Add (float_of_int (mc_queueSize mc)) (queueEWMA mc)\<rparr>;
              total = int (length (workers router));
              (healthyWorkers, totalActive) = count_load (registered router) 0 0;
              utilization =
                (if 0 < healthyWorkers \<and> 0 < MaxConcurrency (mc_cfg mc)
                 then fdiv (float_of_int totalActive)
                        (float_of_int (wrap64 (healthyWorkers * MaxConcurrency (mc_cfg mc))))
                 else 0);
              mc = mc\<lparr>utilizationEWMA := EWMA_Add utilization (utilizationEWMA mc)\<rparr>
          in case RW_Percentile 95 (latencyWindow mc) of
               None \<Rightarrow> None
             | Some p95 \<Rightarrow>
                 let rpsTrend = computeRPSTrend mc;
                     snap = \<lparr>QueueDepth = EWMA_Value (queueEWMA mc), P95Latency = p95,
                       WorkerUtilization = EWMA_Value (utilizationEWMA mc),
                       ErrorRate = EWMA_Value (errorRateEWMA mc),
                       RequestsPerSec = EWMA_Value (rpsEWMA mc), TotalWorkers = total,
                       HealthyWorkers = healthyWorkers, m_InFlight = InFlightCount router,
                       QueueSize = mc_queueSize mc, RPSTrend = rpsTrend, CollectedAt = now\<rparr>
                 in Some (snap, mc\<lparr>mc_snap := snap\<rparr>))"

definition MC_Snapshot :: "MetricsCollector \<Rightarrow> ClusterMetrics" where
  "MC_Snapshot mc = mc_snap mc"

section \<open>Rolling windows hold the last samples\<close>

text \<open>The ring: until it is full the unused slots follow \<open>pos\<close>; then the oldest sample is at \<open>pos\<close>.\<close>

definition wf_window :: "nat \<Rightarrow> RollingWindow \<Rightarrow> bool" where
  "wf_window n rw \<longleftrightarrow> 0 < n \<and> rw_size rw = int n \<and> length (rw_data rw) = n \<and>
     0 \<le> rw_pos rw \<and> rw_pos rw < int n"

lemma wf_NewRollingWindow:
  "0 < n \<Longrightarrow> \<exists>rw. NewRollingWindow (int n) = Some rw \<and> wf_window n rw \<and> RW_Values rw = []"
  by (simp add: NewRollingWindow_def wf_window_def RW_Values_def RW_Len_def copy_at_def)

lemma RW_Values_eq:
  "wf_window n rw \<Longrightarrow> RW_Values rw =
     (if rw_full rw then drop (nat (rw_pos rw)) (rw_data rw) @ take (nat (rw_pos rw)) (rw_data rw)
      else take (nat (rw_pos rw)) (rw_data rw))"
  by (auto simp: wf_window_def RW_Values_def RW_Len_def copy_at_def Let_def nat_diff_distrib')

lemma length_RW_Values: "wf_window n rw \<Longrightarrow> int (length (RW_Values rw)) = RW_Len rw"
  by (auto simp: RW_Values_eq) (auto simp: wf_window_def RW_Len_def)

lemma RW_Add_wf:
  assumes "wf_window n rw"
  shows "\<exists>rw'. RW_Add v rw = Some rw' \<and> wf_window n rw' \<and>
    RW_Values rw' = push_trim n n v (RW_Values rw)"
proof -
  obtain p where p: "rw_pos rw = int p" "p < n"
    using assms by (auto simp: wf_window_def) (metis nat_0_le nat_less_iff zless_nat_conj zless_nat_eq_int_zless)
  have n: "rw_size rw = int n" "length (rw_data rw) = n" "0 < n" using assms by (auto simp: wf_window_def)
  define d where "d = (rw_data rw)[p := v]"
  define rw' where "rw' = (if int n \<le> int p + 1
    then rw\<lparr>rw_data := d, rw_pos := 0, rw_full := True\<rparr>
    else rw\<lparr>rw_data := d, rw_pos := int p + 1\<rparr>)"
  have add: "RW_Add v rw = Some rw'"
    using p n by (simp add: RW_Add_def Let_def rw'_def d_def)
  have wf: "wf_window n rw'" using p n by (auto simp: wf_window_def rw'_def d_def)
  have d: "take p d = take p (rw_data rw)" "drop (Suc p) d = drop (Suc p) (rw_data rw)"
    "take (Suc p) d = take p (rw_data rw) @ [v]" "length d = n"
    using p n by (simp_all add: d_def take_Suc_conv_app_nth)
  have dp: "drop p (rw_data rw) = rw_data rw ! p # drop (Suc p) (rw_data rw)"
    using p n by (simp add: Cons_nth_drop_Suc)
  have last: "take p (rw_data rw) @ [v] = d" if "Suc p = n" using d that by (metis order_refl take_all)
  have "RW_Values rw' = push_trim n n v (RW_Values rw)"
  proof (cases "Suc p = n")
    case True
    then have "RW_Values rw' = d" using p by (subst RW_Values_eq [OF wf]) (simp add: rw'_def)
    moreover have "drop p (rw_data rw) = [rw_data rw ! p]" using dp n True by simp
    ultimately show ?thesis
      using p n last [OF True] True by (simp add: RW_Values_eq [OF assms] push_trim_def lastn_def)
  next
    case False
    then have "RW_Values rw' = (if rw_full rw then drop (Suc p) d @ take (Suc p) d else take (Suc p) d)"
      using p by (subst RW_Values_eq [OF wf]) (simp add: rw'_def nat_add_distrib)
    then show ?thesis
      using p n d dp False by (simp add: RW_Values_eq [OF assms] push_trim_def lastn_def)
  qed
  with add wf show ?thesis by blast
qed

definition rw_push :: "float64 \<Rightarrow> RollingWindow \<Rightarrow> RollingWindow" where
  "rw_push v rw = the (RW_Add v rw)"

lemma rw_push:
  "wf_window n rw \<Longrightarrow> RW_Add v rw = Some (rw_push v rw) \<and> wf_window n (rw_push v rw) \<and>
     RW_Values (rw_push v rw) = push_trim n n v (RW_Values rw)"
  using RW_Add_wf [of n rw v] by (auto simp: rw_push_def)

interpretation rolling: sliding_log rw_push RW_Values "wf_window (Suc n)" "Suc n" "Suc n" for n
  by unfold_locales (simp_all add: rw_push)

fun add_samples :: "float64 list \<Rightarrow> RollingWindow \<Rightarrow> RollingWindow option" where
  "add_samples [] rw = Some rw"
| "add_samples (v # vs) rw = (case RW_Add v rw of None \<Rightarrow> None | Some rw \<Rightarrow> add_samples vs rw)"

lemma add_samples_fold: "wf_window n rw \<Longrightarrow> add_samples vs rw = Some (fold rw_push vs rw)"
  by (induction vs arbitrary: rw) (simp_all add: rw_push)

text \<open>A rolling window of positive size never panics, and after any number of samples holds exactly the
  last \<open>size\<close> of them, oldest first.\<close>

theorem rolling_window_last:
  assumes "0 < n" and "NewRollingWindow (int n) = Some rw"
  shows "\<exists>rw'. add_samples vs rw = Some rw' \<and> RW_Values rw' = lastn n vs \<and>
    RW_Len rw' = int (min n (length vs))"
proof -
  from assms obtain m where m: "n = Suc m" by (cases n) auto
  from wf_NewRollingWindow [OF assms(1)] assms have rw: "wf_window (Suc m) rw" "RW_Values rw = []"
    by (auto simp: m)
  let ?rw = "fold rw_push vs rw"
  have "RW_Values ?rw = lastn n vs" using rolling.view_run [OF rw(1), of vs] rw(2) by (simp add: m)
  then show ?thesis
    using add_samples_fold [OF rw(1)] length_RW_Values [OF rolling.inv_run [OF rw(1), of vs]] by simp
qed

theorem rolling_window_last_witness:
  "\<exists>rw. add_samples [1, 2, 3, 4, 5] \<lparr>rw_data = [0, 0, 0], rw_size = 3, rw_pos = 0, rw_full = False\<rparr> = Some rw \<and>
     RW_Values rw = [3, 4, 5]"
  using rolling_window_last [of 3 "\<lparr>rw_data = [0, 0, 0], rw_size = 3, rw_pos = 0, rw_full = False\<rparr>"
      "[1, 2, 3, 4, 5]"]
  by (auto simp: NewRollingWindow_def lastn_def numeral_3_eq_3)

section \<open>Percentiles\<close>

lemma float_of_int_floor: "\<bar>n\<bar> < 2 ^ 53 \<Longrightarrow> float_of_int n = of_int n"
  by simp

lemma percentile_rank:
  assumes "0 \<le> p" and "p \<le> 100" and "0 < n" and "n \<le> 2 ^ 53"
  shows "0 \<le> fmul (fdiv p 100) (float_of_int (n - 1)) \<and>
    fmul (fdiv p 100) (float_of_int (n - 1)) \<le> of_int (n - 1)"
proof -
  have q: "0 \<le> fdiv p 100" "fdiv p 100 \<le> 1"
    using assms by (auto simp: fdiv_def intro: fl_nonneg fl_le_1)
  then have "fdiv p 100 * of_int (n - 1) \<le> of_int (n - 1)" using assms by (simp add: mult_left_le_one_le)
  then have "fmul (fdiv p 100) (of_int (n - 1)) \<le> of_int (n - 1)"
    unfolding fmul_def using assms by (intro fl_le) auto
  moreover have "0 \<le> fmul (fdiv p 100) (of_int (n - 1))"
    unfolding fmul_def using q assms by (intro fl_nonneg) simp
  moreover have "float_of_int (n - 1) = of_int (n - 1)" using assms by (intro float_of_int_floor) simp
  ultimately show ?thesis by simp
qed

text \<open>Rounding stays within one part in \<open>2 ^ 53\<close> of a non-negative value.\<close>

definition ulp_up :: rat where "ulp_up = 1 + 1 / 2 ^ 53"
definition ulp_down :: rat where "ulp_down = 1 - 1 / 2 ^ 53"

lemma fl_upper: "0 \<le> x \<Longrightarrow> fl x \<le> x * ulp_up"
  using fl_error [of x] by (simp only: abs_le_iff ulp_up_def distrib_left) simp

lemma fl_lower: "0 \<le> x \<Longrightarrow> x * ulp_down \<le> fl x"
  using fl_error [of x] by (simp only: abs_le_iff ulp_down_def right_diff_distrib) simp

lemma interpolation_upper:
  assumes "0 \<le> a" "a \<le> b" "0 \<le> f" "f \<le> 1"
  shows "fadd (fmul a (fsub 1 f)) (fmul b f) \<le> b * (1 + 1 / 2 ^ 50)"
proof -
  define u where "u = ulp_up"
  have u: "1 \<le> u" "0 \<le> u" "u * u * u \<le> 1 + 1 / 2 ^ 50" by (simp_all add: u_def ulp_up_def)
  have g: "0 \<le> fsub 1 f" "fsub 1 f \<le> (1 - f) * u"
    using assms fl_upper [of "1 - f"] by (auto simp: fsub_def u_def fl_nonneg)
  have "a * fsub 1 f \<le> b * ((1 - f) * u)" using assms g by (intro mult_mono) auto
  then have "a * fsub 1 f * u \<le> b * ((1 - f) * u) * u" using u by (intro mult_right_mono)
  moreover have "fmul a (fsub 1 f) \<le> a * fsub 1 f * u"
    using fl_upper [of "a * fsub 1 f"] assms g by (simp add: fmul_def u_def)
  ultimately have "fmul a (fsub 1 f) \<le> b * ((1 - f) * u) * u" by linarith
  moreover have "fmul b f \<le> b * f * u * u"
    using fl_upper [of "b * f"] assms u mult_left_mono [of 1 u "b * f * u"]
    by (simp add: fmul_def u_def [symmetric] mult.assoc)
  ultimately have "fmul a (fsub 1 f) + fmul b f \<le> b * (u * u)" by (simp add: algebra_simps)
  moreover have "0 \<le> fmul a (fsub 1 f) + fmul b f"
    using assms g by (simp add: fmul_def fl_nonneg)
  then have "fadd (fmul a (fsub 1 f)) (fmul b f) \<le> (fmul a (fsub 1 f) + fmul b f) * u"
    unfolding fadd_def u_def by (rule fl_upper)
  moreover have "(fmul a (fsub 1 f) + fmul b f) * u \<le> b * (u * u) * u"
    using calculation(1) u by (intro mult_right_mono)
  ultimately have "fadd (fmul a (fsub 1 f)) (fmul b f) \<le> b * (u * u) * u" by linarith
  also have "\<dots> = b * (u * u * u)" by simp
  also have "\<dots> \<le> b * (1 + 1 / 2 ^ 50)" using assms u by (intro mult_left_mono) auto
  finally show ?thesis .
qed

lemma interpolation_lower:
  assumes "0 \<le> a" "a \<le> b" "0 \<le> f" "f \<le> 1"
  shows "a * (1 - 1 / 2 ^ 50) \<le> fadd (fmul a (fsub 1 f)) (fmul b f)"
proof -
  define u where "u = ulp_down"
  have u: "0 \<le> u" "u \<le> 1" "1 - 1 / 2 ^ 50 \<le> u * u * u" by (simp_all add: u_def ulp_down_def)
  have g: "(1 - f) * u \<le> fsub 1 f"
    using assms fl_lower [of "1 - f"] by (simp add: fsub_def u_def)
  then have g0: "0 \<le> fsub 1 f" using assms u by (meson diff_ge_0_iff_ge mult_nonneg_nonneg order_trans)
  have "a * ((1 - f) * u) * u \<le> a * fsub 1 f * u"
    using assms g u by (intro mult_right_mono mult_left_mono) auto
  also have "\<dots> \<le> fmul a (fsub 1 f)"
    using fl_lower [of "a * fsub 1 f"] assms g0 by (simp add: fmul_def u_def)
  finally have l: "a * ((1 - f) * u) * u \<le> fmul a (fsub 1 f)" .
  have "a * f * (u * u) \<le> b * f * u"
    using assms u mult_le_one [of u u] mult_mono [of "a * f" "b * f" "u * u" u]
    by (simp add: mult_right_mono mult_left_le)
  also have "\<dots> \<le> fmul b f"
    using fl_lower [of "b * f"] assms by (simp add: fmul_def u_def)
  finally have "a * (u * u) \<le> fmul a (fsub 1 f) + fmul b f" using l by (simp add: algebra_simps)
  then have "a * (u * u) * u \<le> (fmul a (fsub 1 f) + fmul b f) * u" using u by (intro mult_right_mono)
  also have "\<dots> \<le> fadd (fmul a (fsub 1 f)) (fmul b f)"
    using fl_lower [of "fmul a (fsub 1 f) + fmul b f"] assms g0
    by (simp add: fadd_def u_def fmul_def fl_nonneg)
  finally have "a * (u * u * u) \<le> fadd (fmul a (fsub 1 f)) (fmul b f)" by (simp add: mult.assoc)
  moreover have "a * (1 - 1 / 2 ^ 50) \<le> a * (u * u * u)" using assms u by (intro mult_left_mono) auto
  ultimately show ?thesis by linarith
qed

lemma sorted_ends:
  assumes "xs \<noteq> []"
  shows "sort xs ! 0 = Min (set xs) \<and> sort xs ! (length xs - 1) = Max (set xs)"
proof -
  have in_set: "i < length xs \<Longrightarrow> sort xs ! i \<in> set xs" for i by (metis length_sort nth_mem set_sort)
  have le: "i \<le> j \<Longrightarrow> j < length xs \<Longrightarrow> sort xs ! i \<le> sort xs ! j" for i j
    by (simp add: sorted_nth_mono)
  have "\<exists>i < length xs. x = sort xs ! i" if "x \<in> set xs" for x
    using that by (metis in_set_conv_nth length_sort set_sort)
  then show ?thesis
    using in_set le assms
    by (intro conjI Min_eqI [symmetric] Max_eqI [symmetric]) (fastforce simp: Suc_le_eq)+
qed

text \<open>Interpolation between the two neighbours of the rank.\<close>

lemma percentile_cases:
  assumes "0 \<le> p" and "p \<le> 100" and "RW_Values rw \<noteq> []" and "int (length (RW_Values rw)) \<le> 2 ^ 53"
  defines "s \<equiv> sort (RW_Values rw)"
  defines "rank \<equiv> fmul (fdiv p 100) (float_of_int (int (length (RW_Values rw)) - 1))"
  shows "0 \<le> rank \<and> rank \<le> of_int (int (length s) - 1) \<and>
    RW_Percentile p rw = Some (if \<lfloor>rank\<rfloor> = \<lceil>rank\<rceil> then s ! nat \<lfloor>rank\<rfloor>
      else fadd (fmul (s ! nat \<lfloor>rank\<rfloor>) (fsub 1 (fsub rank (float_of_int \<lfloor>rank\<rfloor>))))
             (fmul (s ! nat \<lceil>rank\<rceil>) (fsub rank (float_of_int \<lfloor>rank\<rfloor>))))"
proof -
  let ?n = "int (length (RW_Values rw))"
  have n: "0 < ?n" using assms(3) by simp
  have r: "0 \<le> rank" "rank \<le> of_int (?n - 1)"
    using percentile_rank [OF assms(1,2) n assms(4)] by (simp_all add: rank_def)
  then have i: "0 \<le> \<lfloor>rank\<rfloor>" "\<lfloor>rank\<rfloor> < ?n" "0 \<le> \<lceil>rank\<rceil>" "\<lceil>rank\<rceil> < ?n"
    by (simp, linarith, linarith, simp add: ceiling_less_iff less_le_trans)
  have "length s = length (RW_Values rw)" by (simp add: s_def)
  with i n have "RW_Percentile p rw = Some (if \<lfloor>rank\<rfloor> = \<lceil>rank\<rceil> then s ! nat \<lfloor>rank\<rfloor>
      else fadd (fmul (s ! nat \<lfloor>rank\<rfloor>) (fsub 1 (fsub rank (float_of_int \<lfloor>rank\<rfloor>))))
             (fmul (s ! nat \<lceil>rank\<rceil>) (fsub rank (float_of_int \<lfloor>rank\<rfloor>))))"
    by (simp add: RW_Percentile_def Let_def rank_def [symmetric] sortFloat64s_eq s_def [symmetric] go_index_def)
  with r show ?thesis by (simp add: s_def)
qed

lemma fractional_part:
  assumes "0 \<le> rank" and "rank \<le> 2 ^ 52"
  shows "0 \<le> fsub rank (float_of_int \<lfloor>rank\<rfloor>) \<and> fsub rank (float_of_int \<lfloor>rank\<rfloor>) \<le> 1"
proof -
  have "0 \<le> \<lfloor>rank\<rfloor>" "\<lfloor>rank\<rfloor> \<le> 2 ^ 52" using assms floor_mono [OF assms(2)] by simp_all
  then have "float_of_int \<lfloor>rank\<rfloor> = of_int \<lfloor>rank\<rfloor>" by (intro float_of_int_floor) simp
  then show ?thesis unfolding fsub_def by (auto intro!: fl_nonneg fl_le_1) linarith
qed

text \<open>C33. The percentile of a window of non-negative samples, for a rank between 0 and 100, never indexes
  out of range; percentile 0 is the smallest and percentile 100 the largest sample, and every other
  one lies between them up to a relative rounding error of \<open>2 ^ -50\<close>.\<close>

theorem percentile_bounds:
  assumes "0 \<le> p" and "p \<le> 100" and "RW_Values rw \<noteq> []" and "int (length (RW_Values rw)) \<le> 2 ^ 52"
    and "\<forall>v \<in> set (RW_Values rw). 0 \<le> v"
  shows "\<exists>v. RW_Percentile p rw = Some v \<and>
    Min (set (RW_Values rw)) * (1 - 1 / 2 ^ 50) \<le> v \<and> v \<le> Max (set (RW_Values rw)) * (1 + 1 / 2 ^ 50) \<and>
    (p = 0 \<longrightarrow> v = Min (set (RW_Values rw))) \<and> (p = 100 \<longrightarrow> v = Max (set (RW_Values rw)))"
proof -
  let ?s = "sort (RW_Values rw)" and ?n = "length (RW_Values rw)"
  define rank where "rank = fmul (fdiv p 100) (float_of_int (int ?n - 1))"
  define i j where "i = nat \<lfloor>rank\<rfloor>" and "j = nat \<lceil>rank\<rceil>"
  define f where "f = fsub rank (float_of_int \<lfloor>rank\<rfloor>)"
  have n: "0 < ?n" "int ?n \<le> 2 ^ 53" using assms by auto
  note C = percentile_cases [OF assms(1-3) n(2), folded rank_def]
  then have r: "0 \<le> rank" "rank \<le> of_int (int ?n - 1)" by auto
  have P: "RW_Percentile p rw = Some (if \<lfloor>rank\<rfloor> = \<lceil>rank\<rceil> then ?s ! i
      else fadd (fmul (?s ! i) (fsub 1 f)) (fmul (?s ! j) f))"
    using C by (simp add: i_def j_def f_def)
  have ij: "i \<le> j" "j < ?n" using r n by (auto simp: i_def j_def nat_less_iff ceiling_less_iff intro!: nat_mono)
  have mem: "k < ?n \<Longrightarrow> ?s ! k \<in> set (RW_Values rw)" for k by (metis length_sort nth_mem set_sort)
  have le: "?s ! i \<le> ?s ! j" using ij by (simp add: sorted_nth_mono)
  have pos: "0 \<le> ?s ! i" "0 \<le> ?s ! j" using mem ij assms(5) by auto
  have "rank \<le> 2 ^ 52" using r assms(4) of_int_le_iff [of "int ?n - 1" "2 ^ 52", where 'a = rat] by auto
  then have f: "0 \<le> f" "f \<le> 1" using fractional_part [OF r(1)] by (auto simp: f_def)
  have lo: "Min (set (RW_Values rw)) \<le> ?s ! i" and hi: "?s ! j \<le> Max (set (RW_Values rw))"
    and hi': "?s ! i \<le> Max (set (RW_Values rw))" and lo': "0 \<le> Min (set (RW_Values rw))"
    using mem ij assms(3,5) by auto
  have shrink: "x * (1 - 1 / 2 ^ 50) \<le> x" "x \<le> x * (1 + 1 / 2 ^ 50)" if "0 \<le> x" for x :: rat
    using that by (auto simp: right_diff_distrib distrib_left)
  have bounds: "Min (set (RW_Values rw)) * (1 - 1 / 2 ^ 50) \<le> the (RW_Percentile p rw)"
    "the (RW_Percentile p rw) \<le> Max (set (RW_Values rw)) * (1 + 1 / 2 ^ 50)"
  proof -
    have a: "Min (set (RW_Values rw)) * (1 - 1 / 2 ^ 50) \<le> (?s ! i) * (1 - 1 / 2 ^ 50)"
      using lo by (intro mult_right_mono) auto
    have b: "(?s ! j) * (1 + 1 / 2 ^ 50) \<le> Max (set (RW_Values rw)) * (1 + 1 / 2 ^ 50)"
      "(?s ! i) * (1 + 1 / 2 ^ 50) \<le> Max (set (RW_Values rw)) * (1 + 1 / 2 ^ 50)"
      using hi hi' by (auto intro!: mult_right_mono)
    show "Min (set (RW_Values rw)) * (1 - 1 / 2 ^ 50) \<le> the (RW_Percentile p rw)"
      unfolding P using a shrink(1) [OF pos(1)] interpolation_lower [OF pos(1) le f] by simp
    show "the (RW_Percentile p rw) \<le> Max (set (RW_Values rw)) * (1 + 1 / 2 ^ 50)"
      unfolding P using b shrink(2) [OF pos(1)] interpolation_upper [OF pos(1) le f] by simp
  qed
  have p0: "rank = 0" if "p = 0" using that by (simp add: rank_def fdiv_def fmul_def)
  have p100: "rank = of_int (int ?n - 1)" if "p = 100"
    using that assms(4) n by (simp add: rank_def fdiv_def fmul_def del: of_int_diff)
  show ?thesis
    using bounds sorted_ends [OF assms(3)] p0 p100 n
    by (auto simp: P i_def nat_diff_distrib' simp del: of_int_diff)
qed

theorem percentile_bounds_witness:
  "RW_Percentile 100 \<lparr>rw_data = [2, 5, 1], rw_size = 3, rw_pos = 0, rw_full = True\<rparr> = Some 5"
proof -
  let ?rw = "\<lparr>rw_data = [2, 5, 1 :: rat], rw_size = 3, rw_pos = 0, rw_full = True\<rparr>"
  have "RW_Values ?rw = [2, 5, 1]" using RW_Values_eq [of 3 ?rw] by (simp add: wf_window_def)
  then show ?thesis using percentile_bounds [of 100 ?rw] by auto
qed

section \<open>Smoothed values stay in range\<close>

lemma fl_above_1: "x \<le> 1 + 1 / 2 ^ 53 \<Longrightarrow> fl x \<le> 1"
proof -
  have "fl (1 + 1 / 2 ^ 53) = 1"
    using fl_eval [of 0 "1 + 1 / 2 ^ 53" "2 ^ 52"] by (simp add: fl_evaluate)
  then show "x \<le> 1 + 1 / 2 ^ 53 \<Longrightarrow> fl x \<le> 1" by (metis fl_mono)
qed

lemma EWMA_step_range:
  assumes "0 \<le> a" "a \<le> 1" "0 \<le> s" "s \<le> 1" "0 \<le> v" "v \<le> 1" and "fl a = a"
  shows "0 \<le> fadd (fmul a s) (fmul (fsub 1 a) v) \<and> fadd (fmul a s) (fmul (fsub 1 a) v) \<le> 1"
proof -
  have "(1 - a) * ulp_up \<le> 1 - a + 1 / 2 ^ 53"
    using assms by (simp only: ulp_up_def distrib_left) simp
  then have b: "0 \<le> fsub 1 a" "fsub 1 a \<le> (1 - a) + 1 / 2 ^ 53"
    using assms fl_upper [of "1 - a"] by (auto simp: fsub_def fl_nonneg)
  have "fmul a s \<le> a" "0 \<le> fmul a s"
    using assms fl_mono [of "a * s" a] by (auto simp: fmul_def mult_left_le fl_nonneg)
  moreover have "fmul (fsub 1 a) v \<le> fl (fsub 1 a)" "0 \<le> fmul (fsub 1 a) v"
    using assms b fl_mono [of "fsub 1 a * v" "fsub 1 a"] by (auto simp: fmul_def mult_left_le fl_nonneg)
  moreover have "fl (fsub 1 a) = fsub 1 a" by (simp add: fsub_def)
  ultimately show ?thesis using b by (auto simp: fadd_def intro!: fl_nonneg fl_above_1)
qed

lemma EWMA_run_range:
  assumes "0 \<le> a" "a \<le> 1" "fl a = a" "\<forall>s \<in> set ss. 0 \<le> s \<and> s \<le> 1"
    and "alpha e = a" "0 \<le> ewma_value e" "ewma_value e \<le> 1"
  shows "0 \<le> EWMA_Value (fold EWMA_Add ss e) \<and> EWMA_Value (fold EWMA_Add ss e) \<le> 1"
  using assms(4-7)
proof (induction ss arbitrary: e)
  case (Cons s ss)
  have "0 \<le> ewma_value (EWMA_Add s e) \<and> ewma_value (EWMA_Add s e) \<le> 1 \<and> alpha (EWMA_Add s e) = a"
    using EWMA_step_range [OF assms(1,2) _ _ _ _ assms(3), of s "ewma_value e"] Cons.prems
    by (auto simp: EWMA_Add_def)
  then show ?case using Cons by simp
qed (simp add: EWMA_Value_def)

text \<open>A smoothed ratio stays a ratio: with a smoothing factor in [0, 1], an average fed with samples
  in [0, 1] never leaves [0, 1], the rounding of every step included, and the first sample is taken as it is.\<close>

theorem EWMA_range:
  assumes "0 \<le> a" and "a \<le> 1" and "fl a = a" and "\<forall>s \<in> set ss. 0 \<le> s \<and> s \<le> 1"
  shows "0 \<le> EWMA_Value (fold EWMA_Add ss (NewEWMA a)) \<and> EWMA_Value (fold EWMA_Add ss (NewEWMA a)) \<le> 1 \<and>
    EWMA_Value (EWMA_Add s (NewEWMA a)) = s"
  using EWMA_run_range [OF assms, of "NewEWMA a"] by (simp add: NewEWMA_def EWMA_Value_def EWMA_Add_def)

theorem EWMA_range_witness:
  "EWMA_Value (fold EWMA_Add [1, 0, 1, 1, 0] (NewEWMA (fl (3/10)))) \<le> 1"
  using EWMA_range [of "fl (3/10)" "[1, 0, 1, 1, 0]" 0] by (simp add: fl_nonneg fl_le_1)

section \<open>The traffic trend\<close>

definition exact_num :: "int list \<Rightarrow> int" where
  "exact_num ys = int (length ys) * (\<Sum>i < length ys. int i * ys ! i) -
     (\<Sum>i < length ys. int i) * (\<Sum>i < length ys. ys ! i)"

definition exact_den :: "int list \<Rightarrow> int" where
  "exact_den ys = int (length ys) * (\<Sum>i < length ys. int i * int i) - (\<Sum>i < length ys. int i)\<^sup>2"

lemma sum_index: "2 * (\<Sum>i < n. int i) = int n * (int n - 1)"
  by (induction n) (simp_all add: algebra_simps)

lemma sum_square: "6 * (\<Sum>i < n. int i * int i) = (int n - 1) * int n * (2 * int n - 1)"
  by (induction n) (simp_all add: algebra_simps)

lemma exact_den_eq: "12 * exact_den ys = (int (length ys))\<^sup>2 * ((int (length ys))\<^sup>2 - 1)"
proof -
  let ?n = "int (length ys)" and ?a = "\<Sum>i < length ys. int i" and ?b = "\<Sum>i < length ys. int i * int i"
  have "12 * exact_den ys = 2 * ?n * (6 * ?b) - 3 * (2 * ?a)\<^sup>2"
    by (simp add: exact_den_def power2_eq_square algebra_simps)
  also have "\<dots> = ?n\<^sup>2 * (?n\<^sup>2 - 1)"
    by (simp only: sum_index sum_square) (simp add: power2_eq_square algebra_simps)
  finally show ?thesis .
qed

lemma exact_den_pos: "2 \<le> length ys \<Longrightarrow> 0 < exact_den ys"
proof -
  assume "2 \<le> length ys"
  then have "(2 :: int)\<^sup>2 \<le> (int (length ys))\<^sup>2" by (intro power_mono) auto
  then have "0 < (int (length ys))\<^sup>2 * ((int (length ys))\<^sup>2 - 1)" by (intro mult_pos_pos) auto
  then show ?thesis using exact_den_eq [of ys] by linarith
qed

text \<open>As long as every intermediate sum is an integer below \<open>2 ^ 53\<close> the loop makes no rounding error.\<close>

lemma small_exact: "\<bar>m\<bar> \<le> 2 ^ 52 \<Longrightarrow> fl (of_int m) = of_int m"
  by (intro fl_of_int) auto

lemma trend_loop_exact:
  assumes "0 \<le> i" and "i + int (length ys) \<le> 1024" and "\<forall>y \<in> set ys. \<bar>y\<bar> \<le> 2 ^ 20"
    and "\<bar>sx\<bar> \<le> i * 2 ^ 10" and "\<bar>sy\<bar> \<le> i * 2 ^ 20" and "\<bar>sxy\<bar> \<le> i * 2 ^ 30" and "\<bar>sxx\<bar> \<le> i * 2 ^ 20"
  shows "trend_loop (map of_int ys) i (of_int sx, of_int sy, of_int sxy, of_int sxx) =
    (of_int (sx + (\<Sum>k < length ys. i + int k)), of_int (sy + (\<Sum>k < length ys. ys ! k)),
     of_int (sxy + (\<Sum>k < length ys. (i + int k) * ys ! k)),
     of_int (sxx + (\<Sum>k < length ys. (i + int k) * (i + int k))))"
  using assms
proof (induction ys arbitrary: i sx sy sxy sxx)
  case (Cons y ys)
  have y: "\<bar>y\<bar> \<le> 2 ^ 20" "0 \<le> i" "i \<le> 2 ^ 10" using Cons.prems by auto
  have xy: "\<bar>i * y\<bar> \<le> 2 ^ 10 * 2 ^ 20" using mult_mono [of i "2 ^ 10" "\<bar>y\<bar>" "2 ^ 20"] y by (simp add: abs_mult)
  have xx: "\<bar>i * i\<bar> \<le> 2 ^ 10 * 2 ^ 10" using mult_mono [of i "2 ^ 10" i "2 ^ 10"] y by (simp add: abs_mult)
  have b: "\<bar>sx + i\<bar> \<le> (i + 1) * 2 ^ 10" "\<bar>sy + y\<bar> \<le> (i + 1) * 2 ^ 20"
    "\<bar>sxy + i * y\<bar> \<le> (i + 1) * 2 ^ 30" "\<bar>sxx + i * i\<bar> \<le> (i + 1) * 2 ^ 20"
  proof -
    have acc: "\<bar>s + t\<bar> \<le> (i + 1) * B" if "\<bar>s\<bar> \<le> i * B" "\<bar>t\<bar> \<le> B" for s t B :: int
      using abs_triangle_ineq [of s t] that by (simp add: distrib_right)
    show "\<bar>sx + i\<bar> \<le> (i + 1) * 2 ^ 10" by (rule acc [OF Cons.prems(4)]) (use y in simp)
    show "\<bar>sy + y\<bar> \<le> (i + 1) * 2 ^ 20" by (rule acc [OF Cons.prems(5)]) (use y in simp)
    show "\<bar>sxy + i * y\<bar> \<le> (i + 1) * 2 ^ 30" by (rule acc [OF Cons.prems(6)]) (use xy in simp)
    show "\<bar>sxx + i * i\<bar> \<le> (i + 1) * 2 ^ 20" by (rule acc [OF Cons.prems(7)]) (use xx in simp)
  qed
  have x: "float_of_int i = of_int i" using y by simp
  have steps: "fadd (of_int sx) (of_int i) = of_int (sx + i)" "fadd (of_int sy) (of_int y) = of_int (sy + y)"
    "fadd (of_int sxy) (of_int (i * y)) = of_int (sxy + i * y)"
    "fadd (of_int sxx) (of_int (i * i)) = of_int (sxx + i * i)"
    unfolding fadd_def of_int_add [symmetric] using b y by (auto intro!: small_exact simp del: of_int_add of_int_mult)
  have prods: "fmul (of_int i) (of_int y) = of_int (i * y)" "fmul (of_int i) (of_int i) = of_int (i * i)"
    unfolding fmul_def of_int_mult [symmetric] using xy xx by (auto intro!: small_exact simp del: of_int_mult)
  have "trend_loop (map of_int (y # ys)) i (of_int sx, of_int sy, of_int sxy, of_int sxx) =
      trend_loop (map of_int ys) (i + 1)
        (of_int (sx + i), of_int (sy + y), of_int (sxy + i * y), of_int (sxx + i * i))"
    by (simp add: Let_def x prods steps del: of_int_add of_int_mult)
  also note Cons.IH [of "i + 1", OF _ _ _ b]
  finally show ?case using Cons.prems
    by (simp add: sum.lessThan_Suc_shift algebra_simps del: sum.lessThan_Suc)
qed simp

lemma exact_bounds:
  assumes "length ys \<le> 1024" and "\<forall>y \<in> set ys. \<bar>y\<bar> \<le> 2 ^ 20"
  shows "\<bar>\<Sum>i < length ys. int i\<bar> \<le> 2 ^ 20" "\<bar>\<Sum>i < length ys. ys ! i\<bar> \<le> 2 ^ 30"
    "\<bar>\<Sum>i < length ys. int i * ys ! i\<bar> \<le> 2 ^ 40" "\<bar>\<Sum>i < length ys. int i * int i\<bar> \<le> 2 ^ 30"
proof -
  have S: "\<bar>\<Sum>i < length ys. f i\<bar> \<le> 1024 * B" if "\<And>i. i < length ys \<Longrightarrow> \<bar>f i\<bar> \<le> B" "0 \<le> B" for f :: "nat \<Rightarrow> int" and B
  proof -
    have "\<bar>\<Sum>i < length ys. f i\<bar> \<le> (\<Sum>i < length ys. \<bar>f i\<bar>)" by (rule sum_abs)
    also have "\<dots> \<le> int (length ys) * B" using that sum_bounded_above [of "{..<length ys}" "\<lambda>i. \<bar>f i\<bar>" B] by simp
    also have "\<dots> \<le> 1024 * B" using that assms(1) by (intro mult_right_mono) auto
    finally show ?thesis .
  qed
  have i: "int i \<le> 2 ^ 10" if "i < length ys" for i using that assms(1) by simp
  have y: "\<bar>ys ! i\<bar> \<le> 2 ^ 20" if "i < length ys" for i using that assms(2) by simp
  have m: "\<bar>int i * ys ! i\<bar> \<le> 2 ^ 10 * 2 ^ 20" if "i < length ys" for i
    unfolding abs_mult using i [OF that] y [OF that] by (intro mult_mono) auto
  have q: "\<bar>int i * int i\<bar> \<le> 2 ^ 10 * 2 ^ 10" if "i < length ys" for i
    unfolding abs_mult using i [OF that] by (intro mult_mono) auto
  show "\<bar>\<Sum>i < length ys. int i\<bar> \<le> 2 ^ 20" using S [of int "2 ^ 10"] i by simp
  show "\<bar>\<Sum>i < length ys. ys ! i\<bar> \<le> 2 ^ 30" using S [of "\<lambda>i. ys ! i" "2 ^ 20"] y by simp
  show "\<bar>\<Sum>i < length ys. int i * ys ! i\<bar> \<le> 2 ^ 40" using S [of "\<lambda>i. int i * ys ! i" "2 ^ 30"] m by simp
  show "\<bar>\<Sum>i < length ys. int i * int i\<bar> \<le> 2 ^ 30" using S [of "\<lambda>i. int i * int i" "2 ^ 20"] q by simp
qed



section \<open>Collecting\<close>

definition wf_metrics :: "MetricsCollector \<Rightarrow> bool" where
  "wf_metrics mc \<longleftrightarrow>
     wf_window (nat (LatencyWindowSize (mc_cfg mc))) (latencyWindow mc) \<and> LatencyWindowSize (mc_cfg mc) \<le> 2 ^ 52 \<and>
     wf_window (nat (RPSWindowSize (mc_cfg mc))) (rpsWindow mc) \<and>
     prevRequests mc \<le> totalRequests mc \<and> prevErrors mc \<le> totalErrors mc"

lemma wf_NewMetricsCollector:
  assumes "0 < LatencyWindowSize cfg" "LatencyWindowSize cfg \<le> 2 ^ 52" "0 < RPSWindowSize cfg"
  shows "\<exists>mc. NewMetricsCollector now cfg = Some mc \<and> wf_metrics mc"
  using wf_NewRollingWindow [of "nat (LatencyWindowSize cfg)"] wf_NewRollingWindow [of "nat (RPSWindowSize cfg)"]
    assms by (auto simp: NewMetricsCollector_def wf_metrics_def)

lemma wf_metrics_records [wf_intros]:
  "wf_metrics mc \<Longrightarrow> wf_metrics (RecordRequest mc)"
  "wf_metrics mc \<Longrightarrow> wf_metrics (RecordError mc)"
  "wf_metrics mc \<Longrightarrow> wf_metrics (SetQueueSize sz mc)"
  by (simp_all add: wf_metrics_def RecordRequest_def RecordError_def SetQueueSize_def)

lemma wf_RecordLatency: "wf_metrics mc \<Longrightarrow> \<exists>mc'. RecordLatency s mc = Some mc' \<and> wf_metrics mc'"
  using rw_push [of "nat (LatencyWindowSize (mc_cfg mc))" "latencyWindow mc" s]
  by (auto simp: wf_metrics_def RecordLatency_def)

lemma window_length: "wf_window n rw \<Longrightarrow> length (RW_Values rw) \<le> n"
  using length_RW_Values [of n rw] by (auto simp: wf_window_def RW_Len_def split: if_splits)

lemma percentile_total:
  assumes "wf_window n rw" and "int n \<le> 2 ^ 52" and "0 \<le> p" and "p \<le> 100"
  shows "RW_Percentile p rw \<noteq> None"
proof (cases "RW_Values rw = []")
  case True
  then show ?thesis by (simp add: RW_Percentile_def)
next
  case False
  then show ?thesis using percentile_cases [OF assms(3,4) False] window_length [OF assms(1)] assms(2) by auto
qed

definition load_of :: "Worker list \<Rightarrow> int" where
  "load_of ws = (\<Sum>w \<leftarrow> filter isRoutable ws. activeRequests w)"

lemma count_load_eq: "count_load ws h a = (h + int (length (filter isRoutable ws)), a + load_of ws)"
  by (induction ws h a rule: count_load.induct) (simp_all add: isRoutable_def load_of_def)

lemma load_of_bounds:
  "\<forall>w \<in> set ws. isRoutable w \<longrightarrow> 0 \<le> activeRequests w \<and> activeRequests w \<le> k \<Longrightarrow>
     0 \<le> load_of ws \<and> load_of ws \<le> int (length (filter isRoutable ws)) * k"
  by (induction ws) (auto simp: load_of_def algebra_simps)

text \<open>One sample of the utilization.\<close>

definition utilization_of :: "Router \<Rightarrow> MetricsCollectorConfig \<Rightarrow> float64" where
  "utilization_of r cfg =
     (if 0 < HealthyWorkerCount r \<and> 0 < MaxConcurrency cfg
      then fdiv (float_of_int (load_of (registered r)))
             (float_of_int (wrap64 (HealthyWorkerCount r * MaxConcurrency cfg))) else 0)"

lemma utilization_range:
  assumes "\<forall>w \<in> set (registered r). isRoutable w \<longrightarrow> 0 \<le> activeRequests w \<and> activeRequests w \<le> MaxConcurrency cfg"
    and "HealthyWorkerCount r * MaxConcurrency cfg < 2 ^ 53"
  shows "0 \<le> utilization_of r cfg \<and> utilization_of r cfg \<le> 1"
proof (cases "0 < HealthyWorkerCount r \<and> 0 < MaxConcurrency cfg")
  case True
  let ?c = "HealthyWorkerCount r * MaxConcurrency cfg"
  have c: "0 < ?c" using True by simp
  then have w: "wrap64 ?c = ?c" using assms(2) by (intro wrap64_id) auto
  have l: "0 \<le> load_of (registered r)" "load_of (registered r) \<le> ?c"
    using load_of_bounds [OF assms(1)] by (simp_all add: HealthyWorkerCount_eq)
  moreover have "\<bar>?c\<bar> < 2 ^ 53" "\<bar>load_of (registered r)\<bar> < 2 ^ 53" using c l assms(2) by auto
  then have f: "float_of_int ?c = of_int ?c" "float_of_int (load_of (registered r)) = of_int (load_of (registered r))"
    by (metis float_of_int_exact, metis float_of_int_exact)
  have "(of_int (load_of (registered r)) :: rat) \<le> of_int ?c" using l(2) by (simp only: of_int_le_iff)
  then have q: "of_int (load_of (registered r)) / (of_int ?c :: rat) \<le> 1" using c by (simp only: divide_le_eq_1 of_int_0_less_iff) simp
  have "utilization_of r cfg = fl (of_int (load_of (registered r)) / of_int ?c)"
    using True by (simp only: utilization_of_def w f fdiv_def if_True simp_thms)
  moreover have "0 \<le> of_int (load_of (registered r)) / (of_int ?c :: rat)"
    using l(1) c by (intro divide_nonneg_nonneg) (simp_all only: of_int_0_le_iff less_imp_le)
  ultimately show ?thesis using q by (simp only: fl_nonneg fl_le_1)
qed (auto simp: utilization_of_def)

lemma Collect_snapshot_lemma:
  assumes "wf_metrics mc"
  shows "\<exists>m mc'. Collect now r mc = Some (m, mc') \<and> wf_metrics mc' \<and> MC_Snapshot mc' = m \<and>
    TotalWorkers m = WorkerCount r \<and> HealthyWorkers m = HealthyWorkerCount r \<and>
    m_InFlight m = InFlightCount r \<and> QueueSize m = mc_queueSize mc \<and> CollectedAt m = now \<and>
    prevRequests mc' = totalRequests mc \<and> totalRequests mc' = totalRequests mc \<and>
    prevErrors mc' = totalErrors mc \<and>
    utilizationEWMA mc' = EWMA_Add (utilization_of r (mc_cfg mc)) (utilizationEWMA mc) \<and>
    ((\<forall>w \<in> set (registered r). isRoutable w \<longrightarrow> 0 \<le> activeRequests w \<and> activeRequests w \<le> MaxConcurrency (mc_cfg mc)) \<and>
      HealthyWorkerCount r * MaxConcurrency (mc_cfg mc) < 2 ^ 53 \<longrightarrow>
      0 \<le> utilization_of r (mc_cfg mc) \<and> utilization_of r (mc_cfg mc) \<le> 1)"
proof -
  from assms have rw: "wf_window (nat (RPSWindowSize (mc_cfg mc))) (rpsWindow mc)"
    and lw: "wf_window (nat (LatencyWindowSize (mc_cfg mc))) (latencyWindow mc)"
      "int (nat (LatencyWindowSize (mc_cfg mc))) \<le> 2 ^ 52" by (auto simp: wf_metrics_def)
  obtain p95 where p: "RW_Percentile 95 (latencyWindow mc) = Some p95"
    using percentile_total [OF lw, of 95] by auto
  have "int (length (filter isRoutable (registered r))) = HealthyWorkerCount r"
    by (simp add: HealthyWorkerCount_eq)
  then show ?thesis
    using rw_push [OF rw] assms utilization_range [of r "mc_cfg mc"]
    by (auto simp: Collect_def Let_def p count_load_eq utilization_of_def wf_metrics_def MC_Snapshot_def
        WorkerCount_def)
qed


definition example_metrics :: "int \<Rightarrow> MetricsCollector" where
  "example_metrics q = (the (NewMetricsCollector 0 DefaultMetricsCollectorConfig))\<lparr>mc_queueSize := q\<rparr>"

lemma wf_example_metrics: "wf_metrics (example_metrics q)"
  using wf_NewMetricsCollector [of DefaultMetricsCollectorConfig 0]
  by (auto simp: example_metrics_def DefaultMetricsCollectorConfig_def wf_metrics_def)


end
