(* ===== verification/Admission.thy ===== *)
theory Admission
  imports Metrics
begin

text \<open>
  The admission controller: \<open>master/lib/admission.go\<close>. Requests run \<open>Admit\<close> concurrently on shared
  atomic counters, so a request is a program counter and one step is one atomic operation: a load, an
  add or a store. \<open>client_step\<close> is the step function of one request, \<open>admission_step\<close> interleaves any
  number of them with the limit updates. What the timer, the ticker and the caller's context do is the
  event of the step.
\<close>

section \<open>Configuration and shared state\<close>

record AdmissionConfig =
  MaxConcurrencyPerWorker :: int
  MaxQueueSize :: int
  QueueTimeout :: duration

definition DefaultAdmissionConfig :: AdmissionConfig where
  "DefaultAdmissionConfig = \<lparr>MaxConcurrencyPerWorker = WorkerMaxConcurrency, MaxQueueSize = 2000,
     QueueTimeout = 60 * second\<rparr>"

text \<open>\<open>ac_metricsQueue\<close> is the queue size the metrics collector was told last.\<close>

record AdmissionController =
  ac_cfg :: AdmissionConfig
  ac_active :: int
  ac_maxActive :: int
  ac_queueSize :: int
  ac_metricsQueue :: int

definition NewAdmissionController :: "AdmissionConfig \<Rightarrow> AdmissionController" where
  "NewAdmissionController cfg = \<lparr>ac_cfg = cfg, ac_active = 0, ac_maxActive = MaxConcurrencyPerWorker cfg,
     ac_queueSize = 0, ac_metricsQueue = 0\<rparr>"

definition UpdateLimits :: "int \<Rightarrow> AdmissionController \<Rightarrow> AdmissionController" where
  "UpdateLimits healthyWorkers ac =
     (let healthyWorkers = (if healthyWorkers < 0 then 0 else healthyWorkers)
      in ac\<lparr>ac_maxActive := wrap64 (healthyWorkers * MaxConcurrencyPerWorker (ac_cfg ac))\<rparr>)"

record AdmissionStats =
  st_ActiveRequests :: int
  st_MaxConcurrency :: int
  st_QueuedRequests :: int
  st_MaxQueueSize :: int

definition Stats :: "AdmissionController \<Rightarrow> AdmissionStats" where
  "Stats ac = \<lparr>st_ActiveRequests = ac_active ac, st_MaxConcurrency = ac_maxActive ac,
     st_QueuedRequests = ac_queueSize ac, st_MaxQueueSize = MaxQueueSize (ac_cfg ac)\<rparr>"

section \<open>One request\<close>

datatype admission_error = ErrAdmissionQueueFull | ErrAdmissionTimeout | ContextError string

datatype outcome = Slot | Fail admission_error

text \<open>Where a request is in \<open>Admit\<close>; the arguments are its local variables.\<close>

datatype pc =
    Start string \<comment> \<open>load \<open>maxActive\<close>\<close>
  | LoadActive string int \<comment> \<open>load \<open>active\<close> and decide\<close>
  | BurstAdd
  | FastAdd int
  | FastUndo
  | CheckQueue
  | Enqueue
  | LoadQueue "outcome option" \<comment> \<open>load \<open>queueSize\<close> for the metrics, on entering or leaving\<close>
  | ReportQueue "outcome option" int
  | Waiting
  | TickActive int
  | TickAdd int
  | TickUndo
  | Dequeue outcome
  | Admitted bool \<comment> \<open>holds a slot; by the burst rule?\<close>
  | Returned "admission_error option"

datatype event = Go | Ticker | Timer | Cancel string

definition after_queue :: "outcome option \<Rightarrow> pc" where
  "after_queue r = (case r of None \<Rightarrow> Waiting | Some Slot \<Rightarrow> Admitted False | Some (Fail e) \<Rightarrow> Returned (Some e))"

fun client_step :: "event \<Rightarrow> pc \<Rightarrow> AdmissionController \<Rightarrow> (pc \<times> AdmissionController) option" where
  "client_step Go (Start tier) ac = Some (LoadActive tier (ac_maxActive ac), ac)"
| "client_step Go (LoadActive tier maxActive) ac =
     (let current = ac_active ac in
      Some (
        if tier = ''elite'' \<and> current < maxActive + EliteBurstSlots then BurstAdd
        else if tier = ''pro'' \<and> current < maxActive + ProBurstSlots then BurstAdd
        else if maxActive = 0 \<or> current < maxActive
        then (if 0 < maxActive then FastAdd maxActive else CheckQueue)
        else CheckQueue, ac))"
| "client_step Go BurstAdd ac = Some (Admitted True, ac\<lparr>ac_active := ac_active ac + 1\<rparr>)"
| "client_step Go (FastAdd maxActive) ac =
     (let ac = ac\<lparr>ac_active := ac_active ac + 1\<rparr>
      in Some (if ac_active ac \<le> maxActive then Admitted False else FastUndo, ac))"
| "client_step Go FastUndo ac = Some (CheckQueue, ac\<lparr>ac_active := ac_active ac - 1\<rparr>)"
| "client_step Go CheckQueue ac =
     Some (if MaxQueueSize (ac_cfg ac) \<le> ac_queueSize ac then Returned (Some ErrAdmissionQueueFull)
           else Enqueue, ac)"
| "client_step Go Enqueue ac = Some (LoadQueue None, ac\<lparr>ac_queueSize := ac_queueSize ac + 1\<rparr>)"
| "client_step Go (LoadQueue r) ac = Some (ReportQueue r (ac_queueSize ac), ac)"
| "client_step Go (ReportQueue r n) ac = Some (after_queue r, ac\<lparr>ac_metricsQueue := n\<rparr>)"
| "client_step (Cancel e) Waiting ac = Some (Dequeue (Fail (ContextError e)), ac)"
| "client_step Timer Waiting ac = Some (Dequeue (Fail ErrAdmissionTimeout), ac)"
| "client_step Ticker Waiting ac = Some (TickActive (ac_maxActive ac), ac)"
| "client_step Go (TickActive maxActive) ac =
     Some (if ac_active ac < maxActive then TickAdd maxActive else Waiting, ac)"
| "client_step Go (TickAdd maxActive) ac =
     (let ac = ac\<lparr>ac_active := ac_active ac + 1\<rparr>
      in Some (if ac_active ac \<le> maxActive then Dequeue Slot else TickUndo, ac))"
| "client_step Go TickUndo ac = Some (Waiting, ac\<lparr>ac_active := ac_active ac - 1\<rparr>)"
| "client_step Go (Dequeue r) ac = Some (LoadQueue (Some r), ac\<lparr>ac_queueSize := ac_queueSize ac - 1\<rparr>)"
| "client_step Go (Admitted b) ac = Some (Returned None, ac\<lparr>ac_active := ac_active ac - 1\<rparr>)"
| "client_step _ _ _ = None"

section \<open>All requests\<close>

record system =
  ctl :: AdmissionController
  clients :: "pc list"

inductive admission_step :: "system \<Rightarrow> system \<Rightarrow> bool" where
  arrive: "admission_step s (s\<lparr>clients := clients s @ [Start tier]\<rparr>)"
| client: "i < length (clients s) \<Longrightarrow> client_step e (clients s ! i) (ctl s) = Some (q, ac) \<Longrightarrow>
     admission_step s (s\<lparr>ctl := ac, clients := (clients s)[i := q]\<rparr>)"
| update: "admission_step s (s\<lparr>ctl := UpdateLimits n (ctl s)\<rparr>)"

inductive reachable :: "AdmissionConfig \<Rightarrow> system \<Rightarrow> bool" for cfg where
  initial: "reachable cfg \<lparr>ctl = NewAdmissionController cfg, clients = []\<rparr>"
| step: "reachable cfg s \<Longrightarrow> admission_step s t \<Longrightarrow> reachable cfg t"

inductive_cases admission_stepE: "admission_step s t"

section \<open>The counters count\<close>

text \<open>Who accounts for a unit of \<open>active\<close>, and who for one of \<open>queueSize\<close>.\<close>

fun holds :: "pc \<Rightarrow> bool" where
  "holds FastUndo = True"
| "holds TickUndo = True"
| "holds (Dequeue Slot) = True"
| "holds (LoadQueue (Some Slot)) = True"
| "holds (ReportQueue (Some Slot) n) = True"
| "holds (Admitted b) = True"
| "holds _ = False"

fun queued :: "pc \<Rightarrow> bool" where
  "queued (LoadQueue None) = True"
| "queued (ReportQueue None n) = True"
| "queued Waiting = True"
| "queued (TickActive m) = True"
| "queued (TickAdd m) = True"
| "queued TickUndo = True"
| "queued (Dequeue r) = True"
| "queued _ = False"

definition census :: "(pc \<Rightarrow> bool) \<Rightarrow> pc list \<Rightarrow> int" where
  "census P cs = int (length (filter P cs))"

lemma census_simps [simp]:
  "census P [] = 0" "census P (c # cs) = (if P c then 1 else 0) + census P cs"
  "census P (cs @ ds) = census P cs + census P ds"
  by (simp_all add: census_def)

lemma census_nonneg [simp]: "0 \<le> census P cs"
  by (simp add: census_def)

lemma census_update:
  "i < length cs \<Longrightarrow> census P (cs[i := c]) = census P cs - of_bool (P (cs ! i)) + of_bool (P c)"
proof (induction cs arbitrary: i)
  case (Cons d cs)
  then show ?case by (cases i) auto
qed simp

lemma census_pos: "i < length cs \<Longrightarrow> P (cs ! i) \<Longrightarrow> 1 \<le> census P cs"
proof (induction cs arbitrary: i)
  case (Cons d cs)
  then show ?case by (cases i) fastforce+
qed simp

lemma leaving [simp]:
  "holds (LoadQueue r) = (r = Some Slot)" "holds (ReportQueue r n) = (r = Some Slot)"
  "holds (Dequeue x) = (x = Slot)"
  by (cases r; simp; cases "the r"; simp)+ (cases x; simp)+

lemma leaving_queue [simp]: "queued (LoadQueue r) = (r = None)" "queued (ReportQueue r n) = (r = None)"
  by (cases r; simp)+

lemma client_step_counts:
  assumes "client_step e c ac = Some (q, ac')"
  shows "ac_active ac' = ac_active ac - of_bool (holds c) + of_bool (holds q) \<and>
    ac_queueSize ac' = ac_queueSize ac - of_bool (queued c) + of_bool (queued q) \<and>
    ac_cfg ac' = ac_cfg ac \<and> ac_maxActive ac' = ac_maxActive ac"
  using assms
  by (induction e c ac rule: client_step.induct)
    (auto simp: Let_def after_queue_def split: if_splits option.splits outcome.splits)

definition counters_exact :: "system \<Rightarrow> bool" where
  "counters_exact s \<longleftrightarrow> ac_active (ctl s) = census holds (clients s) \<and>
     ac_queueSize (ctl s) = census queued (clients s)"

lemma counters_exact_step: "admission_step s t \<Longrightarrow> counters_exact s \<Longrightarrow> counters_exact t"
  by (induction rule: admission_step.induct)
    (auto simp: counters_exact_def census_update UpdateLimits_def dest!: client_step_counts)

lemma reachable_counters: "reachable cfg s \<Longrightarrow> counters_exact s"
  by (induction rule: reachable.induct)
    (auto simp: counters_exact_step, simp add: counters_exact_def NewAdmissionController_def)

text \<open>C9. In every interleaving the counters are exact: \<open>active\<close> is the number of requests that hold a slot or
  are about to give one back, and \<open>queueSize\<close> the number that are queued. So neither ever goes negative,
  and when all requests have returned both are 0.\<close>

theorem admission_counters:
  assumes "reachable cfg s"
  shows "ac_active (ctl s) = census holds (clients s) \<and> ac_queueSize (ctl s) = census queued (clients s) \<and>
    0 \<le> ac_active (ctl s) \<and> 0 \<le> ac_queueSize (ctl s) \<and>
    ((\<forall>c \<in> set (clients s). \<exists>r. c = Returned r) \<longrightarrow> ac_active (ctl s) = 0 \<and> ac_queueSize (ctl s) = 0)"
proof -
  have "census P cs = 0" if "\<forall>c \<in> set cs. \<exists>r. c = Returned r" "\<And>r. \<not> P (Returned r)" for P cs
    using that by (auto simp: census_def filter_empty_conv)
  then show ?thesis using reachable_counters [OF assms] by (simp add: counters_exact_def)
qed

section \<open>The limit\<close>

text \<open>A slot granted by comparing with the limit, from the grant on.\<close>

fun granted :: "pc \<Rightarrow> bool" where
  "granted (Dequeue Slot) = True"
| "granted (LoadQueue (Some Slot)) = True"
| "granted (ReportQueue (Some Slot) n) = True"
| "granted (Admitted b) = (\<not> b)"
| "granted _ = False"

text \<open>The limit a request has read and not used yet.\<close>

fun limit_read :: "pc \<Rightarrow> int option" where
  "limit_read (LoadActive tier m) = Some m"
| "limit_read (FastAdd m) = Some m"
| "limit_read (TickActive m) = Some m"
| "limit_read (TickAdd m) = Some m"
| "limit_read _ = None"

text \<open>Runs during which the limit never exceeds \<open>M\<close>.\<close>

inductive reachable_below :: "AdmissionConfig \<Rightarrow> int \<Rightarrow> system \<Rightarrow> bool" for cfg M where
  initial: "MaxConcurrencyPerWorker cfg \<le> M \<Longrightarrow>
     reachable_below cfg M \<lparr>ctl = NewAdmissionController cfg, clients = []\<rparr>"
| step: "reachable_below cfg M s \<Longrightarrow> admission_step s t \<Longrightarrow> ac_maxActive (ctl t) \<le> M \<Longrightarrow>
     reachable_below cfg M t"

lemma below_reachable: "reachable_below cfg M s \<Longrightarrow> reachable cfg s"
  by (induction rule: reachable_below.induct) (auto intro: reachable.intros)

lemma granted_leaving [simp]:
  "granted (LoadQueue r) = (r = Some Slot)" "granted (ReportQueue r n) = (r = Some Slot)"
  "granted (Dequeue x) = (x = Slot)"
  by (cases r; simp; cases "the r"; simp)+ (cases x; simp)+

lemma granted_holds: "granted c \<Longrightarrow> holds c"
  by (cases c) auto

lemma census_mono: "(\<And>c. P c \<Longrightarrow> Q c) \<Longrightarrow> census P cs \<le> census Q cs"
  by (induction cs) auto

lemma client_step_limit:
  assumes "client_step e c ac = Some (q, ac')"
  shows "(\<forall>m. limit_read q = Some m \<longrightarrow> limit_read c = Some m \<or> m = ac_maxActive ac) \<and>
    (granted q \<and> \<not> granted c \<longrightarrow> (\<exists>m. limit_read c = Some m \<and> ac_active ac' \<le> m))"
  using assms
  by (induction e c ac rule: client_step.induct)
    (auto simp: Let_def after_queue_def split: if_splits option.splits outcome.splits)

definition below :: "int \<Rightarrow> system \<Rightarrow> bool" where
  "below M s \<longleftrightarrow> ac_maxActive (ctl s) \<le> M \<and> (\<forall>c \<in> set (clients s). \<forall>m. limit_read c = Some m \<longrightarrow> m \<le> M) \<and>
     census granted (clients s) \<le> max M 0"

lemma below_step:
  assumes "admission_step s t" and "below M s" and "counters_exact s" and "ac_maxActive (ctl t) \<le> M"
  shows "below M t"
  using assms(1)
proof cases
  case (client i e q ac)
  note K = client_step_limit [OF client(3)] client_step_counts [OF client(3)]
  have mem: "clients s ! i \<in> set (clients s)" using client(2) by simp
  have limits: "limit_read c = Some m \<Longrightarrow> m \<le> M" if "c \<in> set (clients t)" for c m
    using that K assms(2) mem set_update_subset_insert [of "clients s" i q]
    by (auto simp: client(1) below_def)
  have "census granted (clients t) \<le> max M 0"
  proof (cases "granted q \<and> \<not> granted (clients s ! i)")
    case True
    then obtain m where "limit_read (clients s ! i) = Some m" "ac_active ac \<le> m" using K by auto
    then have "ac_active (ctl t) \<le> M" using assms(2) mem by (fastforce simp: client(1) below_def)
    moreover have "ac_active (ctl t) = census holds (clients t)"
      using counters_exact_step [OF assms(1,3)] by (simp add: counters_exact_def)
    moreover have "census granted (clients t) \<le> census holds (clients t)"
      by (rule census_mono) (rule granted_holds)
    ultimately show ?thesis by simp
  next
    case False
    then have "census granted (clients t) \<le> census granted (clients s)"
      using client(2) by (auto simp: client(1) census_update)
    then show ?thesis using assms(2) by (simp add: below_def)
  qed
  with limits show ?thesis using assms(4) by (auto simp: below_def)
qed (use assms(2,4) in \<open>auto simp: below_def\<close>)

text \<open>C10. The limit holds for every request that is admitted by it: as long as the limit is at most \<open>M\<close>, no
  interleaving lets more than \<open>M\<close> requests hold slots granted by the fast path or from the queue at the same time.\<close>

theorem admission_limit:
  assumes "reachable_below cfg M s"
  shows "census granted (clients s) \<le> max M 0"
proof -
  have "below M s"
    using assms
  proof (induction rule: reachable_below.induct)
    case initial
    then show ?case by (simp add: below_def NewAdmissionController_def)
  next
    case (step s t)
    then show ?case by (blast intro: below_step reachable_counters below_reachable)
  qed
  then show ?thesis by (simp add: below_def)
qed

section \<open>Schedules\<close>

text \<open>An executable scheduler, for concrete interleavings.\<close>

datatype action = Arrive string | Step nat event | Limits int

fun run_action :: "action \<Rightarrow> system \<Rightarrow> system option" where
  "run_action (Arrive tier) s = Some (s\<lparr>clients := clients s @ [Start tier]\<rparr>)"
| "run_action (Step i e) s =
     (if i < length (clients s) then
        (case client_step e (clients s ! i) (ctl s) of
           None \<Rightarrow> None
         | Some (q, ac) \<Rightarrow> Some (s\<lparr>ctl := ac, clients := (clients s)[i := q]\<rparr>))
      else None)"
| "run_action (Limits n) s = Some (s\<lparr>ctl := UpdateLimits n (ctl s)\<rparr>)"

fun run_schedule :: "action list \<Rightarrow> system \<Rightarrow> system option" where
  "run_schedule [] s = Some s"
| "run_schedule (a # as) s = (case run_action a s of None \<Rightarrow> None | Some s \<Rightarrow> run_schedule as s)"

lemma run_action_step: "run_action a s = Some t \<Longrightarrow> admission_step s t"
  by (cases a) (auto intro: admission_step.intros split: if_splits option.splits)

lemma run_schedule_reachable: "run_schedule as s = Some t \<Longrightarrow> reachable cfg s \<Longrightarrow> reachable cfg t"
  by (induction "as" s rule: run_schedule.induct)
    (auto intro: reachable.step run_action_step split: option.splits)

definition start_system :: "AdmissionConfig \<Rightarrow> system" where
  "start_system cfg = \<lparr>ctl = NewAdmissionController cfg, clients = []\<rparr>"

lemma reachable_start: "reachable cfg (start_system cfg)"
  unfolding start_system_def by (rule reachable.initial)

theorem admission_counters_witness:
  "\<exists>s. run_schedule [Arrive ''elite'', Arrive ''free'', Step 0 Go, Step 1 Go, Step 0 Go, Step 1 Go, Step 0 Go, Step 1 Go]
     (start_system DefaultAdmissionConfig) = Some s \<and> ac_active (ctl s) = 2 \<and> census holds (clients s) = 2"
proof -
  let ?as = "[Arrive ''elite'', Arrive ''free'', Step 0 Go, Step 1 Go, Step 0 Go, Step 1 Go, Step 0 Go, Step 1 Go]"
  obtain s where s: "run_schedule ?as (start_system DefaultAdmissionConfig) = Some s" "ac_active (ctl s) = 2"
    by (simp add: start_system_def NewAdmissionController_def DefaultAdmissionConfig_def limits)
  have "reachable DefaultAdmissionConfig s" by (rule run_schedule_reachable [OF s(1) reachable_start])
  from admission_counters [OF this] s show ?thesis by simp
qed

theorem admission_limit_witness:
  "census granted [Admitted False] \<le> 50"
proof -
  let ?ac = "NewAdmissionController DefaultAdmissionConfig"
  have r0: "reachable_below DefaultAdmissionConfig 50 (start_system DefaultAdmissionConfig)"
    unfolding start_system_def by (rule reachable_below.initial) (simp add: DefaultAdmissionConfig_def limits)
  have step: "reachable_below DefaultAdmissionConfig 50 t"
    if "reachable_below DefaultAdmissionConfig 50 s" "run_action a s = Some t" "ac_maxActive (ctl t) \<le> 50" for s t a
    using that run_action_step by (blast intro: reachable_below.step)
  have max: "ac_maxActive ?ac = 50" "ac_active ?ac = 0"
    by (simp_all add: NewAdmissionController_def DefaultAdmissionConfig_def limits)
  have "reachable_below DefaultAdmissionConfig 50 \<lparr>ctl = ?ac, clients = [Start ''free'']\<rparr>"
    by (rule step [OF r0, where a = "Arrive ''free''"]) (simp_all add: start_system_def max)
  then have "reachable_below DefaultAdmissionConfig 50 \<lparr>ctl = ?ac, clients = [LoadActive ''free'' 50]\<rparr>"
    by (rule step [where a = "Step 0 Go"]) (simp_all add: max)
  then have "reachable_below DefaultAdmissionConfig 50 \<lparr>ctl = ?ac, clients = [FastAdd 50]\<rparr>"
    by (rule step [where a = "Step 0 Go"]) (simp_all add: max)
  then have "reachable_below DefaultAdmissionConfig 50 \<lparr>ctl = ?ac\<lparr>ac_active := 1\<rparr>, clients = [Admitted False]\<rparr>"
    by (rule step [where a = "Step 0 Go"]) (simp_all add: max)
  from admission_limit [OF this] show ?thesis by simp
qed

section \<open>Races\<close>

text \<open>Elite requests that all read the counter before any of them adds to it.\<close>

lemma elite_ready:
  "reachable DefaultAdmissionConfig (start_system DefaultAdmissionConfig\<lparr>clients := replicate n BurstAdd\<rparr>)"
proof (induction n)
  case 0
  show ?case using reachable_start [of DefaultAdmissionConfig] by (simp add: start_system_def)
next
  case (Suc n)
  let ?s = "start_system DefaultAdmissionConfig\<lparr>clients := replicate n BurstAdd\<rparr>"
  have "run_schedule [Arrive ''elite'', Step n Go, Step n Go] ?s =
      Some (start_system DefaultAdmissionConfig\<lparr>clients := replicate n BurstAdd @ [BurstAdd]\<rparr>)"
    by (simp add: start_system_def NewAdmissionController_def DefaultAdmissionConfig_def limits nth_append
        list_update_append)
  from run_schedule_reachable [OF this Suc] show ?case by (simp add: replicate_append_same)
qed

text \<open>The burst allowance is not a bound: elite requests test the counter and add to it in two steps, so for
  every \<open>n\<close> an interleaving admits \<open>n\<close> of them at once, with the default limit of 50 and
  \<open>EliteBurstSlots\<close> extra slots.\<close>

theorem elite_burst_unbounded:
  "\<exists>s. reachable DefaultAdmissionConfig s \<and> census holds (clients s) = int n \<and> ac_active (ctl s) = int n \<and>
     ac_maxActive (ctl s) = 50"
proof -
  let ?c = "NewAdmissionController DefaultAdmissionConfig"
  have "reachable DefaultAdmissionConfig
      \<lparr>ctl = ?c\<lparr>ac_active := int k\<rparr>, clients = replicate k (Admitted True) @ replicate (n - k) BurstAdd\<rparr>"
    if "k \<le> n" for k
    using that
  proof (induction k)
    case 0
    show ?case using elite_ready [of n] by (simp add: start_system_def NewAdmissionController_def)
  next
    case (Suc k)
    let ?s = "\<lparr>ctl = ?c\<lparr>ac_active := int k\<rparr>, clients = replicate k (Admitted True) @ replicate (n - k) BurstAdd\<rparr>"
    have "replicate (n - k) BurstAdd = BurstAdd # replicate (n - Suc k) BurstAdd"
      using Suc.prems by (metis Suc_diff_le diff_Suc_Suc replicate_Suc)
    then have "run_schedule [Step k Go] ?s = Some \<lparr>ctl = ?c\<lparr>ac_active := int (Suc k)\<rparr>,
        clients = replicate (Suc k) (Admitted True) @ replicate (n - Suc k) BurstAdd\<rparr>"
      using Suc.prems by (simp add: nth_append list_update_append replicate_app_Cons_same)
    moreover have "reachable DefaultAdmissionConfig ?s" using Suc by simp
    ultimately show ?case by (rule run_schedule_reachable)
  qed
  from this [of n] show ?thesis
    by (intro exI [of _ "\<lparr>ctl = ?c\<lparr>ac_active := int n\<rparr>, clients = replicate n (Admitted True)\<rparr>"])
      (simp add: census_def NewAdmissionController_def DefaultAdmissionConfig_def limits)
qed

text \<open>The queue size reported to the metrics can stay wrong: a request reads the counter and reports it in two
  steps, so an older value can be reported last. In a reachable state all requests have returned and the
  queue is empty, but the metrics say that one request is queued, and say so until another one queues.\<close>

theorem queue_report_stale:
  "\<exists>s. reachable DefaultAdmissionConfig s \<and> list_all (\<lambda>c. c = Returned (Some ErrAdmissionTimeout)) (clients s) \<and>
     ac_queueSize (ctl s) = 0 \<and> ac_metricsQueue (ctl s) = 1"
proof -
  let ?enter = "\<lambda>i. [Arrive ''free'', Step i Go, Step i Go, Step i Go, Step i Go, Step i Go, Step i Go]"
  let ?as = "Limits 0 # ?enter 0 @ ?enter 1 @ [Step 0 Timer, Step 1 Timer, Step 0 Go, Step 0 Go, Step 1 Go,
    Step 1 Go, Step 1 Go, Step 0 Go]"
  obtain s where s: "run_schedule ?as (start_system DefaultAdmissionConfig) = Some s"
    "list_all (\<lambda>c. c = Returned (Some ErrAdmissionTimeout)) (clients s)" "ac_queueSize (ctl s) = 0"
    "ac_metricsQueue (ctl s) = 1"
    by (simp add: start_system_def NewAdmissionController_def DefaultAdmissionConfig_def limits UpdateLimits_def
        wrap64_id after_queue_def)
  then show ?thesis using run_schedule_reachable [OF s(1) reachable_start] by blast
qed

end
