(* ===== verification/Strategy.thy ===== *)
theory Strategy
  imports Registry
begin

text \<open>
  Worker selection: \<open>master/lib/strategy.go\<close>. The order in which \<open>range\<close> visits the registry and the
  value of \<open>rand.Intn\<close> are choices of the environment, so a pick takes them as an argument; every
  theorem holds for all of them. The interface \<open>worker_picker\<close> is what the chat loop relies on,
  whichever strategy is set.
\<close>

record pick_env =
  pe_range :: "string list" \<comment> \<open>order of the (first) \<open>range\<close> loop\<close>
  pe_range2 :: "string list" \<comment> \<open>order of the second loop of \<open>pickRoundRobin\<close>\<close>
  pe_intn :: "nat \<Rightarrow> nat" \<comment> \<open>\<open>rand.Intn(n)\<close>\<close>

definition good_env :: "pick_env \<Rightarrow> Router \<Rightarrow> bool" where
  "good_env e r \<longleftrightarrow> enumerates (pe_range e) (workers r) \<and> enumerates (pe_range2 e) (workers r) \<and>
     (\<forall>n > 0. pe_intn e n < n)"

definition range_ptrs :: "Router \<Rightarrow> string list \<Rightarrow> nat list" where
  "range_ptrs r ks = map (\<lambda>k. the (map_of (workers r) k)) ks"

section \<open>The three strategies\<close>

definition ActiveRequests :: "Worker \<Rightarrow> int" where
  "ActiveRequests w = activeRequests w"

definition SetStrategy :: "string \<Rightarrow> Router \<Rightarrow> Router" where
  "SetStrategy s r = r\<lparr>strategy := s\<rparr>"

fun least_loop :: "Router \<Rightarrow> nat list \<Rightarrow> nat option \<Rightarrow> int \<Rightarrow> nat option \<times> int" where
  "least_loop r [] best minActive = (best, minActive)"
| "least_loop r (p # ps) best minActive =
     (if \<not> isRoutable (deref r p) then least_loop r ps best minActive
      else
        let active = ActiveRequests (deref r p) in
        if best = None \<or> active < minActive then least_loop r ps (Some p) active
        else least_loop r ps best minActive)"

definition pickLeastConnections :: "pick_env \<Rightarrow> Router \<Rightarrow> (go_error + nat) \<times> Router" where
  "pickLeastConnections e r =
     (case least_loop r (range_ptrs r (pe_range e)) None (-1) of
        (None, _) \<Rightarrow> (Inl ErrNoWorkersAvailable, r)
      | (Some best, minActive) \<Rightarrow>
          if WorkerMaxConcurrency \<le> minActive then (Inl ErrNoWorkersAvailable, r)
          else (Inr best, r))"

fun rr_loop :: "Router \<Rightarrow> nat list \<Rightarrow> int \<Rightarrow> nat option" where
  "rr_loop r [] n = None"
| "rr_loop r (p # ps) n =
     (if \<not> isRoutable (deref r p) then rr_loop r ps n
      else if n = sint (rrCounter r) then Some p
      else rr_loop r ps (n + 1))"

fun first_routable :: "Router \<Rightarrow> nat list \<Rightarrow> nat option" where
  "first_routable r [] = None"
| "first_routable r (p # ps) = (if \<not> isRoutable (deref r p) then first_routable r ps else Some p)"

definition pickRoundRobin :: "pick_env \<Rightarrow> Router \<Rightarrow> (go_error + nat) \<times> Router" where
  "pickRoundRobin e r =
     (let selected = rr_loop r (range_ptrs r (pe_range e)) 0;
          (selected, r) = (case selected of
              Some p \<Rightarrow> (Some p, r)
            | None \<Rightarrow> let r = r\<lparr>rrCounter := 0\<rparr> in (first_routable r (range_ptrs r (pe_range2 e)), r))
      in case selected of
           Some p \<Rightarrow>
             if WorkerMaxConcurrency \<le> ActiveRequests (deref r p) then (Inl ErrNoWorkersAvailable, r)
             else (Inr p, r\<lparr>rrCounter := rrCounter r + 1\<rparr>)
         | None \<Rightarrow> (Inl ErrNoWorkersAvailable, r))"

definition pickRandom :: "pick_env \<Rightarrow> Router \<Rightarrow> (go_error + nat) \<times> Router" where
  "pickRandom e r =
     (if workers r = [] then (Inl ErrNoWorkersAvailable, r)
      else
        let ps = filter (\<lambda>p. isRoutable (deref r p) \<and> \<not> WorkerMaxConcurrency \<le> ActiveRequests (deref r p))
                   (range_ptrs r (pe_range e))
        in if ps = [] then (Inl ErrNoWorkersAvailable, r)
           else (Inr (ps ! pe_intn e (length ps)), r))"

text \<open>An unknown strategy leaves the function value nil, and calling it panics.\<close>

definition pickWithStrategy :: "string \<Rightarrow> pick_env \<Rightarrow> Router \<Rightarrow> ((go_error + nat) \<times> Router) option" where
  "pickWithStrategy s e r =
     (if s = StrategyLeastConnections then Some (pickLeastConnections e r)
      else if s = StrategyRoundRobin then Some (pickRoundRobin e r)
      else if s = StrategyRandom then Some (pickRandom e r)
      else None)"

definition PickWorker :: "pick_env \<Rightarrow> Router \<Rightarrow> ((go_error + nat) \<times> Router \<times> goroutine list) option" where
  "PickWorker e r =
     (case pickWithStrategy (strategy r) e r of
        None \<Rightarrow> None
      | Some (res, r') \<Rightarrow> Some (res, r',
          if res = Inl ErrNoWorkersAvailable \<and> has_autoscaler r' then [GoTriggerScaleUp] else []))"

section \<open>What the chat loop relies on\<close>

definition has_room :: "Worker \<Rightarrow> bool" where
  "has_room w \<longleftrightarrow> isRoutable w \<and> activeRequests w < WorkerMaxConcurrency"

locale worker_picker =
  fixes pick :: "pick_env \<Rightarrow> Router \<Rightarrow> ((go_error + nat) \<times> Router) option"
  assumes picked: "wf_router r \<Longrightarrow> good_env e r \<Longrightarrow> pick e r = Some (Inr p, r') \<Longrightarrow>
      p \<in> snd ` set (workers r) \<and> has_room (deref r p)"
    and refused: "pick e r = Some (Inl x, r') \<Longrightarrow> x = ErrNoWorkersAvailable"
    and frame: "pick e r = Some (res, r') \<Longrightarrow> \<exists>c. r' = r\<lparr>rrCounter := c\<rparr>"
begin

lemma picked_registered:
  assumes "wf_router r" and "good_env e r" and "pick e r = Some (Inr p, r')"
  shows "p < length (heap r') \<and> deref r' p = deref r p \<and> worker_ok (deref r' p) \<and>
    w_conn (deref r' p) \<noteq> NilConn \<and> worker_of r' (w_id (deref r p)) = Some (deref r p)"
proof -
  obtain c where r': "r' = r\<lparr>rrCounter := c\<rparr>" using frame [OF assms(3)] by blast
  obtain k where k: "(k, p) \<in> set (workers r)" using picked [OF assms] by auto
  then have m: "map_of (workers r) k = Some p" using assms(1) by (simp add: wf_router_def)
  note wf_pointer [OF assms(1) m]
  moreover have "worker_ok (deref r p)" using assms(1) calculation by (intro wf_worker_ok) auto
  moreover have "isRoutable (deref r p)" using picked [OF assms] by (simp add: has_room_def)
  ultimately show ?thesis using m routable_conn by (auto simp: r' deref_def worker_of_def)
qed

lemma wf_pick: "wf_router r \<Longrightarrow> pick e r = Some (res, r') \<Longrightarrow> wf_router r'"
  using frame by (fastforce simp: wf_router_def)

text \<open>A request sent to a picked worker never meets a nil client.\<close>

lemma send_to_picked:
  "wf_router r \<Longrightarrow> good_env e r \<Longrightarrow> pick e r = Some (Inr p, r') \<Longrightarrow>
     Send handle i m t (deref r' p) = Some (handle (make_request i m t), deref r' p)"
  using picked picked_registered by (metis Send_routable has_room_def)

end

section \<open>Pointers in range order\<close>

lemma range_ptrs_set:
  assumes "wf_router r" and "enumerates ks (workers r)"
  shows "set (range_ptrs r ks) = snd ` set (workers r)"
proof -
  have "map_of (workers r) k = Some p \<longleftrightarrow> (k, p) \<in> set (workers r)" for k p
    using assms(1) by (simp add: wf_router_def)
  then show ?thesis
    using assms(2) by (force simp: range_ptrs_def enumerates_def)
qed

lemma registered_ptrs: "set (registered r) = deref r ` snd ` set (workers r)"
  by (force simp: registered_def)

section \<open>Least connections\<close>

lemma least_loop_spec:
  assumes "least_loop r ps best m = (res, m')"
    and "\<And>p. best = Some p \<Longrightarrow> isRoutable (deref r p) \<and> m = activeRequests (deref r p)"
  shows "(case res of
      None \<Rightarrow> best = None \<and> (\<forall>p \<in> set ps. \<not> isRoutable (deref r p))
    | Some p \<Rightarrow> (p \<in> set ps \<or> best = Some p) \<and> isRoutable (deref r p) \<and>
        m' = activeRequests (deref r p) \<and> (best \<noteq> None \<longrightarrow> m' \<le> m) \<and>
        (\<forall>q \<in> set ps. isRoutable (deref r q) \<longrightarrow> m' \<le> activeRequests (deref r q)))"
  using assms
proof (induction r ps best m rule: least_loop.induct)
  case (1 r best minActive)
  then show ?case by (auto split: option.split)
next
  case (2 r p ps best minActive)
  show ?case
  proof (cases "isRoutable (deref r p)")
    case False
    with 2 show ?thesis by (auto split: option.splits)
  next
    case R: True
    show ?thesis
    proof (cases "best = None \<or> ActiveRequests (deref r p) < minActive")
      case True
      with R "2.prems"(1) have "least_loop r ps (Some p) (ActiveRequests (deref r p)) = (res, m')" by simp
      from "2.IH"(2) [OF _ refl True this] R True show ?thesis
        by (auto simp: ActiveRequests_def split: option.splits)
    next
      case False
      with R "2.prems"(1) have "least_loop r ps best minActive = (res, m')" by simp
      from "2.IH"(3) [OF _ refl False this] R False "2.prems"(2) show ?thesis
        by (auto simp: ActiveRequests_def split: option.splits)
    qed
  qed
qed

lemma least_loop_None:
  "least_loop r ps None (-1) = (None, m') \<Longrightarrow> p \<in> set ps \<Longrightarrow> \<not> isRoutable (deref r p)"
  by (drule least_loop_spec) auto

lemma least_loop_Some:
  "least_loop r ps None (-1) = (Some p, m') \<Longrightarrow> p \<in> set ps \<and> isRoutable (deref r p) \<and>
     m' = activeRequests (deref r p) \<and>
     (\<forall>q \<in> set ps. isRoutable (deref r q) \<longrightarrow> activeRequests (deref r p) \<le> activeRequests (deref r q))"
  by (drule least_loop_spec) auto

lemma pickLeastConnections_ptrs:
  "(case pickLeastConnections e r of
      (Inl err, r') \<Rightarrow> err = ErrNoWorkersAvailable \<and> r' = r \<and>
        (\<forall>p \<in> set (range_ptrs r (pe_range e)). \<not> has_room (deref r p))
    | (Inr p, r') \<Rightarrow> r' = r \<and> p \<in> set (range_ptrs r (pe_range e)) \<and> has_room (deref r p) \<and>
        (\<forall>q \<in> set (range_ptrs r (pe_range e)). isRoutable (deref r q) \<longrightarrow>
          activeRequests (deref r p) \<le> activeRequests (deref r q)))"
proof -
  let ?ps = "range_ptrs r (pe_range e)"
  obtain res m' where L: "least_loop r ?ps None (-1) = (res, m')"
    by (cases "least_loop r ?ps None (-1)")
  show ?thesis
  proof (cases res)
    case None
    with L least_loop_None show ?thesis by (auto simp: pickLeastConnections_def has_room_def)
  next
    case (Some p)
    with L have L: "least_loop r ?ps None (-1) = (Some p, m')" by simp
    note S = least_loop_Some [OF L]
    show ?thesis
    proof (cases "WorkerMaxConcurrency \<le> m'")
      case True
      with S have "\<not> has_room (deref r q)" if "q \<in> set ?ps" for q
        using that by (fastforce simp: has_room_def)
      with True show ?thesis by (simp add: pickLeastConnections_def L)
    next
      case False
      with S show ?thesis by (simp add: pickLeastConnections_def L has_room_def)
    qed
  qed
qed

text \<open>C12. Least connections, for every iteration order of the registry: it fails exactly when no routable
  worker is below the concurrency limit, and otherwise returns a routable registered worker below the
  limit that has as few active requests as any routable worker.\<close>

theorem pickLeastConnections_optimal:
  assumes "wf_router r" and "enumerates (pe_range e) (workers r)"
  shows "(case pickLeastConnections e r of
      (Inl err, r') \<Rightarrow> err = ErrNoWorkersAvailable \<and> r' = r \<and> (\<forall>w \<in> set (registered r). \<not> has_room w)
    | (Inr p, r') \<Rightarrow> r' = r \<and> deref r p \<in> set (registered r) \<and> has_room (deref r p) \<and>
        (\<forall>w \<in> set (registered r). isRoutable w \<longrightarrow> activeRequests (deref r p) \<le> activeRequests w))"
proof -
  have "set (registered r) = deref r ` set (range_ptrs r (pe_range e))"
    using range_ptrs_set [OF assms] by (simp add: registered_ptrs)
  then show ?thesis
    using pickLeastConnections_ptrs [where e = e and r = r] by (auto split: prod.splits sum.splits)
qed

section \<open>Round robin\<close>

definition routable_ptrs :: "Router \<Rightarrow> nat list \<Rightarrow> nat list" where
  "routable_ptrs r ps = filter (\<lambda>p. isRoutable (deref r p)) ps"

lemma rr_loop_eq:
  "n \<le> sint (rrCounter r) \<Longrightarrow> rr_loop r ps n =
     (if nat (sint (rrCounter r) - n) < length (routable_ptrs r ps)
      then Some (routable_ptrs r ps ! nat (sint (rrCounter r) - n)) else None)"
proof (induction r ps n rule: rr_loop.induct)
  case (2 r p ps n)
  have step: "nat (sint (rrCounter r) - n) = Suc (nat (sint (rrCounter r) - (n + 1)))"
    if "n \<noteq> sint (rrCounter r)" using 2 that by simp
  show ?case
  proof (cases "isRoutable (deref r p) \<and> n \<noteq> sint (rrCounter r)")
    case True
    with 2 show ?thesis by (simp add: routable_ptrs_def step)
  next
    case False
    with 2 show ?thesis by (auto simp: routable_ptrs_def)
  qed
qed (simp add: routable_ptrs_def)

lemma first_routable_eq:
  "first_routable r ps = (case routable_ptrs r ps of [] \<Rightarrow> None | p # _ \<Rightarrow> Some p)"
  by (induction r ps rule: first_routable.induct) (simp_all add: routable_ptrs_def)

lemma rr_loop_some: "rr_loop r ps n = Some p \<Longrightarrow> p \<in> set ps \<and> isRoutable (deref r p)"
  by (induction r ps n rule: rr_loop.induct) (auto split: if_splits)

lemma first_routable_some: "first_routable r ps = Some p \<Longrightarrow> p \<in> set ps \<and> isRoutable (deref r p)"
  by (induction r ps rule: first_routable.induct) (auto split: if_splits)

lemma first_routable_counter [simp]: "first_routable (r\<lparr>rrCounter := c\<rparr>) ps = first_routable r ps"
  by (induction ps) (simp_all add: deref_def)

lemma pickRoundRobin_ok:
  assumes "wf_router r" and "good_env e r" and "pickRoundRobin e r = (Inr p, r')"
  shows "p \<in> snd ` set (workers r) \<and> has_room (deref r p)"
proof -
  have sets: "set (range_ptrs r (pe_range e)) = snd ` set (workers r)"
    "set (range_ptrs r (pe_range2 e)) = snd ` set (workers r)"
    using assms(1,2) by (auto simp: good_env_def range_ptrs_set)
  have d: "deref (r\<lparr>rrCounter := c\<rparr>) q = deref r q" for c q by (simp add: deref_def)
  show ?thesis
    using assms(3) sets rr_loop_some [of r "range_ptrs r (pe_range e)" 0]
      first_routable_some [of r "range_ptrs r (pe_range2 e)"]
    by (auto simp: pickRoundRobin_def Let_def has_room_def ActiveRequests_def d range_ptrs_def
        split: option.splits if_splits)
qed

lemma pickRoundRobin_frame: "pickRoundRobin e r = (res, r') \<Longrightarrow> \<exists>c. r' = r\<lparr>rrCounter := c\<rparr>"
  using exI [of "\<lambda>c. r = r\<lparr>rrCounter := c\<rparr>" "rrCounter r"]
  by (auto simp: pickRoundRobin_def Let_def split: option.splits if_splits prod.splits)

section \<open>Every strategy is a worker picker\<close>

interpretation least_picker: worker_picker "\<lambda>e r. Some (pickLeastConnections e r)"
proof unfold_locales
  fix r r' :: Router and e :: pick_env and p x res
  note P = pickLeastConnections_ptrs [where e = e and r = r]
  show "p \<in> snd ` set (workers r) \<and> has_room (deref r p)"
    if "wf_router r" "good_env e r" "Some (pickLeastConnections e r) = Some (Inr p, r')"
    using that P range_ptrs_set [OF that(1), of "pe_range e"] by (simp add: good_env_def)
  show "x = ErrNoWorkersAvailable" if "Some (pickLeastConnections e r) = Some (Inl x, r')"
    using that P by simp
  show "\<exists>c. r' = r\<lparr>rrCounter := c\<rparr>" if "Some (pickLeastConnections e r) = Some (res, r')"
    using that P by (cases res) (auto intro: exI [of _ "rrCounter r"])
qed

interpretation rr_picker: worker_picker "\<lambda>e r. Some (pickRoundRobin e r)"
proof unfold_locales
  show "x = ErrNoWorkersAvailable" if "Some (pickRoundRobin e r) = Some (Inl x, r')" for e r x r'
    using that by (auto simp: pickRoundRobin_def Let_def split: option.splits if_splits)
qed (auto dest: pickRoundRobin_ok pickRoundRobin_frame)

interpretation random_picker: worker_picker "\<lambda>e r. Some (pickRandom e r)"
proof unfold_locales
  fix r r' :: Router and e :: pick_env and p x res
  let ?ps = "filter (\<lambda>p. isRoutable (deref r p) \<and> \<not> WorkerMaxConcurrency \<le> ActiveRequests (deref r p))
    (range_ptrs r (pe_range e))"
  show "p \<in> snd ` set (workers r) \<and> has_room (deref r p)"
    if "wf_router r" "good_env e r" "Some (pickRandom e r) = Some (Inr p, r')"
  proof -
    have "?ps \<noteq> []" "p = ?ps ! pe_intn e (length ?ps)"
      using that(3) by (auto simp: pickRandom_def Let_def split: if_splits)
    moreover from this have "pe_intn e (length ?ps) < length ?ps"
      using that(2) by (simp add: good_env_def)
    ultimately have "p \<in> set ?ps" by (metis nth_mem)
    then show ?thesis
      using that range_ptrs_set [OF that(1), of "pe_range e"]
      by (auto simp: good_env_def has_room_def ActiveRequests_def)
  qed
  show "x = ErrNoWorkersAvailable" if "Some (pickRandom e r) = Some (Inl x, r')"
    using that by (auto simp: pickRandom_def Let_def split: if_splits)
  show "\<exists>c. r' = r\<lparr>rrCounter := c\<rparr>" if "Some (pickRandom e r) = Some (res, r')"
    using that by (auto simp: pickRandom_def Let_def intro: exI [of _ "rrCounter r"] split: if_splits)
qed

interpretation any_picker: worker_picker "pickWithStrategy s" for s
proof unfold_locales
  fix r r' :: Router and e :: pick_env and p x res
  note cases = pickWithStrategy_def
  show "p \<in> snd ` set (workers r) \<and> has_room (deref r p)"
    if "wf_router r" "good_env e r" "pickWithStrategy s e r = Some (Inr p, r')"
    using that least_picker.picked rr_picker.picked random_picker.picked
    by (auto simp: cases split: if_splits)
  show "x = ErrNoWorkersAvailable" if "pickWithStrategy s e r = Some (Inl x, r')"
    using that least_picker.refused rr_picker.refused random_picker.refused
    by (auto simp: cases split: if_splits)
  show "\<exists>c. r' = r\<lparr>rrCounter := c\<rparr>" if "pickWithStrategy s e r = Some (res, r')"
    using that least_picker.frame rr_picker.frame random_picker.frame
    by (auto simp: cases split: if_splits)
qed

section \<open>Fairness of round robin\<close>

text \<open>The position the counter stands for: it wraps to the first routable worker when no routable
  worker has its number.\<close>

definition rr_start :: "Router \<Rightarrow> nat list \<Rightarrow> nat" where
  "rr_start r ps = (if 0 \<le> sint (rrCounter r) \<and> nat (sint (rrCounter r)) < length (routable_ptrs r ps)
     then nat (sint (rrCounter r)) else 0)"

definition full :: "Worker \<Rightarrow> bool" where
  "full w \<longleftrightarrow> WorkerMaxConcurrency \<le> activeRequests w"

lemma rr_loop_negative: "sint (rrCounter r) < n \<Longrightarrow> rr_loop r ps n = None"
  by (induction r ps n rule: rr_loop.induct) auto

lemma pickRoundRobin_fixed:
  fixes r :: Router and e :: pick_env
  assumes "pe_range2 e = pe_range e"
  defines "ps \<equiv> range_ptrs r (pe_range e)"
  shows "pickRoundRobin e r =
    (if routable_ptrs r ps = [] then (Inl ErrNoWorkersAvailable, r\<lparr>rrCounter := 0\<rparr>)
     else let i = rr_start r ps; p = routable_ptrs r ps ! i in
       if full (deref r p) then (Inl ErrNoWorkersAvailable, r\<lparr>rrCounter := of_nat i\<rparr>)
       else (Inr p, r\<lparr>rrCounter := of_nat i + 1\<rparr>))"
proof -
  have d: "deref (r\<lparr>rrCounter := c\<rparr>) q = deref r q" for c q by (simp add: deref_def)
  have g: "range_ptrs (r\<lparr>rrCounter := c\<rparr>) ks = range_ptrs r ks" for c ks by (simp add: range_ptrs_def)
  have w: "(word_of_nat (nat (sint (rrCounter r))) :: 64 word) = rrCounter r" if "0 \<le> sint (rrCounter r)"
    using of_int_of_nat_eq [of "nat (sint (rrCounter r))", where ?'a = "64 word"] that by simp
  have h: "routable_ptrs (r\<lparr>rrCounter := c\<rparr>) qs = routable_ptrs r qs" for c qs
    by (simp add: routable_ptrs_def d)
  show ?thesis
  proof (cases "0 \<le> sint (rrCounter r) \<and> nat (sint (rrCounter r)) < length (routable_ptrs r ps)")
    case True
    then have "rr_loop r ps 0 = Some (routable_ptrs r ps ! nat (sint (rrCounter r)))"
      using rr_loop_eq [of 0 r ps] by simp
    moreover have "rr_start r ps = nat (sint (rrCounter r))" "routable_ptrs r ps \<noteq> []"
      using True by (auto simp: rr_start_def)
    ultimately show ?thesis
      using True by (simp add: pickRoundRobin_def full_def ActiveRequests_def ps_def [symmetric] w Let_def)
  next
    case False
    then have "rr_loop r ps 0 = None"
      using rr_loop_eq [of 0 r ps] rr_loop_negative [of r 0 ps]
      by (cases "0 \<le> sint (rrCounter r)") auto
    moreover have "rr_start r ps = 0" using False by (auto simp: rr_start_def)
    ultimately show ?thesis
      by (cases "routable_ptrs r ps") (simp_all add: pickRoundRobin_def full_def ActiveRequests_def
          ps_def [symmetric] assms(1) Let_def d g h first_routable_eq)
  qed
qed

fun rr_picks :: "pick_env \<Rightarrow> nat \<Rightarrow> Router \<Rightarrow> (go_error + nat) list" where
  "rr_picks e 0 r = []"
| "rr_picks e (Suc n) r = (let (res, r) = pickRoundRobin e r in res # rr_picks e n r)"

lemma rr_picks_fixed:
  assumes "pe_range2 e = pe_range e" and "routable_ptrs r (range_ptrs r (pe_range e)) = rs"
    and "rs \<noteq> []" and "\<forall>p \<in> set rs. \<not> full (deref r p)" and "int (length rs) < 2 ^ 63"
  shows "rr_picks e n r =
    map (\<lambda>k. Inr (rs ! ((rr_start r (range_ptrs r (pe_range e)) + k) mod length rs))) [0..<n]"
  using assms(2-4)
proof (induction n arbitrary: r)
  case (Suc n)
  let ?ps = "range_ptrs r (pe_range e)"
  define i where "i = rr_start r ?ps"
  have i: "i < length rs" using Suc.prems by (auto simp: i_def rr_start_def)
  define r' where "r' = r\<lparr>rrCounter := of_nat i + 1\<rparr>"
  have f: "range_ptrs r' (pe_range e) = ?ps" "deref r' p = deref r p"
    "routable_ptrs r' qs = routable_ptrs r qs" for p qs
    by (simp_all add: r'_def range_ptrs_def deref_def routable_ptrs_def)
  have pick: "pickRoundRobin e r = (Inr (rs ! i), r')"
    using Suc.prems i pickRoundRobin_fixed [OF assms(1), of r]
    by (simp add: Let_def i_def [symmetric] r'_def)
  have s: "sint (of_nat i + 1 :: 64 word) = int i + 1"
    using assms(5) i wrap64_id [of "int i + 1"] by (simp add: wrap64_def)
  then have start: "rr_start r' (range_ptrs r' (pe_range e)) mod length rs = Suc i mod length rs"
  proof (cases "Suc i < length rs")
    case True
    with s Suc.prems(1) show ?thesis by (simp add: rr_start_def f) (simp add: r'_def nat_add_distrib)
  next
    case False
    then have "Suc i = length rs" using i by simp
    with s Suc.prems(1) show ?thesis by (simp add: rr_start_def f) (simp add: r'_def nat_add_distrib)
  qed
  have "rr_picks e (Suc n) r = Inr (rs ! i) # map (\<lambda>k. Inr (rs !
      ((rr_start r' (range_ptrs r' (pe_range e)) + k) mod length rs))) [0..<n]"
    using Suc.IH [of r'] Suc.prems by (simp add: pick f)
  also have "\<dots> = Inr (rs ! i) # map (\<lambda>k. Inr (rs ! ((i + Suc k) mod length rs))) [0..<n]"
    using mod_add_cong [OF start refl] by simp
  also have "\<dots> = map (\<lambda>k. Inr (rs ! ((i + k) mod length rs))) [0..<Suc n]"
    using i by (simp only: upt_conv_Cons map_Suc_upt [symmetric] zero_less_Suc) (simp add: comp_def)
  finally show ?case by (simp add: i_def)
qed simp

lemma mset_rotate: "mset (rotate n xs) = mset xs"
  by (metis add.commute append_take_drop_id mset_append rotate_drop_take)



section \<open>Random\<close>

lemma pickRandom_candidates:
  "filter (\<lambda>p. isRoutable (deref r p) \<and> \<not> WorkerMaxConcurrency \<le> ActiveRequests (deref r p)) ps =
     filter (\<lambda>p. has_room (deref r p)) ps"
  by (rule filter_cong) (auto simp: has_room_def ActiveRequests_def)

text \<open>The random strategy fails exactly when no registered worker has room, picks only workers with
  room, and can pick each of them: some draw leads to it.\<close>

theorem pickRandom_support:
  assumes "wf_router r" and "enumerates (pe_range e) (workers r)" and "\<forall>n > 0. pe_intn e n < n"
  shows "(case pickRandom e r of
      (Inl err, r') \<Rightarrow> err = ErrNoWorkersAvailable \<and> r' = r \<and> (\<forall>w \<in> set (registered r). \<not> has_room w)
    | (Inr p, r') \<Rightarrow> r' = r \<and> deref r p \<in> set (registered r) \<and> has_room (deref r p)) \<and>
    (\<forall>w \<in> set (registered r). has_room w \<longrightarrow>
      (\<exists>k p. pickRandom (e\<lparr>pe_intn := \<lambda>_. k\<rparr>) r = (Inr p, r) \<and> deref r p = w))"
proof -
  let ?ps = "filter (\<lambda>p. has_room (deref r p)) (range_ptrs r (pe_range e))"
  have set: "set (registered r) = deref r ` set (range_ptrs r (pe_range e))"
    using range_ptrs_set [OF assms(1,2)] by (simp add: registered_ptrs)
  have pick: "pickRandom e' r = (if ?ps = [] then (Inl ErrNoWorkersAvailable, r)
      else (Inr (?ps ! pe_intn e' (length ?ps)), r))" if "pe_range e' = pe_range e" for e'
  proof (cases "workers r = []")
    case True
    then have "range_ptrs r (pe_range e) = []"
      using range_ptrs_set [OF assms(1,2)] by simp
    then show ?thesis by (simp add: pickRandom_def True)
  next
    case False
    then show ?thesis by (simp add: pickRandom_def pickRandom_candidates that Let_def)
  qed
  have first: "?ps ! pe_intn e (length ?ps) \<in> set ?ps" if "?ps \<noteq> []"
    using assms(3) that by (intro nth_mem) simp
  have "\<exists>k p. pickRandom (e\<lparr>pe_intn := \<lambda>_. k\<rparr>) r = (Inr p, r) \<and> deref r p = w"
    if "w \<in> set (registered r)" "has_room w" for w
  proof -
    from that obtain p where "p \<in> set ?ps" "deref r p = w" by (auto simp: set)
    then obtain k where "k < length ?ps" "?ps ! k = p" by (metis in_set_conv_nth)
    then show ?thesis using pick [of "e\<lparr>pe_intn := \<lambda>_. k\<rparr>"] \<open>deref r p = w\<close>
      by (intro exI [of _ k] exI [of _ p]) auto
  qed
  then show ?thesis
    using pick [OF refl] first by (auto simp: set filter_empty_conv)
qed

section \<open>Examples\<close>

definition example_env :: pick_env where
  "example_env = \<lparr>pe_range = [''b'', ''c'', ''a''], pe_range2 = [''b'', ''c'', ''a''], pe_intn = \<lambda>_. 0\<rparr>"

lemma example_env_fields [simp]:
  "pe_range example_env = [''b'', ''c'', ''a'']" "pe_range2 example_env = [''b'', ''c'', ''a'']"
  "pe_intn example_env = (\<lambda>_. 0)"
  by (simp_all add: example_env_def)

lemma good_example_env: "good_env example_env (example_router n)"
  by (auto simp: good_env_def enumerates_def example_router_def)

lemma range_ptrs_example [simp]: "range_ptrs (example_router n) [''b'', ''c'', ''a''] = [1, 2, 0]"
  by (simp add: range_ptrs_def example_router_def)

lemma deref_example:
  "deref (example_router n) 0 = example_worker ''a'' StateDraining 0"
  "deref (example_router n) (Suc 0) = example_worker ''b'' StateHealthy n"
  "deref (example_router n) 2 = example_worker ''c'' StateHealthy 0"
  by (simp_all add: deref_def example_router_def)

lemma routable_example [simp]: "routable_ptrs (example_router n) [Suc 0, 2, 0] = [1, 2]"
  by (simp add: routable_ptrs_def deref_example) (simp add: example_worker_def isRoutable_def)

lemma rr_start_example [simp]: "rr_start (example_router n) [Suc 0, 2, 0] = 0"
  by (simp add: rr_start_def) (simp add: example_router_def NewRouter_def)

theorem pickLeastConnections_optimal_witness:
  "pickLeastConnections example_env (example_router 1) = (Inr 2, example_router 1) \<and>
   has_room (deref (example_router 1) 2)"
proof -
  have "pickLeastConnections example_env (example_router 1) = (Inr 2, example_router 1)"
    by (simp add: pickLeastConnections_def deref_example ActiveRequests_def Let_def)
      (simp add: isRoutable_def example_worker_def limits)
  then show ?thesis
    using pickLeastConnections_optimal [OF wf_example [of 1], of example_env] good_example_env [of 1]
    by (simp add: good_env_def)
qed



theorem pickRandom_support_witness:
  "\<exists>k p. pickRandom (example_env\<lparr>pe_intn := \<lambda>_. k\<rparr>) (example_router 1) = (Inr p, example_router 1) \<and>
     deref (example_router 1) p = example_worker ''c'' StateHealthy 0"
proof -
  have "example_worker ''c'' StateHealthy 0 \<in> set (registered (example_router 1))"
    by (simp add: registered_def example_router_def deref_def)
  moreover have "has_room (example_worker ''c'' StateHealthy 0)"
    by (simp add: has_room_def isRoutable_def example_worker_def limits)
  ultimately show ?thesis
    using pickRandom_support [OF wf_example [of 1], of example_env] good_example_env [of 1]
    by (simp add: good_env_def)
qed

end
