(* ===== verification/Admin.thy ===== *)
theory Admin
  imports Strategy "HOL-Library.List_Lexorder" "HOL-Library.Char_ord"
begin

text \<open>
  Administration of workers: the rest of \<open>master/lib/admin.go\<close> and the draining of
  \<open>master/lib/autoscaler.go\<close>. A drain waits for the worker's requests while the rest of the program
  runs: \<open>env i\<close> is what other goroutines do to the router during the i-th sleep, \<open>clock i\<close> the time of
  the i-th check, and the loop is a \<open>partial_function\<close>, so that it ends is a theorem.
\<close>

section \<open>Telling an agent to destroy a worker\<close>

text \<open>The decimal digits \<open>%d\<close> and \<open>strconv.Itoa\<close> print.\<close>

function digits :: "nat \<Rightarrow> string" where
  "digits n = (if n < 10 then [char_of (48 + n)] else digits (n div 10) @ [char_of (48 + n mod 10)])"
  by pat_completeness auto
termination by (relation "measure id") auto

declare digits.simps [simp del]

definition itoa :: "int \<Rightarrow> string" where
  "itoa n = (if n < 0 then ''-'' @ digits (nat (- n)) else digits (nat n))"

definition agent_url :: "AgentInfo \<Rightarrow> string" where
  "agent_url a = ''http://'' @ ai_Host a @ '':'' @ itoa (ai_Port a)"

text \<open>The method and URL of the request sent, if the agent is known; its outcome is only logged.\<close>

definition destroyWorkerOnAgent :: "string \<Rightarrow> string \<Rightarrow> Router \<Rightarrow> (string \<times> string) option" where
  "destroyWorkerOnAgent workerID agentID r =
     (case map_of (agents r) agentID of
        None \<Rightarrow> None
      | Some agent \<Rightarrow> Some (''DELETE'', agent_url agent @ ''/workers/destroy?worker_id='' @ workerID))"

section \<open>Killing and draining\<close>

definition DrainWorker :: "string \<Rightarrow> Router \<Rightarrow> go_error option \<times> goroutine list" where
  "DrainWorker i r =
     (case map_of (workers r) i of
        None \<Rightarrow> (Some ErrWorkerNotFound, [])
      | Some p \<Rightarrow> (None, [GoKill p i]))"

definition set_state :: "LifecycleState \<Rightarrow> nat \<Rightarrow> Router \<Rightarrow> Router" where
  "set_state s p r = modify p (SetLifecycleState s) r"

definition close_worker :: "string option \<Rightarrow> nat \<Rightarrow> Router \<Rightarrow> Router" where
  "close_worker close_err p r = modify p (\<lambda>w. snd (Close close_err w)) r"

text \<open>The goroutine of \<open>DrainWorker\<close>: it removes whatever worker the id names when it runs.\<close>

definition kill_goroutine :: "(string \<Rightarrow> string option) \<Rightarrow> nat \<Rightarrow> string \<Rightarrow> Router \<Rightarrow>
    Router \<times> goroutine list" where
  "kill_goroutine ce p i r =
     (let r = set_state StateStopping p r;
          r = close_worker (ce i) p r;
          (_, r, gs) = RemoveWorker (ce i) i r
      in (r, gs))"

definition drainTimeout :: duration where "drainTimeout = 5 * minute"

partial_function (option) drain_wait ::
    "(nat \<Rightarrow> Router \<Rightarrow> Router) \<Rightarrow> (nat \<Rightarrow> time) \<Rightarrow> time \<Rightarrow> nat \<Rightarrow> nat \<Rightarrow> Router \<Rightarrow> (nat \<times> Router) option" where
  "drain_wait env clock deadline p i r =
     (if 0 < ActiveRequests (deref r p) \<and> clock i < deadline
      then drain_wait env clock deadline p (Suc i) (env i r)
      else Some (i, r))"

text \<open>Closing and removing, the common tail of both drains.\<close>

definition drain_finish :: "(string \<Rightarrow> string option) \<Rightarrow> nat \<Rightarrow> Router \<Rightarrow> Router \<times> goroutine list" where
  "drain_finish ce p r =
     (let workerID = w_id (deref r p);
          r = set_state StateStopping p r;
          r = close_worker (ce workerID) p r;
          r = set_state StateDead p r;
          (_, r, gs) = RemoveWorker (ce workerID) workerID r
      in (r, gs))"

text \<open>\<open>Router.drainAndRemoveWorker\<close> waits without marking the worker; the autoscaler's own version marks
  it as draining first.\<close>

definition router_drainAndRemoveWorker ::
    "(string \<Rightarrow> string option) \<Rightarrow> (nat \<Rightarrow> Router \<Rightarrow> Router) \<Rightarrow> time \<Rightarrow> (nat \<Rightarrow> time) \<Rightarrow> nat \<Rightarrow> Router \<Rightarrow>
      (Router \<times> goroutine list) option" where
  "router_drainAndRemoveWorker ce env now clock p r =
     map_option (\<lambda>(_, r). drain_finish ce p r)
       (drain_wait env clock (now + drainTimeout) p 0 r)"

definition drainAndRemoveWorker ::
    "(string \<Rightarrow> string option) \<Rightarrow> (nat \<Rightarrow> Router \<Rightarrow> Router) \<Rightarrow> time \<Rightarrow> (nat \<Rightarrow> time) \<Rightarrow> nat \<Rightarrow> Router \<Rightarrow>
      (Router \<times> goroutine list) option" where
  "drainAndRemoveWorker ce env now clock p r =
     (let r = set_state StateDraining p r in
      map_option (\<lambda>(_, r). drain_finish ce p r)
        (drain_wait env clock (now + drainTimeout) p 0 r))"

section \<open>Listing\<close>

fun snapshot_loop :: "nat list \<Rightarrow> Router \<Rightarrow> WorkerSnapshot list \<Rightarrow> WorkerSnapshot list \<times> Router" where
  "snapshot_loop [] r out = (out, r)"
| "snapshot_loop (p # ps) r out =
     (let (s, w) = Snapshot (deref r p) in snapshot_loop ps (modify p (\<lambda>_. w) r) (out @ [s]))"

definition WorkersSnapshot :: "string list \<Rightarrow> Router \<Rightarrow> WorkerSnapshot list \<times> Router" where
  "WorkersSnapshot ks r =
     (let (out, r) = snapshot_loop (range_ptrs r ks) r [] in (sort_key ws_ID out, r))"

definition get_Strategy :: "Router \<Rightarrow> string" where
  "get_Strategy r = strategy r"

section \<open>What a drain does\<close>

lemma wf_set_state [wf_intros]:
  assumes "wf_router r" and "s \<noteq> StateHealthy" and "s \<noteq> StateWarming"
  shows "wf_router (set_state s p r)"
proof (cases "p < length (heap r)")
  case True
  then show ?thesis using wf_worker_ok [OF assms(1) True] assms
    by (simp add: set_state_def wf_modify worker_ok_ops)
next
  case False
  then show ?thesis using assms(1) by (simp add: set_state_def modify_def list_update_beyond)
qed

lemma wf_close_worker [wf_intros]: 
  assumes "wf_router r"
  shows "wf_router (close_worker e p r)"
proof (cases "p < length (heap r)")
  case True
  then show ?thesis using wf_worker_ok [OF assms True]
    by (simp add: close_worker_def wf_modify worker_ok_ops assms)
next
  case False
  then show ?thesis using assms by (simp add: close_worker_def modify_def list_update_beyond)
qed

lemma RemoveWorker_drop: "fst (snd (RemoveWorker (ce k) k r)) = drop_worker ce k r"
  by (simp add: drop_worker_def)

lemma wf_drain_finish [wf_intros]: "wf_router r \<Longrightarrow> wf_router (fst (drain_finish ce p r))"
  by (simp add: drain_finish_def Let_def split_beta RemoveWorker_drop wf_intros)

lemma wf_kill_goroutine [wf_intros]: "wf_router r \<Longrightarrow> wf_router (fst (kill_goroutine ce p i r))"
  by (simp add: kill_goroutine_def Let_def split_beta RemoveWorker_drop wf_intros)

text \<open>The wait ends within \<open>n\<close> more checks when the deadline is at most \<open>n\<close> seconds away.\<close>

lemma drain_wait_ends:
  assumes "\<forall>j. clock j + second \<le> clock (Suc j)" and "deadline \<le> clock i + int n * second"
  shows "\<exists>j r'. drain_wait env clock deadline p i r = Some (j, r') \<and> i \<le> j \<and> j \<le> i + n \<and>
    (activeRequests (deref r' p) \<le> 0 \<or> deadline \<le> clock j)"
  using assms(2)
proof (induction n arbitrary: i r)
  case 0
  then show ?case by (subst drain_wait.simps) (auto simp: ActiveRequests_def)
next
  case (Suc n)
  show ?case
  proof (cases "0 < ActiveRequests (deref r p) \<and> clock i < deadline")
    case True
    have "deadline \<le> clock (Suc i) + int n * second"
      using Suc.prems spec [OF assms(1), of i] by (simp add: distrib_right)
    from Suc.IH [OF this, of "env i r"] True show ?thesis
      by (subst drain_wait.simps) (auto intro: le_SucI)
  next
    case False
    then show ?thesis by (subst drain_wait.simps) (auto simp: ActiveRequests_def)
  qed
qed

lemma drain_wait_inv:
  assumes "drain_wait env clock deadline p i r = Some (j, r')" and "P r" and "\<And>i r. P r \<Longrightarrow> P (env i r)"
    and "clock i + int n * second \<ge> deadline" and "\<forall>j. clock j + second \<le> clock (Suc j)"
  shows "P r'"
  using assms(1,2,4)
proof (induction n arbitrary: i r)
  case 0
  then show ?case by (subst (asm) drain_wait.simps) (auto split: if_splits)
next
  case (Suc n)
  show ?case
  proof (cases "0 < ActiveRequests (deref r p) \<and> clock i < deadline")
    case True
    then have "drain_wait env clock deadline p (Suc i) (env i r) = Some (j, r')"
      using Suc.prems(1) by (subst (asm) drain_wait.simps) simp
    moreover have "clock (Suc i) + int n * second \<ge> deadline"
      using Suc.prems(3) spec [OF assms(5), of i] by (simp add: distrib_right)
    ultimately show ?thesis using Suc.IH assms(3) Suc.prems(2) by blast
  next
    case False
    then show ?thesis using Suc.prems by (subst (asm) drain_wait.simps) auto
  qed
qed

text \<open>C36. A drain ends, whatever the other goroutines do meanwhile: when a check and the sleep after it take
  at least a second, the loop makes at most 300 iterations, and it stops because the worker is idle
  or because five minutes have passed.\<close>

theorem drain_terminates:
  assumes "now \<le> clock 0" and "\<forall>j. clock j + second \<le> clock (Suc j)"
  shows "\<exists>j r'. drain_wait env clock (now + drainTimeout) p 0 (set_state StateDraining p r) = Some (j, r') \<and>
    j \<le> 300 \<and> (activeRequests (deref r' p) \<le> 0 \<or> now + drainTimeout \<le> clock j) \<and>
    drainAndRemoveWorker ce env now clock p r = Some (drain_finish ce p r')"
  using drain_wait_ends [OF assms(2), of "now + drainTimeout" 0 300 env p "set_state StateDraining p r"] assms(1)
  by (auto simp: drainTimeout_def time_units drainAndRemoveWorker_def Let_def)

theorem drain_terminates_witness:
  "\<exists>r'. drainAndRemoveWorker (\<lambda>_. None) (\<lambda>_ r. r) 0 (\<lambda>i. int i * second) 1 (example_router 1) = Some r'"
  using drain_terminates [of 0 "\<lambda>i. int i * second" "\<lambda>_ r. r" 1 "example_router 1" "\<lambda>_. None"]
  by (auto simp: distrib_right)

lemma set_state_fields [simp]:
  "workers (set_state s p r) = workers r" "agents (set_state s p r) = agents r"
  "length (heap (set_state s p r)) = length (heap r)"
  by (simp_all add: set_state_def)

lemma close_worker_fields [simp]:
  "workers (close_worker e p r) = workers r" "agents (close_worker e p r) = agents r"
  "length (heap (close_worker e p r)) = length (heap r)"
  by (simp_all add: close_worker_def)

lemma deref_set_state:
  "p < length (heap r) \<Longrightarrow> deref (set_state s p r) q = (if q = p then SetLifecycleState s (deref r p) else deref r q)"
  by (simp add: set_state_def deref_modify)

lemma deref_close_worker:
  "p < length (heap r) \<Longrightarrow> deref (close_worker e p r) q = (if q = p then snd (Close e (deref r p)) else deref r q)"
  by (simp add: close_worker_def deref_modify)

lemma worker_of_cong:
  "workers r' = workers r \<Longrightarrow> (\<And>k q. map_of (workers r) k = Some q \<Longrightarrow> k \<noteq> i \<Longrightarrow> deref r' q = deref r q) \<Longrightarrow>
     (worker_of r')(i := None) = (worker_of r)(i := None)"
  by (auto simp: worker_of_def fun_eq_iff split: option.split) (metis map_option_cong option.set_sel option.simps(9))

text \<open>The end of a drain works by id, not by worker: the worker that was drained ends dead with a closed
  connection, and the entry its id has in the registry at that moment is removed and closed, even
  when meanwhile another, healthy and loaded, worker was registered under the id.\<close>

theorem drain_finish_by_id:
  assumes "wf_router r" and "p < length (heap r)"
  defines "i \<equiv> w_id (deref r p)"
  shows "wf_router (fst (drain_finish ce p r)) \<and>
    worker_of (fst (drain_finish ce p r)) = (worker_of r)(i := None) \<and>
    lifecycle (deref (fst (drain_finish ce p r)) p) = StateDead \<and>
    w_conn (deref (fst (drain_finish ce p r)) p) \<noteq> OpenConn \<and>
    (\<forall>q. map_of (workers r) i = Some q \<longrightarrow> w_conn (deref (fst (drain_finish ce p r)) q) \<noteq> OpenConn) \<and>
    snd (drain_finish ce p r) = (case worker_of r i of None \<Rightarrow> []
      | Some w \<Rightarrow> if w_agentID w = '''' then [] else [GoDestroyWorker i (w_agentID w)])"
proof -
  define r1 where "r1 = set_state StateDead p (close_worker (ce i) p (set_state StateStopping p r))"
  have wf: "wf_router r1" unfolding r1_def using assms(1) by (simp add: wf_intros)
  have ws: "workers r1 = workers r" "length (heap r1) = length (heap r)" by (simp_all add: r1_def)
  have d: "deref r1 q = (if q = p then SetLifecycleState StateDead (snd (Close (ce i) (SetLifecycleState StateStopping (deref r p)))) else deref r q)" for q
    using assms(2) by (simp add: r1_def deref_set_state deref_close_worker)
  have fin: "drain_finish ce p r = (fst (snd (RemoveWorker (ce i) i r1)), snd (snd (RemoveWorker (ce i) i r1)))"
    by (simp add: drain_finish_def Let_def split_beta i_def r1_def)
  have w1: "worker_of r1 i = map_option (deref r1) (map_of (workers r) i)" by (simp add: worker_of_def ws)
  have cong: "(worker_of r1)(i := None) = (worker_of r)(i := None)"
  proof (rule worker_of_cong [OF ws(1)])
    fix k q assume "map_of (workers r) k = Some q" "k \<noteq> i"
    then show "deref r1 q = deref r q" using wf_pointer [OF assms(1)] d by (auto simp: i_def)
  qed
  have dp: "lifecycle (deref r1 p) = StateDead" "w_conn (deref r1 p) \<noteq> OpenConn"
    by (auto simp: d worker_defs)
  show ?thesis
  proof (cases "map_of (workers r) i")
    case None
    then have "worker_of r1 i = None" "worker_of r i = None" by (simp_all add: worker_of_def ws)
    then show ?thesis using wf dp cong None
      by (simp add: fin RemoveWorker_absent fun_upd_idem)
  next
    case (Some q)
    then have S: "worker_of r1 i = Some (deref r1 q)" by (simp add: w1)
    have ag: "w_agentID (deref r1 q) = w_agentID (deref r q)" by (auto simp: d worker_defs)
    from RemoveWorker_present [OF wf S, of "ce i"] Some
    have R: "fst (snd (RemoveWorker (ce i) i r1)) = modify q (\<lambda>_. snd (Close (ce i) (deref r1 q))) (r1\<lparr>workers := AList.delete i (workers r1)\<rparr>)"
      "snd (snd (RemoveWorker (ce i) i r1)) = (if w_agentID (deref r1 q) \<noteq> '''' then [GoDestroyWorker i (w_agentID (deref r1 q))] else [])"
      by (auto simp: ws)
    have q: "q < length (heap r1)" using wf_pointer [OF wf] Some by (simp add: ws)
    have dq: "deref (fst (snd (RemoveWorker (ce i) i r1))) x = (if x = q then snd (Close (ce i) (deref r1 q)) else deref r1 x)" for x
      using q by (simp add: R(1) deref_modify) (simp add: deref_def)
    have wq: "worker_of r i = Some (deref r q)" by (simp add: worker_of_def Some)
    have c: "w_conn (snd (Close e w)) \<noteq> OpenConn" "lifecycle (snd (Close e w)) = lifecycle w" for e w
      by (auto simp: Close_def)
    have "worker_of (drop_worker (\<lambda>_. ce i) i r1) = (worker_of r)(i := None)"
      using worker_registry.look_del [OF wf] cong by simp
    moreover have "wf_router (drop_worker (\<lambda>_. ce i) i r1)" by (rule worker_registry.inv_del [OF wf])
    ultimately show ?thesis
      using dp Some c R(2) ag by (auto simp: fin drop_worker_def dq wq)
  qed
qed

text \<open>The drained worker is the first one allocated; its id was registered again, with 7 requests.\<close>

definition replaced_router :: Router where
  "replaced_router = (example_router 0)\<lparr>heap := [example_worker ''b'' StateDraining 0, example_worker ''b'' StateHealthy 7],
     workers := [(''b'', 1)]\<rparr>"

theorem drain_finish_by_id_witness:
  "worker_of replaced_router ''b'' = Some (example_worker ''b'' StateHealthy 7) \<and>
   worker_of (fst (drain_finish (\<lambda>_. None) 0 replaced_router)) ''b'' = None \<and>
   w_conn (deref (fst (drain_finish (\<lambda>_. None) 0 replaced_router)) 1) \<noteq> OpenConn"
proof -
  have "wf_router replaced_router"
    using wf_example [of 0]
    by (simp add: wf_router_def replaced_router_def example_worker_def worker_ok_def)
  moreover have d: "deref replaced_router 0 = example_worker ''b'' StateDraining 0"
    "deref replaced_router 1 = example_worker ''b'' StateHealthy 7" "workers replaced_router = [(''b'', 1)]"
    "length (heap replaced_router) = 2" by (simp_all add: deref_def replaced_router_def)
  moreover have "w_id (example_worker ''b'' StateDraining 0) = ''b''" by (simp add: example_worker_def)
  ultimately show ?thesis
    using drain_finish_by_id [of replaced_router 0 "\<lambda>_. None"] by (simp add: worker_of_def)
qed

section \<open>The listing\<close>

definition smoothed :: "Worker \<Rightarrow> Worker" where
  "smoothed w = snd (Snapshot w)"

definition snapshot_of :: "Worker \<Rightarrow> WorkerSnapshot" where
  "snapshot_of w = fst (Snapshot w)"

lemma snapshot_of_fields:
  "ws_ID (snapshot_of w) = w_id w" "ws_Lifecycle (snapshot_of w) = lifecycle w"
  "ws_ActiveRequests (snapshot_of w) = smooth (displayActive w) (activeRequests w)"
  by (simp_all add: snapshot_of_def Snapshot_def Let_def)

lemma snapshot_loop_eq:
  assumes "distinct ps" and "\<forall>p \<in> set ps. p < length (heap r)"
  shows "fst (snapshot_loop ps r out) = out @ map (\<lambda>p. snapshot_of (deref r p)) ps \<and>
    workers (snd (snapshot_loop ps r out)) = workers r \<and>
    length (heap (snd (snapshot_loop ps r out))) = length (heap r) \<and>
    (\<forall>q. deref (snd (snapshot_loop ps r out)) q = (if q \<in> set ps then smoothed (deref r q) else deref r q))"
  using assms
proof (induction ps arbitrary: r out)
  case (Cons p ps)
  let ?r = "modify p (\<lambda>_. smoothed (deref r p)) r"
  have step: "snapshot_loop (p # ps) r out = snapshot_loop ps ?r (out @ [snapshot_of (deref r p)])"
    by (simp add: split_beta smoothed_def snapshot_of_def)
  have "deref ?r q = (if q = p then smoothed (deref r p) else deref r q)" for q
    using Cons.prems by (simp add: deref_modify)
  moreover from this have "map (\<lambda>q. snapshot_of (deref ?r q)) ps = map (\<lambda>q. snapshot_of (deref r q)) ps"
    using Cons.prems by (intro map_cong) auto
  ultimately show ?case using Cons.prems Cons.IH [of ?r "out @ [snapshot_of (deref r p)]"]
    by (auto simp: step simp del: snapshot_loop.simps)
qed simp

lemma range_ptrs_pointers:
  assumes "wf_router r" and "enumerates ks (workers r)"
  shows "distinct (range_ptrs r ks)" and "\<forall>p \<in> set (range_ptrs r ks). p < length (heap r)"
    and "map (\<lambda>p. w_id (deref r p)) (range_ptrs r ks) = ks"
proof -
  have k: "\<exists>p. map_of (workers r) k = Some p \<and> p < length (heap r) \<and> w_id (deref r p) = k" if "k \<in> set ks" for k
    using enumerates_lookup [OF assms(2) that] wf_pointer [OF assms(1)] by blast
  then show m: "map (\<lambda>p. w_id (deref r p)) (range_ptrs r ks) = ks"
    by (auto simp: range_ptrs_def intro!: map_idI dest!: k)
  then show "distinct (range_ptrs r ks)"
    using assms(2) by (metis distinct_map enumerates_def)
  show "\<forall>p \<in> set (range_ptrs r ks). p < length (heap r)" by (auto simp: range_ptrs_def dest!: k)
qed

text \<open>The listing has one entry per registered worker, in increasing order of ids whatever the
  iteration order of the registry; each entry is the worker's state with its smoothed counter, and
  listing changes nothing but those counters.\<close>

theorem WorkersSnapshot_sorted:
  assumes "wf_router r" and "enumerates ks (workers r)"
  shows "map ws_ID (fst (WorkersSnapshot ks r)) = sort (map fst (workers r)) \<and>
    set (fst (WorkersSnapshot ks r)) = snapshot_of ` set (registered r) \<and>
    worker_of (snd (WorkersSnapshot ks r)) = map_option smoothed \<circ> worker_of r"
proof -
  let ?ps = "range_ptrs r ks"
  note P = range_ptrs_pointers [OF assms]
  note L = snapshot_loop_eq [OF P(1,2), of "[]"]
  have out: "fst (WorkersSnapshot ks r) = sort_key ws_ID (map (\<lambda>p. snapshot_of (deref r p)) ?ps)"
    and st: "snd (WorkersSnapshot ks r) = snd (snapshot_loop ?ps r [])"
    using L by (simp_all add: WorkersSnapshot_def split_beta)
  have "mset ks = mset (map fst (workers r))"
    using assms by (intro set_eq_iff_mset_eq_distinct [THEN iffD1]) (auto simp: enumerates_def wf_router_def)
  then have "sort ks = sort (map fst (workers r))" by (metis mset_sort properties_for_sort sorted_sort)
  moreover have "map ws_ID (sort_key ws_ID xs) = sort (map ws_ID xs)" for xs :: "WorkerSnapshot list"
    by (metis mset_map mset_sort properties_for_sort sorted_sort_key)
  moreover have "map ws_ID (map (\<lambda>p. snapshot_of (deref r p)) ?ps) = ks"
    using P(3) by (simp add: snapshot_of_fields comp_def)
  ultimately have ids: "map ws_ID (fst (WorkersSnapshot ks r)) = sort (map fst (workers r))"
    by (simp only: out)
  have "snapshot_of ` set (registered r) = set (map (\<lambda>p. snapshot_of (deref r p)) ?ps)"
    using range_ptrs_set [OF assms] by (simp add: registered_ptrs image_image)
  moreover have "worker_of (snd (WorkersSnapshot ks r)) k = (map_option smoothed \<circ> worker_of r) k" for k
  proof -
    have "q \<in> set ?ps" if "map_of (workers r) k = Some q" for q
      using range_ptrs_set [OF assms] that by (force dest: map_of_SomeD)
    then show ?thesis using L by (cases "map_of (workers r) k") (auto simp: st worker_of_def)
  qed
  ultimately show ?thesis using ids by (simp only: simp_thms out fun_eq_iff set_sort)
qed

theorem WorkersSnapshot_sorted_witness:
  "map ws_ID (fst (WorkersSnapshot [''b'', ''c'', ''a''] (example_router 1))) = [''a'', ''b'', ''c'']"
proof -
  have "enumerates [''b'', ''c'', ''a''] (workers (example_router 1))"
    using good_example_env [of 1] by (simp add: good_env_def)
  then show ?thesis
    using WorkersSnapshot_sorted [OF wf_example [of 1], of "[''b'', ''c'', ''a'']"]
    by (simp add: example_router_def)
qed

end
