(* ===== verification/Chat.thy ===== *)
theory Chat
  imports Admission Admin
begin

text \<open>
  Serving a chat request: \<open>HandleChat\<close> of \<open>master/lib/router.go\<close> and \<open>chatRequestHandler\<close> of
  \<open>master/lib/server.go\<close>. The worker's answer to each call, the clock, and what other goroutines do to
  the router while a call is running are the environment; \<open>Interference\<close> says what they may do. A panic
  (an unknown strategy, a nil client) is \<open>None\<close>.
\<close>

section \<open>HandleChat\<close>

record ChatRequest =
  UserID :: string
  Prompt :: string
  Tier :: string

record ChatResponse =
  RequestID :: string
  Reply :: string

definition no_response :: ChatResponse where
  "no_response = \<lparr>RequestID = '''', Reply = ''''\<rparr>"

record chat_env =
  ce_pick :: "nat \<Rightarrow> Router \<Rightarrow> pick_env" \<comment> \<open>a \<open>range\<close> depends on the map it meets\<close>
  ce_call :: "nat \<Rightarrow> nat \<Rightarrow> pb_Request \<Rightarrow> string + string" \<comment> \<open>attempt, worker: error or reply\<close>
  ce_during :: "nat \<Rightarrow> nat \<Rightarrow> Router \<Rightarrow> Router" \<comment> \<open>attempt, worker\<close>
  ce_begin :: "nat \<Rightarrow> time"
  ce_end :: "nat \<Rightarrow> time"

text \<open>One attempt on a picked worker: in-flight bookkeeping around \<open>Send\<close>, whose two halves count the request.\<close>

definition send_to :: "chat_env \<Rightarrow> nat \<Rightarrow> string \<Rightarrow> ChatRequest \<Rightarrow> nat \<Rightarrow> Router \<Rightarrow>
    ((string + string) \<times> Router) option" where
  "send_to env i requestID req p r =
     (let r = AddInFlight (ce_begin env i) requestID (w_addr (deref r p)) r;
          r = modify p send_begin r
      in if w_conn (deref r p) = NilConn then None
         else
           let r = ce_during env i p r;
               reply = ce_call env i p (make_request requestID (Prompt req) (Tier req));
               r = modify p send_end r
           in Some (reply, RemoveInFlight (ce_end env i) requestID r))"

text \<open>The loop over attempts: fuel \<open>3 - attempt\<close>, then the attempt, the last error and the goroutines started.\<close>

fun chat_loop :: "chat_env \<Rightarrow> string \<Rightarrow> nat \<Rightarrow> nat \<Rightarrow> ChatRequest \<Rightarrow> string option \<Rightarrow> Router \<Rightarrow> goroutine list \<Rightarrow>
    ((string option + ChatResponse) \<times> Router \<times> goroutine list) option" where
  "chat_loop env requestID 0 attempt req lastErr r gs = Some (Inl lastErr, r, gs)"
| "chat_loop env requestID (Suc n) attempt req lastErr r gs =
     (let req = (if 0 < attempt \<and> Tier req \<noteq> ''elite'' then req\<lparr>Tier := ''elite''\<rparr> else req) in
      case PickWorker (ce_pick env attempt r) r of
        None \<Rightarrow> None
      | Some (Inl err, r, g) \<Rightarrow> Some (Inl lastErr, r, gs @ g)
      | Some (Inr p, r, g) \<Rightarrow>
          (case send_to env attempt requestID req p r of
             None \<Rightarrow> None
           | Some (Inr reply, r) \<Rightarrow>
               Some (Inr \<lparr>RequestID = requestID, Reply = reply\<rparr>, modify p MarkHealthy r, gs @ g)
           | Some (Inl sendErr, r) \<Rightarrow>
               chat_loop env requestID n (Suc attempt) req (Some sendErr) r (gs @ g)))"

definition HandleChat :: "chat_env \<Rightarrow> string \<Rightarrow> ChatRequest \<Rightarrow> Router \<Rightarrow>
    ((go_error + ChatResponse) \<times> Router \<times> goroutine list) option" where
  "HandleChat env requestID req r =
     (case chat_loop env requestID 3 0 req None r [] of
        None \<Rightarrow> None
      | Some (Inr resp, r, gs) \<Rightarrow> Some (Inr resp, r, gs)
      | Some (Inl (Some lastErr), r, gs) \<Rightarrow> Some (Inl (ErrWorkerFailed lastErr), r, gs)
      | Some (Inl None, r, gs) \<Rightarrow> Some (Inl ErrNoWorkersAvailable, r, gs))"

section \<open>The HTTP handler\<close>

record http_reply =
  hr_status :: int
  hr_retry_after :: bool
  hr_error :: string
  hr_body :: ChatResponse

definition http_error :: "int \<Rightarrow> string \<Rightarrow> http_reply" where
  "http_error code msg = \<lparr>hr_status = code, hr_retry_after = False, hr_error = msg, hr_body = no_response\<rparr>"

text \<open>The text of an error value, as \<open>Error()\<close> gives it.\<close>

fun error_text :: "go_error \<Rightarrow> string" where
  "error_text ErrNoWorkersAvailable = ''no workers available''"
| "error_text (ErrWorkerFailed e) = ''worker failed: '' @ e"
| "error_text ErrWorkerNotFound = ''worker not found''"
| "error_text (Errorf e) = e"

text \<open>The retry loop; \<open>pause\<close> is what the rest of the program does to the router while it sleeps.\<close>

fun retry_loop :: "(nat \<Rightarrow> chat_env) \<Rightarrow> (nat \<Rightarrow> Router \<Rightarrow> Router) \<Rightarrow> string \<Rightarrow> ChatRequest \<Rightarrow> nat \<Rightarrow> nat \<Rightarrow> Router \<Rightarrow>
    goroutine list \<Rightarrow> ((go_error + ChatResponse) \<times> Router \<times> goroutine list) option" where
  "retry_loop env pause requestID req 0 i r gs = Some (Inr no_response, r, gs)"
| "retry_loop env pause requestID req (Suc n) i r gs =
     (case HandleChat (env i) requestID req r of
        None \<Rightarrow> None
      | Some (Inr resp, r, g) \<Rightarrow> Some (Inr resp, r, gs @ g)
      | Some (Inl err, r, g) \<Rightarrow>
          if err = ErrNoWorkersAvailable
          then retry_loop env pause requestID req n (Suc i) (pause i r) (gs @ g)
          else Some (Inl err, r, gs @ g))"

record chat_call =
  cc_method :: string
  cc_body :: "ChatRequest option" \<comment> \<open>the decoded body, if it is JSON\<close>
  cc_admit :: "admission_error option" \<comment> \<open>the outcome of \<open>Admit\<close>\<close>
  cc_uuid :: "string + string"
  cc_env :: "nat \<Rightarrow> chat_env"
  cc_pause :: "nat \<Rightarrow> Router \<Rightarrow> Router"
  cc_elapsed :: duration

definition admission_reply :: "admission_error \<Rightarrow> http_reply" where
  "admission_reply e = (case e of
     ErrAdmissionQueueFull \<Rightarrow> (http_error 503 ''server overloaded, try again later'')\<lparr>hr_retry_after := True\<rparr>
   | ErrAdmissionTimeout \<Rightarrow> http_error 504 ''request timed out in queue''
   | ContextError msg \<Rightarrow> http_error 503 (''admission failed: '' @ msg))"

text \<open>The reply, the router, the metrics, the goroutines started, and how often a slot was released.\<close>

definition chatRequestHandler :: "chat_call \<Rightarrow> Router \<Rightarrow> MetricsCollector \<Rightarrow>
    (http_reply \<times> Router \<times> MetricsCollector \<times> goroutine list \<times> nat) option" where
  "chatRequestHandler call r mc =
     (if cc_method call \<noteq> ''POST'' then Some (http_error 405 ''method not allowed'', r, mc, [], 0)
      else case cc_body call of
        None \<Rightarrow> Some (http_error 400 ''invalid JSON'', r, mc, [], 0)
      | Some req \<Rightarrow>
          let mc = RecordRequest mc in
          case cc_admit call of
            Some e \<Rightarrow> Some (admission_reply e, r, RecordError mc, [], 0)
          | None \<Rightarrow>
              (case cc_uuid call of
                 Inl e \<Rightarrow> Some (http_error 500 ''failed to assign request id'', r, RecordError mc, [], 1)
               | Inr requestID \<Rightarrow>
                   (case retry_loop (cc_env call) (cc_pause call) requestID req 10 0 r [] of
                      None \<Rightarrow> None
                    | Some (Inl err, r, gs) \<Rightarrow>
                        Some (case err of
                            ErrWorkerFailed e \<Rightarrow> http_error 502 (error_text err)
                          | _ \<Rightarrow> http_error 500 (''request failed: '' @ error_text err),
                          r, RecordError mc, gs, 1)
                    | Some (Inr resp, r, gs) \<Rightarrow>
                        if RequestID resp = '''' then
                          Some (http_error 503 ''no workers available, please retry'', r, RecordError mc, gs, 1)
                        else
                          (case RecordLatency (Seconds (cc_elapsed call)) mc of
                             None \<Rightarrow> None
                           | Some mc \<Rightarrow> Some (\<lparr>hr_status = 200, hr_retry_after = False, hr_error = '''',
                               hr_body = resp\<rparr>, r, mc, gs, 1)))))"

section \<open>A request leaves no trace in the registry\<close>

definition known_strategy :: "Router \<Rightarrow> bool" where
  "known_strategy r \<longleftrightarrow> strategy r \<in> {StrategyLeastConnections, StrategyRoundRobin, StrategyRandom}"

text \<open>What serving a request keeps: everything but the round-robin counter and the history of flights.\<close>

definition chat_frame :: "Router \<Rightarrow> Router \<Rightarrow> bool" where
  "chat_frame r r' \<longleftrightarrow> wf_router r' \<and> heap r' = heap r \<and> workers r' = workers r \<and> agents r' = agents r \<and>
     strategy r' = strategy r \<and> has_autoscaler r' = has_autoscaler r \<and>
     flight_of (inflight r') = flight_of (inflight r) \<and> InFlightCount r' = InFlightCount r"

definition quiet :: "chat_env \<Rightarrow> bool" where
  "quiet env \<longleftrightarrow> (\<forall>i p r. ce_during env i p r = r)"

lemma chat_frame_refl: "wf_router r \<Longrightarrow> chat_frame r r"
  by (simp add: chat_frame_def)

lemma chat_frame_trans: "chat_frame r s \<Longrightarrow> chat_frame s t \<Longrightarrow> chat_frame r t"
  by (simp add: chat_frame_def)

lemma chat_frame_counter: "wf_router r \<Longrightarrow> chat_frame r (r\<lparr>rrCounter := c\<rparr>)"
  by (simp add: chat_frame_def wf_router_def InFlightCount_def)

definition serving_ptr :: "Router \<Rightarrow> nat \<Rightarrow> bool" where
  "serving_ptr r p \<longleftrightarrow> isRoutable (deref r p) \<and> (\<exists>k. map_of (workers r) k = Some p)"

lemma serving_ptr_frame: "chat_frame r s \<Longrightarrow> serving_ptr s p = serving_ptr r p"
  by (simp add: chat_frame_def serving_ptr_def deref_def)

definition scale_up_call :: "Router \<Rightarrow> goroutine list" where
  "scale_up_call r = (if has_autoscaler r then [GoTriggerScaleUp] else [])"

text \<open>A pick, through the interface \<open>worker_picker\<close>.\<close>

lemma PickWorker_outcome:
  assumes "wf_router r" and "good_env e r" and "known_strategy r"
  shows "\<exists>res s g. PickWorker e r = Some (res, s, g) \<and> chat_frame r s \<and>
    (case res of Inl err \<Rightarrow> err = ErrNoWorkersAvailable \<and> g = scale_up_call r
     | Inr p \<Rightarrow> g = [] \<and> p < length (heap s) \<and> w_conn (deref s p) \<noteq> NilConn \<and> serving_ptr s p)"
proof -
  obtain res s where P: "pickWithStrategy (strategy r) e r = Some (res, s)"
    using assms(3) by (cases "pickWithStrategy (strategy r) e r")
      (auto simp: known_strategy_def pickWithStrategy_def split: if_splits)
  obtain c where s: "s = r\<lparr>rrCounter := c\<rparr>" using any_picker.frame [OF P] by blast
  have f: "chat_frame r s" using assms(1) by (simp add: s chat_frame_counter)
  show ?thesis
  proof (cases res)
    case (Inl err)
    with P any_picker.refused [of "strategy r" e r err s] f show ?thesis
      by (simp add: PickWorker_def scale_up_call_def s)
  next
    case (Inr p)
    with P have P: "pickWithStrategy (strategy r) e r = Some (Inr p, s)" by simp
    have "\<exists>k. map_of (workers s) k = Some p"
      using any_picker.picked [OF assms(1,2) P] assms(1) by (auto simp: s wf_router_def)
    moreover have "isRoutable (deref s p)"
      using any_picker.picked [OF assms(1,2) P] by (simp add: s deref_def has_room_def)
    moreover have "p < length (heap s)" and "w_conn (deref s p) \<noteq> NilConn"
      using any_picker.picked_registered [OF assms(1,2) P] by blast+
    ultimately show ?thesis
      using P Inr f by (simp add: PickWorker_def serving_ptr_def)
  qed
qed

lemma send_to_quiet:
  assumes "wf_router r" and "quiet env" and "p < length (heap r)" and "w_conn (deref r p) \<noteq> NilConn"
    and "flight_of (inflight r) requestID = None"
  shows "\<exists>s. send_to env i requestID req p r =
      Some (ce_call env i p (make_request requestID (Prompt req) (Tier req)), s) \<and> chat_frame r s"
proof -
  let ?r1 = "AddInFlight (ce_begin env i) requestID (w_addr (deref r p)) r"
  let ?s = "RemoveInFlight (ce_end env i) requestID (modify p send_end (modify p send_begin ?r1))"
  have c: "w_conn (deref (modify p send_begin ?r1) p) \<noteq> NilConn"
    using assms(3,4) by (simp add: AddInFlight_def modify_def deref_def send_begin_def)
  then have "send_to env i requestID req p r =
      Some (ce_call env i p (make_request requestID (Prompt req) (Tier req)), ?s)"
    using assms(2) by (simp add: send_to_def quiet_def Let_def)
  moreover have "chat_frame r ?s"
  proof -
    have "heap ?s = heap r"
      using assms(3) by (simp add: RemoveInFlight_def AddInFlight_def modify_def send_begin_def send_end_def)
    moreover have "inflight ?s = Remove (ce_end env i) requestID (Add (ce_begin env i) requestID (w_addr (deref r p)) (inflight r))"
      by (simp add: RemoveInFlight_def AddInFlight_def modify_def)
    moreover have "workers ?s = workers r" "agents ?s = agents r" "strategy ?s = strategy r"
      "has_autoscaler ?s = has_autoscaler r" "startupDurations ?s = startupDurations r"
      by (simp_all add: RemoveInFlight_def AddInFlight_def modify_def)
    moreover have "wf_inflight (inflight r)" using assms(1) by (simp add: wf_router_def)
    ultimately show ?thesis
      using assms(1) flight_lifecycle_lemma [OF _ assms(5), of "ce_end env i" "ce_begin env i" "w_addr (deref r p)"]
      by (simp add: chat_frame_def wf_router_def InFlightCount_def)
  qed
  ultimately show ?thesis by blast
qed

lemma MarkHealthy_routable:
  assumes "wf_router r" and "p < length (heap r)" and "isRoutable (deref r p)"
  shows "modify p MarkHealthy r = r"
proof -
  have "MarkHealthy (heap r ! p) = heap r ! p"
    using wf_worker_ok [OF assms(1,2)] assms(3)
    by (simp add: MarkHealthy_def isRoutable_def worker_ok_def ToWorkerStatus_def deref_def)
  then show ?thesis by (simp add: modify_def)
qed

text \<open>What attempt \<open>i\<close> on worker \<open>p\<close> is answered: retries go out with the tier \<open>elite\<close>.\<close>

definition answer :: "chat_env \<Rightarrow> string \<Rightarrow> ChatRequest \<Rightarrow> nat \<Rightarrow> nat \<Rightarrow> string + string" where
  "answer env requestID req i p =
     ce_call env i p (make_request requestID (Prompt req) (if 0 < i then ''elite'' else Tier req))"

lemma answer_boosted: "answer env requestID (req\<lparr>Tier := ''elite''\<rparr>) (Suc i) p = answer env requestID req (Suc i) p"
  by (simp add: answer_def)

text \<open>What the loop may return: the answer of an attempt, or the error it started with if none was made.\<close>

definition loop_result :: "chat_env \<Rightarrow> string \<Rightarrow> ChatRequest \<Rightarrow> Router \<Rightarrow> nat \<Rightarrow> nat \<Rightarrow> string option \<Rightarrow>
    string option + ChatResponse \<Rightarrow> goroutine list \<Rightarrow> bool" where
  "loop_result env requestID req r a n lastErr res gs =
     (case res of
        Inr resp \<Rightarrow> gs = [] \<and> RequestID resp = requestID \<and>
          (\<exists>i p. a \<le> i \<and> i < a + n \<and> serving_ptr r p \<and> answer env requestID req i p = Inr (Reply resp))
      | Inl e \<Rightarrow> e = lastErr \<and> gs = (if n = 0 then [] else scale_up_call r) \<or>
          gs \<in> {[], scale_up_call r} \<and>
          (\<exists>i p err. e = Some err \<and> a \<le> i \<and> i < a + n \<and> serving_ptr r p \<and> answer env requestID req i p = Inl err))"

lemma loop_result_step:
  assumes "loop_result env requestID req' s (Suc a) n (Some err) res gs" and "chat_frame r s"
    and "\<And>i p. a < i \<Longrightarrow> answer env requestID req' i p = answer env requestID req i p"
    and "serving_ptr r p" and "answer env requestID req a p = Inl err"
  shows "loop_result env requestID req r a (Suc n) lastErr res gs"
proof (cases res)
  case (Inr resp)
  with assms(1) obtain i q where "gs = []" "RequestID resp = requestID" and i: "Suc a \<le> i" "i < Suc a + n"
      "serving_ptr s q" "answer env requestID req' i q = Inr (Reply resp)"
    by (auto simp: loop_result_def)
  moreover have "serving_ptr r q" "answer env requestID req i q = Inr (Reply resp)" "a \<le> i" "i < a + Suc n"
    using i assms(2,3) by (auto simp: serving_ptr_frame)
  ultimately show ?thesis unfolding loop_result_def Inr sum.case by blast
next
  case (Inl e)
  have g: "scale_up_call s = scale_up_call r" using assms(2) by (simp add: scale_up_call_def chat_frame_def)
  from assms(1) have "e = Some err \<and> gs \<in> {[], scale_up_call r} \<or> gs \<in> {[], scale_up_call r} \<and>
      (\<exists>i p err. e = Some err \<and> Suc a \<le> i \<and> i < Suc a + n \<and> serving_ptr s p \<and>
        answer env requestID req' i p = Inl err)"
    by (auto simp: loop_result_def Inl g split: if_splits)
  then show ?thesis
  proof (elim disjE conjE exE)
    assume "e = Some err" "gs \<in> {[], scale_up_call r}"
    moreover have "a \<le> a" "a < a + Suc n" by simp_all
    ultimately show ?thesis using assms(4,5) unfolding loop_result_def Inl sum.case by blast
  next
    fix i q err' assume a: "gs \<in> {[], scale_up_call r}" "e = Some err'" "Suc a \<le> i" "i < Suc a + n"
      "serving_ptr s q" "answer env requestID req' i q = Inl err'"
    then have "serving_ptr r q" "answer env requestID req i q = Inl err'" "a \<le> i" "i < a + Suc n"
      using assms(2,3) by (auto simp: serving_ptr_frame)
    then show ?thesis using a(1,2) by (auto simp: loop_result_def Inl)
  qed
qed

lemma chat_loop_quiet:
  assumes "quiet env"
  shows "wf_router r \<Longrightarrow> known_strategy r \<Longrightarrow> (\<And>i s. wf_router s \<Longrightarrow> good_env (ce_pick env i s) s) \<Longrightarrow>
    flight_of (inflight r) requestID = None \<Longrightarrow>
    \<exists>res s gs'. chat_loop env requestID n a req lastErr r gs = Some (res, s, gs @ gs') \<and> chat_frame r s \<and>
      loop_result env requestID req r a n lastErr res gs'"
proof (induction n arbitrary: a req lastErr r gs)
  case 0
  then show ?case by (simp add: chat_frame_refl loop_result_def)
next
  case (Suc n)
  define req' where "req' = (if 0 < a \<and> Tier req \<noteq> ''elite'' then req\<lparr>Tier := ''elite''\<rparr> else req)"
  have same: "answer env requestID req' i p = answer env requestID req i p" if "a \<le> i" for i p
    using that by (auto simp: req'_def answer_def)
  have sent: "ce_call env a p (make_request requestID (Prompt req') (Tier req')) = answer env requestID req a p" for p
    by (auto simp: req'_def answer_def)
  obtain res s g where P: "PickWorker (ce_pick env a r) r = Some (res, s, g)" and f: "chat_frame r s"
    and res: "case res of Inl err \<Rightarrow> err = ErrNoWorkersAvailable \<and> g = scale_up_call r
     | Inr p \<Rightarrow> g = [] \<and> p < length (heap s) \<and> w_conn (deref s p) \<noteq> NilConn \<and> serving_ptr s p"
    using PickWorker_outcome [OF Suc.prems(1) Suc.prems(3) [OF Suc.prems(1)] Suc.prems(2)] by blast
  show ?case
  proof (cases res)
    case (Inl err)
    with P f res show ?thesis by (simp add: req'_def loop_result_def)
  next
    case (Inr p)
    with res have p: "g = []" "p < length (heap s)" "w_conn (deref s p) \<noteq> NilConn" "serving_ptr s p" by auto
    have s: "wf_router s" "flight_of (inflight s) requestID = None"
      using f Suc.prems(4) by (simp_all add: chat_frame_def)
    obtain t where S: "send_to env a requestID req' p s = Some (answer env requestID req a p, t)"
      and ft: "chat_frame s t"
      using send_to_quiet [OF s(1) assms p(2,3) s(2), of a req'] by (auto simp: sent)
    have rt: "chat_frame r t" using chat_frame_trans [OF f ft] .
    have step: "chat_loop env requestID (Suc n) a req lastErr r gs =
        (case answer env requestID req a p of
           Inr reply \<Rightarrow> Some (Inr \<lparr>RequestID = requestID, Reply = reply\<rparr>, modify p MarkHealthy t, gs)
         | Inl e \<Rightarrow> chat_loop env requestID n (Suc a) req' (Some e) t gs)"
      using P S p(1) Inr by (simp add: req'_def split: sum.split)
    have sp: "serving_ptr r p" using p(4) serving_ptr_frame [OF f] by simp
    show ?thesis
    proof (cases "answer env requestID req a p")
      case (Inr reply)
      have "p < length (heap t)" "isRoutable (deref t p)" "wf_router t"
        using p ft by (auto simp: chat_frame_def serving_ptr_def deref_def)
      then have "modify p MarkHealthy t = t" by (intro MarkHealthy_routable)
      then show ?thesis using step Inr rt sp by (auto simp: loop_result_def)
    next
      case (Inl e)
      have "wf_router t" "known_strategy t" "flight_of (inflight t) requestID = None"
        using rt Suc.prems by (simp_all add: chat_frame_def known_strategy_def)
      then obtain res' u gs' where L: "chat_loop env requestID n (Suc a) req' (Some e) t gs = Some (res', u, gs @ gs')"
        and fu: "chat_frame t u" and lr: "loop_result env requestID req' t (Suc a) n (Some e) res' gs'"
        using Suc.IH [of t "Suc a" req' "Some e" gs] Suc.prems(3) by blast
      have "loop_result env requestID req r a (Suc n) lastErr res' gs'"
        using loop_result_step [OF lr rt _ sp Inl] same by (simp add: less_imp_le)
      then show ?thesis using step Inl L chat_frame_trans [OF rt fu] by auto
    qed
  qed
qed

section \<open>What a request is promised\<close>

definition chat_ready :: "(nat \<Rightarrow> chat_env) \<Rightarrow> string \<Rightarrow> Router \<Rightarrow> bool" where
  "chat_ready env requestID r \<longleftrightarrow> wf_router r \<and> known_strategy r \<and> flight_of (inflight r) requestID = None \<and>
     (\<forall>i. quiet (env i) \<and> (\<forall>j s. wf_router s \<longrightarrow> good_env (ce_pick (env i) j s) s))"

lemma chat_ready_frame: "chat_ready env requestID r \<Longrightarrow> chat_frame r s \<Longrightarrow> chat_ready env requestID s"
  by (auto simp: chat_ready_def chat_frame_def known_strategy_def)

definition chat_result :: "chat_env \<Rightarrow> string \<Rightarrow> ChatRequest \<Rightarrow> Router \<Rightarrow> go_error + ChatResponse \<Rightarrow> goroutine list \<Rightarrow> bool" where
  "chat_result env requestID req r res gs =
     (case res of
        Inr resp \<Rightarrow> gs = [] \<and> RequestID resp = requestID \<and>
          (\<exists>i p. i < 3 \<and> serving_ptr r p \<and> answer env requestID req i p = Inr (Reply resp))
      | Inl ErrNoWorkersAvailable \<Rightarrow> gs = scale_up_call r
      | Inl (ErrWorkerFailed e) \<Rightarrow> gs \<in> {[], scale_up_call r} \<and>
          (\<exists>i p. i < 3 \<and> serving_ptr r p \<and> answer env requestID req i p = Inl e)
      | _ \<Rightarrow> False)"

lemma HandleChat_served_lemma:
  assumes "chat_ready env requestID r"
  shows "\<exists>res s gs. HandleChat (env k) requestID req r = Some (res, s, gs) \<and> chat_frame r s \<and>
    chat_result (env k) requestID req r res gs"
proof -
  have "quiet (env k)" "wf_router r" "known_strategy r" "flight_of (inflight r) requestID = None"
    "\<And>i s. wf_router s \<Longrightarrow> good_env (ce_pick (env k) i s) s"
    using assms by (simp_all add: chat_ready_def)
  then obtain res s gs where L: "chat_loop (env k) requestID 3 0 req None r [] = Some (res, s, [] @ gs)"
    and f: "chat_frame r s" and lr: "loop_result (env k) requestID req r 0 3 None res gs"
    using chat_loop_quiet by metis
  show ?thesis
  proof (cases res)
    case (Inr resp)
    then show ?thesis using L f lr by (auto simp: HandleChat_def chat_result_def loop_result_def)
  next
    case (Inl e)
    then show ?thesis using L f lr
      by (cases e) (auto simp: HandleChat_def chat_result_def loop_result_def)
  qed
qed

text \<open>Serving a request never panics and leaves no trace: the workers with their request counters, the
  registries and the requests in flight are as before, whatever the workers answer. A reply is the answer of a healthy registered
  worker to one of at most three attempts, retries going out with the tier elite. A failure is the
  error of such an attempt, or that no worker was available, and then the autoscaler is called.\<close>

theorem HandleChat_served:
  assumes "chat_ready env requestID r"
  shows "\<exists>res s gs. HandleChat (env k) requestID req r = Some (res, s, gs) \<and> chat_frame r s \<and>
    (case res of
       Inr resp \<Rightarrow> gs = [] \<and> RequestID resp = requestID \<and>
         (\<exists>i p. i < 3 \<and> serving_ptr r p \<and> answer (env k) requestID req i p = Inr (Reply resp))
     | Inl ErrNoWorkersAvailable \<Rightarrow> gs = scale_up_call r
     | Inl (ErrWorkerFailed e) \<Rightarrow> gs \<in> {[], scale_up_call r} \<and>
         (\<exists>i p. i < 3 \<and> serving_ptr r p \<and> answer (env k) requestID req i p = Inl e)
     | _ \<Rightarrow> False)"
  using HandleChat_served_lemma [OF assms, of k req] by (simp only: chat_result_def)

section \<open>A drain that is lost\<close>

text \<open>A drain that starts while a request runs is undone when the request succeeds: the worker marked as
  draining is healthy and routable again, although the drain goes on to remove it.\<close>

theorem HandleChat_undrains:
  assumes "wf_router r" and "good_env (ce_pick env 0 r) r"
    and "PickWorker (ce_pick env 0 r) r = Some (Inr p, s, g)"
    and "ce_during env 0 p = modify p MarkDraining"
    and "ce_call env 0 p (make_request requestID (Prompt req) (Tier req)) = Inr reply"
  shows "\<exists>t. HandleChat env requestID req r = Some (Inr \<lparr>RequestID = requestID, Reply = reply\<rparr>, t, g) \<and>
    workers t = workers r \<and> isRoutable (deref t p) \<and> activeRequests (deref t p) = activeRequests (deref r p)"
proof -
  have P: "pickWithStrategy (strategy r) (ce_pick env 0 r) r = Some (Inr p, s)"
    using assms(3) by (auto simp: PickWorker_def split: option.splits)
  obtain c where s: "s = r\<lparr>rrCounter := c\<rparr>" using any_picker.frame [OF P] by blast
  have p: "p < length (heap s)" and c: "w_conn (deref s p) \<noteq> NilConn"
    using any_picker.picked_registered [OF assms(1,2) P] by blast+
  let ?u = "AddInFlight (ce_begin env 0) requestID (w_addr (deref s p)) s"
  let ?v = "modify p send_end (modify p MarkDraining (modify p send_begin ?u))"
  have h: "heap (AddInFlight x y z s) = heap s" for x y z by (simp add: AddInFlight_def)
  have c2: "w_conn (deref (modify p send_begin ?u) p) \<noteq> NilConn"
    using c p by (simp add: h deref_def modify_def send_begin_def)
  have S: "send_to env 0 requestID req p s =
      Some (Inr reply, RemoveInFlight (ce_end env 0) requestID ?v)"
    using c2 by (simp add: send_to_def Let_def assms(4,5))
  have e: "chat_loop env requestID 3 0 req None r [] = Some (Inr \<lparr>RequestID = requestID, Reply = reply\<rparr>,
      modify p MarkHealthy (RemoveInFlight (ce_end env 0) requestID ?v), g)"
    using assms(3) S by (simp add: eval_nat_numeral)
  have "workers ?v = workers r" "heap ?v = (heap s)[p := send_end (MarkDraining (send_begin (heap s ! p)))]"
    using p by (simp_all add: s AddInFlight_def modify_def)
  then have "workers (modify p MarkHealthy (RemoveInFlight (ce_end env 0) requestID ?v)) = workers r"
    "isRoutable (deref (modify p MarkHealthy (RemoveInFlight (ce_end env 0) requestID ?v)) p)"
    "activeRequests (deref (modify p MarkHealthy (RemoveInFlight (ce_end env 0) requestID ?v)) p) =
      activeRequests (deref r p)"
    using p by (simp_all add: modify_def RemoveInFlight_def deref_def MarkHealthy_def isRoutable_def
        send_end_def send_begin_def MarkDraining_def s)
  then show ?thesis by (simp add: HandleChat_def e)
qed

section \<open>The accounts of the handler\<close>

lemma retry_loop_result:
  assumes "requestID \<noteq> ''''" and "\<forall>i s. chat_frame r s \<longrightarrow> chat_frame r (pause i s)"
  shows "chat_ready env requestID r \<Longrightarrow> chat_frame r s \<Longrightarrow>
    \<exists>res t gs'. retry_loop env pause requestID req n i s gs = Some (res, t, gs') \<and> chat_frame r t \<and>
      (case res of
         Inr resp \<Rightarrow> RequestID resp = requestID \<and>
           (\<exists>k j p. j < 3 \<and> serving_ptr r p \<and> answer (env k) requestID req j p = Inr (Reply resp)) \<or>
           RequestID resp = ''''
       | Inl err \<Rightarrow> (\<exists>e k j p. err = ErrWorkerFailed e \<and> j < 3 \<and> serving_ptr r p \<and>
           answer (env k) requestID req j p = Inl e))"
proof (induction n arbitrary: i s gs)
  case 0
  then show ?case by (simp add: no_response_def)
next
  case (Suc n)
  obtain res t g where H: "HandleChat (env i) requestID req s = Some (res, t, g)" and f: "chat_frame s t"
    and R: "chat_result (env i) requestID req s res g"
    using HandleChat_served_lemma [OF chat_ready_frame [OF Suc.prems]] by blast
  have rt: "chat_frame r t" using chat_frame_trans [OF Suc.prems(2) f] .
  have sp: "serving_ptr s p = serving_ptr r p" for p using serving_ptr_frame [OF Suc.prems(2)] .
  show ?case
  proof (cases res)
    case (Inr resp)
    with H R rt show ?thesis by (auto simp: chat_result_def sp)
  next
    case (Inl err)
    show ?thesis
    proof (cases "err = ErrNoWorkersAvailable")
      case True
      then show ?thesis
        using H Inl Suc.IH [OF Suc.prems(1) assms(2) [rule_format, OF rt, of i], where i = "Suc i" and gs = "gs @ g"] by simp
    next
      case False
      with H R rt Inl show ?thesis by (cases err) (auto simp: chat_result_def sp)
    qed
  qed
qed

text \<open>How many requests and errors the handler has counted.\<close>

definition counted :: "MetricsCollector \<Rightarrow> MetricsCollector \<Rightarrow> int \<times> int" where
  "counted mc mc' = (totalRequests mc' - totalRequests mc, totalErrors mc' - totalErrors mc)"

lemma counted_records:
  "counted mc (RecordRequest mc) = (1, 0)" "counted mc (RecordError (RecordRequest mc)) = (1, 1)"
  "RecordLatency s (RecordRequest mc) = Some mc' \<Longrightarrow> counted mc mc' = (1, 0)"
  by (auto simp: counted_def RecordRequest_def RecordError_def RecordLatency_def split: option.splits)

lemma http_error_fields [simp]: "hr_status (http_error c m) = c"
  by (simp add: http_error_def)

section \<open>Examples\<close>

text \<open>A first call that times out and a second one that is answered with the prompt.\<close>

definition listed_env :: "Router \<Rightarrow> pick_env" where
  "listed_env r = \<lparr>pe_range = map fst (workers r), pe_range2 = map fst (workers r), pe_intn = \<lambda>_. 0\<rparr>"

lemma good_listed_env: "wf_router r \<Longrightarrow> good_env (listed_env r) r"
  by (simp add: good_env_def listed_env_def enumerates_def wf_router_def)

definition example_chat :: chat_env where
  "example_chat = \<lparr>ce_pick = \<lambda>_. listed_env,
     ce_call = \<lambda>i p m. if i = 0 then Inl ''timeout'' else Inr (pb_Message m),
     ce_during = \<lambda>_ _ r. r, ce_begin = \<lambda>_. 0, ce_end = \<lambda>_. 0\<rparr>"

definition example_request :: ChatRequest where
  "example_request = \<lparr>UserID = ''u'', Prompt = ''hi'', Tier = ''free''\<rparr>"

lemma example_ready: "0 \<le> n \<Longrightarrow> chat_ready (\<lambda>_. example_chat) ''id'' (example_router n)"
  using wf_example [of n] good_listed_env
  by (simp add: chat_ready_def example_chat_def quiet_def known_strategy_def)
    (simp add: example_router_def NewRouter_def flight_of_def NewInFlightStore_def)

lemma example_answer:
  "answer example_chat i example_request j p = (if j = 0 then Inl ''timeout'' else Inr ''hi'')"
  by (simp add: answer_def example_chat_def example_request_def make_request_def)

theorem HandleChat_served_witness:
  "\<exists>res s gs. HandleChat example_chat ''id'' example_request (example_router 1) = Some (res, s, gs) \<and>
     heap s = heap (example_router 1) \<and> InFlightCount s = 0 \<and>
     res \<in> {Inr \<lparr>RequestID = ''id'', Reply = ''hi''\<rparr>, Inl (ErrWorkerFailed ''timeout''), Inl ErrNoWorkersAvailable}"
proof -
  obtain res s gs where H: "HandleChat example_chat ''id'' example_request (example_router 1) = Some (res, s, gs)"
    and f: "chat_frame (example_router 1) s" and R: "case res of
       Inr resp \<Rightarrow> gs = [] \<and> RequestID resp = ''id'' \<and>
         (\<exists>i p. i < 3 \<and> serving_ptr (example_router 1) p \<and> answer example_chat ''id'' example_request i p = Inr (Reply resp))
     | Inl ErrNoWorkersAvailable \<Rightarrow> gs = scale_up_call (example_router 1)
     | Inl (ErrWorkerFailed e) \<Rightarrow> gs \<in> {[], scale_up_call (example_router 1)} \<and>
         (\<exists>i p. i < 3 \<and> serving_ptr (example_router 1) p \<and> answer example_chat ''id'' example_request i p = Inl e)
     | _ \<Rightarrow> False"
    using HandleChat_served [OF example_ready [of 1], where req = example_request] by auto
  have "InFlightCount (example_router 1) = 0"
    by (simp add: example_router_def NewRouter_def InFlightCount_def NewInFlightStore_def Count_def)
  then show ?thesis using H f R
    by (intro exI [of _ res] exI [of _ s] exI [of _ gs])
      (auto simp: chat_frame_def example_answer split: sum.splits go_error.splits if_splits)
qed

definition draining_chat :: chat_env where
  "draining_chat = example_chat\<lparr>ce_call := \<lambda>i p m. Inr (pb_Message m), ce_during := \<lambda>_ p. modify p MarkDraining\<rparr>"

theorem HandleChat_undrains_witness:
  "\<exists>t. HandleChat draining_chat ''id'' example_request (example_router 1) =
     Some (Inr \<lparr>RequestID = ''id'', Reply = ''hi''\<rparr>, t, []) \<and> isRoutable (deref t 2)"
proof -
  have "range_ptrs (example_router 1) (pe_range (listed_env (example_router 1))) = [0, 1, 2]"
    by (simp add: range_ptrs_def listed_env_def) (simp add: example_router_def)
  then have "pickLeastConnections (listed_env (example_router 1)) (example_router 1) = (Inr 2, example_router 1)"
    by (simp add: pickLeastConnections_def deref_example ActiveRequests_def Let_def)
      (simp add: isRoutable_def example_worker_def limits)
  moreover have "strategy (example_router 1) = StrategyLeastConnections"
    by (simp add: example_router_def NewRouter_def)
  ultimately have "PickWorker (ce_pick draining_chat 0 (example_router 1)) (example_router 1) = Some (Inr 2, example_router 1, [])"
    by (simp add: PickWorker_def pickWithStrategy_def draining_chat_def example_chat_def)
  then show ?thesis
    using HandleChat_undrains [OF wf_example [of 1], of draining_chat 2 "example_router 1" "[]" "''id''" example_request "''hi''"] good_listed_env [OF wf_example [of 1]]
    by (auto simp: draining_chat_def example_chat_def example_request_def make_request_def)
qed

definition example_call :: "string \<Rightarrow> chat_call" where
  "example_call m = \<lparr>cc_method = m, cc_body = Some example_request, cc_admit = None, cc_uuid = Inr ''id'',
     cc_env = \<lambda>_. example_chat, cc_pause = \<lambda>_ r. r, cc_elapsed = second\<rparr>"

end
