(* ===== verification/Autoscaler.thy ===== *)
theory Autoscaler
  imports Metrics Admin
begin

text \<open>
  The autoscaler: \<open>master/lib/autoscaler.go\<close>. The environment answers each clock reading, each HTTP
  request and each choice of an iteration order; \<open>steps\<close> counts these interactions, so that the n-th one
  is answered by the environment's functions at n. Reasons are kept as data instead of formatted text,
  and the verbose log is left out. The goroutines started are collected in \<open>started\<close>.
\<close>

section \<open>Configuration and state\<close>

record AutoscalerConfig =
  ScaleUpCooldown :: duration
  ScaleDownCooldown :: duration
  ScaleUpThreshold :: float64
  ScaleDownThreshold :: float64
  ScaleUpSustained :: duration
  ScaleDownSustained :: duration
  TargetUtilization :: float64
  MaxScaleUpStep :: int
  MaxScaleDownStep :: int
  MinWorkers :: int
  MaxWorkers :: int
  RPSTrendThreshold :: float64
  PrewarmWorkers :: int
  ErrorRateCeiling :: float64
  P95LatencyCeiling :: float64
  TickInterval :: duration
  SpawnMaxRetries :: int
  SpawnRetryBackoff :: duration
  AgentFailurePenalty :: duration
  CallbackBaseURL :: string

definition DefaultAutoscalerConfig :: AutoscalerConfig where
  "DefaultAutoscalerConfig =
     \<lparr>ScaleUpCooldown = 3 * second, ScaleDownCooldown = 5 * second,
      ScaleUpThreshold = fl (40/100), ScaleDownThreshold = fl (10/100),
      ScaleUpSustained = 2 * second, ScaleDownSustained = 3 * second, TargetUtilization = fl (50/100),
      MaxScaleUpStep = 10, MaxScaleDownStep = 10, MinWorkers = 1, MaxWorkers = MaxWorkersPerAgent,
      RPSTrendThreshold = 0, PrewarmWorkers = 0, ErrorRateCeiling = 0, P95LatencyCeiling = 0,
      TickInterval = 1 * second, SpawnMaxRetries = 3, SpawnRetryBackoff = 2 * second,
      AgentFailurePenalty = 30 * second, CallbackBaseURL = ''http://localhost:8080''\<rparr>"

record agentHealth =
  consecutiveFailures :: int
  lastFailure :: time
  penalizedUntil :: time

datatype reason_part =
    UtilizationAbove float64 float64
  | P95Above float64 float64
  | QueueAbove float64 int
  | SustainedSince time

datatype reason =
    Text string
  | AgentsWithoutWorkers int
  | PredictiveTrend float64 float64
  | Because "reason_part list"
  | Removing float64 float64 int
  | HighLoadFor float64
  | LowLoadFor float64
  | UpMetrics float64 float64 float64 float64
  | DownMetrics float64 float64 float64 int

record ScalingAction =
  sa_Time :: time
  sa_Action :: string
  sa_Count :: int
  sa_Reason :: reason

record Autoscaler =
  as_cfg :: AutoscalerConfig
  as_router :: Router
  as_metrics :: MetricsCollector
  scalingInOp :: bool
  lastScaleUp :: time
  lastScaleDown :: time
  highLoadSince :: time
  lowLoadSince :: time
  highLoadSet :: bool
  lowLoadSet :: bool
  agent_health :: "(string \<times> agentHealth) list"
  lastDecision :: string
  lastDecisionReason :: reason
  lastDesiredCount :: int
  recentActions :: "ScalingAction list"
  steps :: nat
  started :: "goroutine list"

text \<open>An HTTP exchange: the request failed, or a status and, when the body decodes, \<open>worker_id\<close> and \<open>address\<close>.\<close>

datatype http_resp = HttpError string | HttpStatus int "(string \<times> string) option"

record world =
  clk :: "nat \<Rightarrow> time"
  net :: "nat \<Rightarrow> string \<Rightarrow> http_resp"
  agent_order :: "nat \<Rightarrow> AgentInfo list \<Rightarrow> AgentInfo list"
  worker_order :: "nat \<Rightarrow> nat list \<Rightarrow> nat list"

definition good_world :: "world \<Rightarrow> bool" where
  "good_world wd \<longleftrightarrow> (\<forall>n xs. mset (agent_order wd n xs) = mset xs) \<and>
     (\<forall>n ps. mset (worker_order wd n ps) = mset ps)"

definition NewAutoscaler :: "AutoscalerConfig \<Rightarrow> Router \<Rightarrow> MetricsCollector \<Rightarrow> Autoscaler" where
  "NewAutoscaler cfg router metrics =
     \<lparr>as_cfg = cfg, as_router = router, as_metrics = metrics, scalingInOp = False,
      lastScaleUp = zero_time, lastScaleDown = zero_time, highLoadSince = zero_time,
      lowLoadSince = zero_time, highLoadSet = False, lowLoadSet = False, agent_health = [],
      lastDecision = '''', lastDecisionReason = Text '''', lastDesiredCount = 0, recentActions = [],
      steps = 0, started = []\<rparr>"

section \<open>Interactions with the environment\<close>

definition Now :: "world \<Rightarrow> Autoscaler \<Rightarrow> time \<times> Autoscaler" where
  "Now wd s = (clk wd (steps s), s\<lparr>steps := Suc (steps s)\<rparr>)"

definition post :: "world \<Rightarrow> string \<Rightarrow> Autoscaler \<Rightarrow> http_resp \<times> Autoscaler" where
  "post wd url s = (net wd (steps s) url, s\<lparr>steps := Suc (steps s)\<rparr>)"

definition getAgents :: "world \<Rightarrow> Autoscaler \<Rightarrow> AgentInfo list \<times> Autoscaler" where
  "getAgents wd s = (agent_order wd (steps s) (GetAgents (as_router s)), s\<lparr>steps := Suc (steps s)\<rparr>)"

definition range_workers :: "world \<Rightarrow> Autoscaler \<Rightarrow> nat list \<times> Autoscaler" where
  "range_workers wd s =
     (worker_order wd (steps s) (map snd (workers (as_router s))), s\<lparr>steps := Suc (steps s)\<rparr>)"

definition maxWorkersTotal :: "Autoscaler \<Rightarrow> int" where
  "maxWorkersTotal s =
     (let ags = GetAgents (as_router s) in
      if length ags = 0 then MaxWorkers (as_cfg s)
      else int (length ags) * MaxWorkers (as_cfg s))"

section \<open>Agent health\<close>

definition shift_penalty :: "duration \<Rightarrow> int \<Rightarrow> duration" where
  "shift_penalty base failures = wrap64 (base * wrap64 (2 ^ nat (failures - 1)))"

definition recordAgentFailure :: "world \<Rightarrow> string \<Rightarrow> Autoscaler \<Rightarrow> Autoscaler" where
  "recordAgentFailure wd agentID s =
     (let h = (case map_of (agent_health s) agentID of
            None \<Rightarrow> \<lparr>consecutiveFailures = 0, lastFailure = zero_time, penalizedUntil = zero_time\<rparr>
          | Some h \<Rightarrow> h);
          h = h\<lparr>consecutiveFailures := consecutiveFailures h + 1\<rparr>;
          (t, s) = Now wd s;
          h = h\<lparr>lastFailure := t\<rparr>;
          penalty = shift_penalty (AgentFailurePenalty (as_cfg s)) (consecutiveFailures h);
          penalty = (if 5 * minute < penalty then 5 * minute else penalty);
          (t', s) = Now wd s;
          h = h\<lparr>penalizedUntil := t' + penalty\<rparr>
      in s\<lparr>agent_health := AList.update agentID h (agent_health s)\<rparr>)"

definition resetAgentFailure :: "string \<Rightarrow> Autoscaler \<Rightarrow> Autoscaler" where
  "resetAgentFailure agentID s =
     (case map_of (agent_health s) agentID of
        None \<Rightarrow> s
      | Some h \<Rightarrow> s\<lparr>agent_health := AList.update agentID
          (h\<lparr>consecutiveFailures := 0, penalizedUntil := zero_time\<rparr>) (agent_health s)\<rparr>)"

definition recordScalingAction :: "world \<Rightarrow> string \<Rightarrow> int \<Rightarrow> reason \<Rightarrow> Autoscaler \<Rightarrow> Autoscaler" where
  "recordScalingAction wd action cnt reason s =
     (let (t, s) = Now wd s;
          acts = recentActions s @ [\<lparr>sa_Time = t, sa_Action = action, sa_Count = cnt, sa_Reason = reason\<rparr>]
      in s\<lparr>recentActions := (if 50 < length acts then drop (length acts - 50) acts else acts)\<rparr>)"

section \<open>Choosing an agent\<close>

definition MaxInt32 :: int where "MaxInt32 = 2147483647"

definition penalized :: "(string \<times> agentHealth) list \<Rightarrow> time \<Rightarrow> string \<Rightarrow> bool" where
  "penalized health t agentID \<longleftrightarrow>
     (case map_of health agentID of None \<Rightarrow> False | Some h \<Rightarrow> t < penalizedUntil h)"

fun best_loop :: "(string \<times> agentHealth) list \<Rightarrow> time \<Rightarrow> (string \<times> int) list \<Rightarrow> AgentInfo list \<Rightarrow>
    AgentInfo option \<Rightarrow> int \<Rightarrow> AgentInfo option" where
  "best_loop health t counts [] best bestScore = best"
| "best_loop health t counts (agent # as) best bestScore =
     (if penalized health t (ai_AgentID agent) then best_loop health t counts as best bestScore
      else
        let c = lookup0 counts (ai_AgentID agent) in
        if c < bestScore then best_loop health t counts as (Some agent) c
        else best_loop health t counts as best bestScore)"

definition pickBestAgent :: "world \<Rightarrow> AgentInfo list \<Rightarrow> Autoscaler \<Rightarrow> AgentInfo option \<times> Autoscaler" where
  "pickBestAgent wd ags s =
     (let (t, s) = Now wd s;
          workerCounts = WorkerCountByAgent (as_router s)
      in (best_loop (agent_health s) t workerCounts ags None MaxInt32, s))"

section \<open>Spawning\<close>

definition spawnWorkerOnAgent :: "world \<Rightarrow> string \<Rightarrow> string \<Rightarrow> Autoscaler \<Rightarrow> string option \<times> Autoscaler" where
  "spawnWorkerOnAgent wd agentAddr agentID s =
     (let (resp, s) = post wd (agentAddr @ ''/workers/create'') s in
      case resp of
        HttpError e \<Rightarrow> (Some (''HTTP request failed: '' @ e), s)
      | HttpStatus code body \<Rightarrow>
          if code \<noteq> 200 \<and> code \<noteq> 202 then (Some (''agent returned status '' @ itoa code), s)
          else
            (None, case body of
               Some (workerID, address) \<Rightarrow>
                 if workerID \<noteq> ''''
                 then s\<lparr>as_router := add_fresh (NewStartingWorker workerID address agentID) (as_router s)\<rparr>
                 else s
             | None \<Rightarrow> s))"

fun spawn_attempts :: "world \<Rightarrow> string \<Rightarrow> string \<Rightarrow> nat \<Rightarrow> string option \<Rightarrow> Autoscaler \<Rightarrow>
    bool \<times> string option \<times> Autoscaler" where
  "spawn_attempts wd addr agentID 0 lastErr s = (False, lastErr, s)"
| "spawn_attempts wd addr agentID (Suc n) lastErr s =
     (case spawnWorkerOnAgent wd addr agentID s of
        (None, s) \<Rightarrow> (True, None, s)
      | (Some err, s) \<Rightarrow> spawn_attempts wd addr agentID n (Some err) s)"

definition spawnWorkerWithRetry :: "world \<Rightarrow> AgentInfo \<Rightarrow> Autoscaler \<Rightarrow> string option \<times> Autoscaler" where
  "spawnWorkerWithRetry wd agent s =
     (case spawn_attempts wd (agent_url agent) (ai_AgentID agent) (nat (SpawnMaxRetries (as_cfg s))) None s of
        (True, _, s) \<Rightarrow> (None, s)
      | (False, lastErr, s) \<Rightarrow>
          (Some (''all '' @ itoa (SpawnMaxRetries (as_cfg s)) @ '' spawn attempts failed on agent '' @
             ai_AgentID agent @ '': '' @ (case lastErr of None \<Rightarrow> ''%!w(<nil>)'' | Some e \<Rightarrow> e)), s))"

section \<open>Scaling up\<close>

text \<open>First pass: one worker for every agent without a healthy one. The result is (spawned, remaining).\<close>

fun guarantee_loop :: "world \<Rightarrow> (string \<times> int) list \<Rightarrow> AgentInfo list \<Rightarrow> int \<Rightarrow> int \<Rightarrow> Autoscaler \<Rightarrow>
    int \<times> int \<times> Autoscaler" where
  "guarantee_loop wd byAgent [] spawned remaining s = (spawned, remaining, s)"
| "guarantee_loop wd byAgent (agent # ags) spawned remaining s =
     (if remaining = 0 then (spawned, remaining, s)
      else if lookup0 byAgent (ai_AgentID agent) = 0 then
        (case spawnWorkerWithRetry wd agent s of
           (Some err, s) \<Rightarrow>
             guarantee_loop wd byAgent ags spawned remaining (recordAgentFailure wd (ai_AgentID agent) s)
         | (None, s) \<Rightarrow>
             guarantee_loop wd byAgent ags (spawned + 1) (remaining - 1)
               (resetAgentFailure (ai_AgentID agent) s))
      else guarantee_loop wd byAgent ags spawned remaining s)"

text \<open>Second pass: the rest on the best agents; the first argument counts \<open>remaining - i\<close>.\<close>

fun spawn_loop :: "nat \<Rightarrow> world \<Rightarrow> AgentInfo list \<Rightarrow> int \<Rightarrow> Autoscaler \<Rightarrow> int \<times> Autoscaler" where
  "spawn_loop 0 wd ags spawned s = (spawned, s)"
| "spawn_loop (Suc n) wd ags spawned s =
     (case pickBestAgent wd ags s of
        (None, s) \<Rightarrow> (spawned, s)
      | (Some agent, s) \<Rightarrow>
          (case spawnWorkerWithRetry wd agent s of
             (Some err, s) \<Rightarrow> spawn_loop n wd ags spawned (recordAgentFailure wd (ai_AgentID agent) s)
           | (None, s) \<Rightarrow> spawn_loop n wd ags (spawned + 1) (resetAgentFailure (ai_AgentID agent) s)))"

definition scaleUp_body :: "world \<Rightarrow> int \<Rightarrow> ClusterMetrics \<Rightarrow> Autoscaler \<Rightarrow> Autoscaler" where
  "scaleUp_body wd cnt m s =
     (let (ags, s) = getAgents wd s in
      if length ags = 0 then s
      else
        let (spawned, remaining, s) =
              (if 0 < cnt
               then guarantee_loop wd (HealthyWorkerCountByAgent (as_router s)) ags 0 cnt s
               else (0, cnt, s));
            (spawned, s) = spawn_loop (nat remaining) wd ags spawned s
        in if 0 < spawned
           then recordScalingAction wd ''up'' spawned
                  (UpMetrics (WorkerUtilization m) (RequestsPerSec m) (P95Latency m) (QueueDepth m))
                  (s\<lparr>highLoadSet := False\<rparr>)
           else s)"

definition scaleUp :: "world \<Rightarrow> int \<Rightarrow> ClusterMetrics \<Rightarrow> Autoscaler \<Rightarrow> Autoscaler" where
  "scaleUp wd cnt m s =
     (if scalingInOp s then s
      else
        let s = scaleUp_body wd cnt m (s\<lparr>scalingInOp := True\<rparr>);
            (t, s) = Now wd s;
            s = s\<lparr>lastScaleUp := t\<rparr>
        in s\<lparr>scalingInOp := False\<rparr>)"

section \<open>Choosing workers to drain\<close>

fun healthy_counts :: "Worker list \<Rightarrow> (string \<times> int) list \<Rightarrow> (string \<times> int) list" where
  "healthy_counts [] m = m"
| "healthy_counts (w # ws) m =
     healthy_counts ws (if lifecycle w = StateHealthy then incr (w_agentID w) m else m)"

text \<open>A candidate is a worker pointer with the load it had when it was collected.\<close>

definition drain_candidates :: "Router \<Rightarrow> (string \<times> int) list \<Rightarrow> nat list \<Rightarrow> (nat \<times> int) list" where
  "drain_candidates r healthyPerAgent ps =
     map (\<lambda>p. (p, ActiveRequests (deref r p)))
       (filter (\<lambda>p. lifecycle (deref r p) = StateHealthy \<and>
          \<not> lookup0 healthyPerAgent (w_agentID (deref r p)) \<le> 1) ps)"

text \<open>The final loop also counts down the healthy workers of the chosen worker's agent.\<close>

fun take_candidates :: "Router \<Rightarrow> nat \<Rightarrow> (nat \<times> int) list \<Rightarrow> (string \<times> int) list \<Rightarrow>
    nat list \<times> (string \<times> int) list" where
  "take_candidates r 0 cs m = ([], m)"
| "take_candidates r (Suc n) [] m = ([], m)"
| "take_candidates r (Suc n) ((p, _) # cs) m =
     (let a = w_agentID (deref r p);
          (ps, m) = take_candidates r n cs (AList.update a (lookup0 m a - 1) m)
      in (p # ps, m))"

definition selectDrainCandidatesPerAgent :: "world \<Rightarrow> int \<Rightarrow> Autoscaler \<Rightarrow> (nat list \<times> Autoscaler) option" where
  "selectDrainCandidatesPerAgent wd cnt s =
     (let (ps, s) = range_workers wd s;
          healthyPerAgent = healthy_counts (map (deref (as_router s)) ps) [];
          (ps, s) = range_workers wd s;
          candidates = drain_candidates (as_router s) healthyPerAgent ps;
          candidates = insertion_sort snd candidates
      in if cnt < 0 then None
         else Some (fst (take_candidates (as_router s) (nat cnt) candidates healthyPerAgent), s))"

definition selectDrainCandidates :: "world \<Rightarrow> int \<Rightarrow> Autoscaler \<Rightarrow> (nat list \<times> Autoscaler) option" where
  "selectDrainCandidates wd cnt s =
     (let (ps, s) = range_workers wd s;
          candidates = map (\<lambda>p. (p, ActiveRequests (deref (as_router s) p)))
            (filter (\<lambda>p. lifecycle (deref (as_router s) p) = StateHealthy) ps);
          candidates = insertion_sort snd candidates
      in if cnt < 0 then None else Some (map fst (take (nat cnt) candidates), s))"

section \<open>Scaling down\<close>

definition scaleDown :: "world \<Rightarrow> int \<Rightarrow> ClusterMetrics \<Rightarrow> Autoscaler \<Rightarrow> Autoscaler option" where
  "scaleDown wd cnt m s =
     (if scalingInOp s then Some s
      else case selectDrainCandidatesPerAgent wd cnt (s\<lparr>scalingInOp := True\<rparr>) of
        None \<Rightarrow> None
      | Some (candidates, s) \<Rightarrow>
          let s = s\<lparr>started := started s @ map GoDrain candidates\<rparr>;
              drained = int (length candidates);
              s = (if 0 < drained then
                     let (t, s) = Now wd s
                     in recordScalingAction wd ''down'' drained
                          (DownMetrics (WorkerUtilization m) (RequestsPerSec m) (QueueDepth m) (HealthyWorkers m))
                          (s\<lparr>lastScaleDown := t, lowLoadSet := False\<rparr>)
                   else s)
          in Some (s\<lparr>scalingInOp := False\<rparr>))"

section \<open>Evaluating the load\<close>

definition queue_size :: "ClusterMetrics \<Rightarrow> int" where
  "queue_size m = (if QueueSize m = 0 then int_of_float (QueueDepth m) else QueueSize m)"

definition evaluateScaleUp :: "ClusterMetrics \<Rightarrow> Autoscaler \<Rightarrow> bool \<times> int" where
  "evaluateScaleUp m s =
     (let queueSize = queue_size m;
          maxWorkers = maxWorkersTotal s
      in if 0 < maxWorkers \<and> maxWorkers \<le> TotalWorkers m then (False, 0)
      else if 0 < queueSize then
        let targetWorkers = TotalWorkers m + queueSize sdiv 5;
            targetWorkers = (if targetWorkers < 1 then 1 else targetWorkers);
            targetWorkers = (if 0 < maxWorkers \<and> maxWorkers < targetWorkers then maxWorkers else targetWorkers);
            needed = targetWorkers - TotalWorkers m
        in if 0 < needed
           then (True, if MaxScaleUpStep (as_cfg s) < needed then MaxScaleUpStep (as_cfg s) else needed)
           else (False, 0)
      else (False, 0))"

definition evaluateScaleDown :: "world \<Rightarrow> ClusterMetrics \<Rightarrow> Autoscaler \<Rightarrow> (bool \<times> int) \<times> Autoscaler" where
  "evaluateScaleDown wd m s =
     (let excess = TotalWorkers m - MinWorkers (as_cfg s) in
      if QueueSize m = 0 \<and> m_InFlight m = 0 \<and> 0 < excess then
        let s = (if IsZero (lowLoadSince s)
                 then let (t, s) = Now wd s in s\<lparr>lowLoadSince := t\<rparr> else s);
            (t, s) = Now wd s
        in if time_sub t (lowLoadSince s) < 5 * second then ((False, 0), s)
           else ((True, if MaxScaleDownStep (as_cfg s) < excess then MaxScaleDownStep (as_cfg s) else excess), s)
      else ((False, 0), s\<lparr>lowLoadSince := zero_time\<rparr>))"

definition calculateScaleDownCount :: "ClusterMetrics \<Rightarrow> Autoscaler \<Rightarrow> int" where
  "calculateScaleDownCount m s =
     (if HealthyWorkers m \<le> MinWorkers (as_cfg s) then 0
      else
        let currentLoad = fmul (WorkerUtilization m) (float_of_int (HealthyWorkers m));
            desiredWorkers = \<lceil>fdiv currentLoad (TargetUtilization (as_cfg s))\<rceil>;
            desiredWorkers = (if desiredWorkers < MinWorkers (as_cfg s) then MinWorkers (as_cfg s) else desiredWorkers);
            excess = HealthyWorkers m - desiredWorkers
        in if excess < 0 then 0 else excess)"

section \<open>The control loop\<close>

definition collect_metrics :: "world \<Rightarrow> Autoscaler \<Rightarrow> (ClusterMetrics \<times> Autoscaler) option" where
  "collect_metrics wd s =
     (let (t, s) = Now wd s in
      case Collect t (as_router s) (as_metrics s) of
        None \<Rightarrow> None
      | Some (m, mc) \<Rightarrow> Some (m, s\<lparr>as_metrics := mc\<rparr>))"

definition TriggerScaleUp :: "world \<Rightarrow> Autoscaler \<Rightarrow> Autoscaler option" where
  "TriggerScaleUp wd s =
     (case collect_metrics wd s of
        None \<Rightarrow> None
      | Some (m, s) \<Rightarrow>
          let s = s\<lparr>lastScaleUp := zero_time\<rparr>;
              queueSize = queue_size m;
              targetWorkers = HealthyWorkers m + queueSize sdiv 3;
              targetWorkers = (if targetWorkers < 1 then 1 else targetWorkers);
              maxWorkers = maxWorkersTotal s;
              targetWorkers = (if 0 < maxWorkers \<and> maxWorkers < targetWorkers then maxWorkers else targetWorkers);
              needed = targetWorkers - TotalWorkers m
          in if needed \<le> 0 then Some s
             else Some (scaleUp wd (if MaxScaleUpStep (as_cfg s) < needed then MaxScaleUpStep (as_cfg s) else needed) m s))"

definition decide :: "string \<Rightarrow> reason \<Rightarrow> int \<Rightarrow> Autoscaler \<Rightarrow> Autoscaler" where
  "decide d why n s = s\<lparr>lastDecision := d, lastDecisionReason := why, lastDesiredCount := n\<rparr>"

definition bootstrap :: "world \<Rightarrow> ClusterMetrics \<Rightarrow> Autoscaler \<Rightarrow> Autoscaler" where
  "bootstrap wd m s =
     (let (ags, s) = getAgents wd s in
      if 0 < length ags \<and> 0 < MinWorkers (as_cfg s) then
        let s = fold (\<lambda>a. resetAgentFailure (ai_AgentID a)) ags s;
            s = s\<lparr>lastScaleUp := zero_time\<rparr>;
            s = decide ''scale_up'' (Text ''bootstrapping: no workers available'') (MinWorkers (as_cfg s)) s
        in scaleUp wd (MinWorkers (as_cfg s)) m s
      else if length ags = 0 then
        s\<lparr>lastDecision := ''none'', lastDecisionReason := Text ''no agents registered''\<rparr>
      else s)"

definition missing_agents :: "AgentInfo list \<Rightarrow> Router \<Rightarrow> int" where
  "missing_agents ags r =
     int (length (filter (\<lambda>a. lookup0 (HealthyWorkerCountByAgent r) (ai_AgentID a) = 0) ags))"

definition scale_up_reasons :: "ClusterMetrics \<Rightarrow> Autoscaler \<Rightarrow> reason_part list" where
  "scale_up_reasons m s =
     (let reasons =
        (if ScaleUpThreshold (as_cfg s) < WorkerUtilization m
         then [UtilizationAbove (WorkerUtilization m) (ScaleUpThreshold (as_cfg s))] else []) @
        (if P95LatencyCeiling (as_cfg s) < P95Latency m
         then [P95Above (P95Latency m) (P95LatencyCeiling (as_cfg s))] else []) @
        (if float_of_int (HealthyWorkers m) < QueueDepth m
         then [QueueAbove (QueueDepth m) (HealthyWorkers m)] else [])
      in if reasons = [] then [SustainedSince (highLoadSince s)] else reasons)"

text \<open>The last branch of \<open>tick\<close>: only the displayed reason changes.\<close>

definition explain_none :: "world \<Rightarrow> Autoscaler \<Rightarrow> Autoscaler" where
  "explain_none wd s =
     (let s = (if highLoadSet s then
                 let (t, s) = Now wd s;
                     remaining = ScaleUpSustained (as_cfg s) - time_sub t (highLoadSince s)
                 in if 0 < remaining then s\<lparr>lastDecisionReason := HighLoadFor (Seconds remaining)\<rparr> else s
               else s)
      in if lowLoadSet s then
           let (t, s) = Now wd s;
               remaining = ScaleDownSustained (as_cfg s) - time_sub t (lowLoadSince s)
           in if 0 < remaining then s\<lparr>lastDecisionReason := LowLoadFor (Seconds remaining)\<rparr> else s
         else s)"

definition act :: "world \<Rightarrow> ClusterMetrics \<Rightarrow> Autoscaler \<Rightarrow> Autoscaler option" where
  "act wd m s =
     (let (scaleUpNeeded, scaleUpCount) = evaluateScaleUp m s;
          ((scaleDownNeeded, scaleDownCount), s) = evaluateScaleDown wd m s;
          predictive = (\<not> scaleUpNeeded \<and> RPSTrendThreshold (as_cfg s) < RPSTrend m);
          s = (if predictive
               then decide ''scale_up'' (PredictiveTrend (RPSTrend m) (RPSTrendThreshold (as_cfg s)))
                      (PrewarmWorkers (as_cfg s)) s
               else s);
          (scaleUpNeeded, scaleUpCount) =
            (if predictive then (True, PrewarmWorkers (as_cfg s)) else (scaleUpNeeded, scaleUpCount))
      in if scaleUpNeeded then
           Some (scaleUp wd scaleUpCount m
             (decide ''scale_up'' (Because (scale_up_reasons m s)) scaleUpCount s))
         else if scaleDownNeeded then
           scaleDown wd scaleDownCount m
             (decide ''scale_down'' (Removing (WorkerUtilization m) (ScaleDownThreshold (as_cfg s)) scaleDownCount)
                (HealthyWorkers m - scaleDownCount) s)
         else Some (explain_none wd s))"

definition tick :: "world \<Rightarrow> Autoscaler \<Rightarrow> Autoscaler option" where
  "tick wd s =
     (case collect_metrics wd s of
        None \<Rightarrow> None
      | Some (m, s) \<Rightarrow>
          let s = decide ''none'' (Text ''metrics normal'') (HealthyWorkers m) s in
          if HealthyWorkers m = 0 \<and> TotalWorkers m = 0 then Some (bootstrap wd m s)
          else
            let (ags, s) = getAgents wd s;
                missing = (if 0 < length ags then missing_agents ags (as_router s) else 0)
            in if 0 < missing then
                 Some (scaleUp wd missing m (decide ''scale_up'' (AgentsWithoutWorkers missing) missing s))
               else act wd m s)"

text \<open>\<open>Run\<close> sleeps and ticks for ever; \<open>run_ticks n\<close> is its first \<open>n\<close> rounds.\<close>

fun run_ticks :: "world \<Rightarrow> nat \<Rightarrow> Autoscaler \<Rightarrow> Autoscaler option" where
  "run_ticks wd 0 s = Some s"
| "run_ticks wd (Suc n) s = (case tick wd s of None \<Rightarrow> None | Some s \<Rightarrow> run_ticks wd n s)"

section \<open>Snapshot\<close>

record AutoscalerSnapshot =
  snap_Config :: AutoscalerConfig
  snap_Metrics :: ClusterMetrics
  snap_ScalingInOp :: bool
  snap_LastScaleUp :: time
  snap_LastScaleDown :: time
  snap_HighLoadSince :: time
  snap_LowLoadSince :: time
  snap_HighLoadSet :: bool
  snap_LowLoadSet :: bool
  snap_AgentHealth :: "(string \<times> agentHealth) list"
  snap_ScalingDecision :: string
  snap_DecisionReason :: reason
  snap_DesiredWorkers :: int
  snap_CooldownRemaining :: duration
  snap_RecentActions :: "ScalingAction list"

definition cooldown_remaining :: "time \<Rightarrow> Autoscaler \<Rightarrow> duration" where
  "cooldown_remaining t s =
     (if lastDecision s = ''scale_up'' then
        (if \<not> IsZero (lastScaleUp s)
         then let remaining = ScaleUpCooldown (as_cfg s) - time_sub t (lastScaleUp s)
              in if 0 < remaining then remaining else 0
         else 0)
      else if lastDecision s = ''scale_down'' then
        (if \<not> IsZero (lastScaleDown s)
         then let remaining = ScaleDownCooldown (as_cfg s) - time_sub t (lastScaleDown s)
              in if 0 < remaining then remaining else 0
         else 0)
      else 0)"

definition AS_Snapshot :: "world \<Rightarrow> Autoscaler \<Rightarrow> AutoscalerSnapshot \<times> Autoscaler" where
  "AS_Snapshot wd s =
     (let m = MC_Snapshot (as_metrics s);
          (t, s) = Now wd s
      in (\<lparr>snap_Config = as_cfg s, snap_Metrics = m, snap_ScalingInOp = scalingInOp s,
           snap_LastScaleUp = lastScaleUp s, snap_LastScaleDown = lastScaleDown s,
           snap_HighLoadSince = highLoadSince s, snap_LowLoadSince = lowLoadSince s,
           snap_HighLoadSet = highLoadSet s, snap_LowLoadSet = lowLoadSet s,
           snap_AgentHealth = agent_health s, snap_ScalingDecision = lastDecision s,
           snap_DecisionReason = lastDecisionReason s, snap_DesiredWorkers = lastDesiredCount s,
           snap_CooldownRemaining = cooldown_remaining t s, snap_RecentActions = recentActions s\<rparr>, s))"

end
