(* ===== verification/Scaling.thy ===== *)
theory Scaling
  imports Autoscaler
begin

text \<open>
  What the autoscaler of theory \<open>Autoscaler\<close> guarantees: the bounds of its decisions, the choice of
  agents and of workers to drain, the escalation of penalties, and the frame of a control step.
\<close>

section \<open>Decisions\<close>

lemma sdiv_pos: "0 \<le> a \<Longrightarrow> 0 < b \<Longrightarrow> a sdiv b = (a :: int) div b"
  by (simp add: signed_divide_int_def sgn_if)

lemma evaluateScaleUp_bounds_lemma:
  assumes "0 < MaxScaleUpStep (as_cfg s)" and "0 \<le> TotalWorkers m" and "evaluateScaleUp m s = (b, n)"
  shows "(b \<longrightarrow> 0 < queue_size m \<and> 1 \<le> n \<and> n \<le> MaxScaleUpStep (as_cfg s) \<and>
      n \<le> max 1 (queue_size m div 5) \<and>
      (0 < maxWorkersTotal s \<longrightarrow> TotalWorkers m + n \<le> maxWorkersTotal s)) \<and>
    (\<not> b \<longrightarrow> n = 0) \<and>
    (5 \<le> queue_size m \<and> (TotalWorkers m < maxWorkersTotal s \<or> maxWorkersTotal s \<le> 0) \<longrightarrow> b)"
proof -
  have d: "queue_size m sdiv 5 = queue_size m div 5" if "0 < queue_size m"
    using that by (simp add: sdiv_pos)
  have q: "1 \<le> queue_size m div 5" if "5 \<le> queue_size m"
    using that zdiv_mono1 [of 5 "queue_size m" 5] by simp
  have q0: "0 \<le> queue_size m div 5" if "0 < queue_size m" using that by simp
  show ?thesis
    using assms d q q0 by (auto simp: evaluateScaleUp_def Let_def split: if_splits)
qed

text \<open>C29. The scale-up decision: it asks for workers only if the queue is not empty and the cluster is below
  its limit; then it asks for a fifth of the queue, and never for more than the configured step or
  than the limit leaves room for. With room and a queue of at least five it always asks.\<close>

theorem evaluateScaleUp_bounds:
  assumes "0 < MaxScaleUpStep (as_cfg s)" and "0 \<le> TotalWorkers m" and "evaluateScaleUp m s = (b, n)"
  shows "(b \<longrightarrow> 0 < queue_size m \<and> 1 \<le> n \<and> n \<le> MaxScaleUpStep (as_cfg s) \<and>
      n \<le> max 1 (queue_size m div 5) \<and>
      (0 < maxWorkersTotal s \<longrightarrow> TotalWorkers m + n \<le> maxWorkersTotal s)) \<and>
    (\<not> b \<longrightarrow> n = 0) \<and>
    (5 \<le> queue_size m \<and> (TotalWorkers m < maxWorkersTotal s \<or> maxWorkersTotal s \<le> 0) \<longrightarrow> b)"
  by (rule evaluateScaleUp_bounds_lemma [OF assms])

definition example_scaler :: Autoscaler where
  "example_scaler = NewAutoscaler DefaultAutoscalerConfig
     ((example_router 1)\<lparr>agents := [(''agent'', \<lparr>ai_AgentID = ''agent'', ai_Host = ''10.0.0.1'', ai_Port = 9000, ai_AddedAt = 1\<rparr>)]\<rparr>)
     (example_metrics 0)"

lemma example_scaler_fields [simp]:
  "as_cfg example_scaler = DefaultAutoscalerConfig" "scalingInOp example_scaler = False"
  "lowLoadSince example_scaler = 0" "steps example_scaler = 0" "maxWorkersTotal example_scaler = 20"
  by (simp_all add: example_scaler_def NewAutoscaler_def zero_time_def maxWorkersTotal_def GetAgents_def
      DefaultAutoscalerConfig_def limits)

lemma default_fields [simp]:
  "MaxScaleUpStep DefaultAutoscalerConfig = 10" "MaxScaleDownStep DefaultAutoscalerConfig = 10"
  "MinWorkers DefaultAutoscalerConfig = 1" "PrewarmWorkers DefaultAutoscalerConfig = 0"
  "RPSTrendThreshold DefaultAutoscalerConfig = 0" "AgentFailurePenalty DefaultAutoscalerConfig = 30 * second"
  "SpawnMaxRetries DefaultAutoscalerConfig = 3"
  by (simp_all add: DefaultAutoscalerConfig_def)

theorem evaluateScaleUp_bounds_witness:
  "fst (evaluateScaleUp (zero_metrics\<lparr>QueueSize := 23, TotalWorkers := 18\<rparr>) example_scaler) \<and>
   18 + snd (evaluateScaleUp (zero_metrics\<lparr>QueueSize := 23, TotalWorkers := 18\<rparr>) example_scaler) \<le> 20"
proof -
  let ?m = "zero_metrics\<lparr>QueueSize := 23, TotalWorkers := 18\<rparr>"
  obtain b n where e: "evaluateScaleUp ?m example_scaler = (b, n)" by (cases "evaluateScaleUp ?m example_scaler")
  have "queue_size ?m = 23" "TotalWorkers ?m = 18" by (simp_all add: queue_size_def)
  with evaluateScaleUp_bounds [OF _ _ e] e show ?thesis by simp
qed

lemma evaluateScaleDown_sound_lemma:
  assumes "0 < MaxScaleDownStep (as_cfg s)" and "0 < clk wd (steps s)"
  shows "(case evaluateScaleDown wd m s of ((b, n), s') \<Rightarrow>
    (b \<longrightarrow> QueueSize m = 0 \<and> m_InFlight m = 0 \<and> 1 \<le> n \<and> n \<le> MaxScaleDownStep (as_cfg s) \<and>
      MinWorkers (as_cfg s) \<le> TotalWorkers m - n \<and>
      (\<exists>t. lowLoadSince s' + 5 * second \<le> t \<and> (t = clk wd (steps s) \<or> t = clk wd (Suc (steps s))))) \<and>
    (\<not> b \<longrightarrow> n = 0) \<and>
    (if QueueSize m = 0 \<and> m_InFlight m = 0 \<and> MinWorkers (as_cfg s) < TotalWorkers m
     then lowLoadSince s' = (if lowLoadSince s = 0 then clk wd (steps s) else lowLoadSince s)
     else lowLoadSince s' = 0 \<and> \<not> b))"
proof -
  have sub: "u + 5 * second \<le> t" if "\<not> time_sub t u < 5 * second" for t u
    using that time_sub_less_iff [of "5 * second" t u]
    by (auto simp: second_def min_duration_def max_duration_def)
  show ?thesis
    using assms by (auto simp: evaluateScaleDown_def Let_def Now_def IsZero_def zero_time_def
        dest!: sub split: if_splits)
qed

text \<open>The scale-down decision: workers are given up only when nothing is queued or in flight, the idle
  timer has been running for at least five seconds, and at least the minimum stays. Any evaluation that
  finds work, or no excess, clears the timer, and the first idle one starts it.\<close>

theorem evaluateScaleDown_sound:
  assumes "0 < MaxScaleDownStep (as_cfg s)" and "0 < clk wd (steps s)"
  shows "(case evaluateScaleDown wd m s of ((b, n), s') \<Rightarrow>
    (b \<longrightarrow> QueueSize m = 0 \<and> m_InFlight m = 0 \<and> 1 \<le> n \<and> n \<le> MaxScaleDownStep (as_cfg s) \<and>
      MinWorkers (as_cfg s) \<le> TotalWorkers m - n \<and>
      (\<exists>t. lowLoadSince s' + 5 * second \<le> t \<and> (t = clk wd (steps s) \<or> t = clk wd (Suc (steps s))))) \<and>
    (\<not> b \<longrightarrow> n = 0) \<and>
    (if QueueSize m = 0 \<and> m_InFlight m = 0 \<and> MinWorkers (as_cfg s) < TotalWorkers m
     then lowLoadSince s' = (if lowLoadSince s = 0 then clk wd (steps s) else lowLoadSince s)
     else lowLoadSince s' = 0 \<and> \<not> b))"
  by (rule evaluateScaleDown_sound_lemma [OF assms])

definition example_world :: world where
  "example_world = \<lparr>clk = \<lambda>n. (int n + 1) * second, net = \<lambda>n url. HttpStatus 202 None,
     agent_order = \<lambda>n xs. xs, worker_order = \<lambda>n ps. ps\<rparr>"

theorem evaluateScaleDown_sound_witness:
  "fst (evaluateScaleDown example_world (zero_metrics\<lparr>TotalWorkers := 3\<rparr>) (example_scaler\<lparr>lowLoadSince := 1, steps := 9\<rparr>)) = (True, 2) \<and>
   lowLoadSince (snd (evaluateScaleDown example_world (zero_metrics\<lparr>TotalWorkers := 3\<rparr>) (example_scaler\<lparr>lowLoadSince := 1, steps := 9\<rparr>))) = 1"
proof -
  let ?s = "example_scaler\<lparr>lowLoadSince := 1, steps := 9\<rparr>" and ?m = "zero_metrics\<lparr>TotalWorkers := 3\<rparr>"
  have "fst (evaluateScaleDown example_world ?m ?s) = (True, 2)"
    by (simp add: evaluateScaleDown_def zero_metrics_def Now_def IsZero_def zero_time_def example_world_def
        time_sub_def second_def max_duration_def min_duration_def)
  moreover have "lowLoadSince (snd (evaluateScaleDown example_world ?m ?s)) = 1"
    using evaluateScaleDown_sound [of ?s example_world ?m]
    by (simp add: zero_metrics_def example_world_def second_def split_beta)
  ultimately show ?thesis by simp
qed

section \<open>Choosing an agent\<close>

definition workers_on :: "Router \<Rightarrow> string \<Rightarrow> int" where
  "workers_on r a = int (length (filter (\<lambda>w. w_agentID w = a) (registered r)))"

lemma workers_on_le: "workers_on r a \<le> WorkerCount r"
  by (simp add: workers_on_def WorkerCount_eq)

lemma best_loop_spec:
  assumes "best_loop health t counts ags best score = res"
    and "best = None \<Longrightarrow> \<forall>a \<in> set ags. lookup0 counts (ai_AgentID a) < score"
    and "\<And>b. best = Some b \<Longrightarrow> score = lookup0 counts (ai_AgentID b)"
  shows "(case res of
      None \<Rightarrow> best = None \<and> (\<forall>a \<in> set ags. penalized health t (ai_AgentID a))
    | Some a \<Rightarrow> (best = Some a \<or> a \<in> set ags \<and> \<not> penalized health t (ai_AgentID a)) \<and>
        lookup0 counts (ai_AgentID a) \<le> score \<and>
        (\<forall>b \<in> set ags. \<not> penalized health t (ai_AgentID b) \<longrightarrow>
          lookup0 counts (ai_AgentID a) \<le> lookup0 counts (ai_AgentID b)))"
  using assms
proof (induction ags arbitrary: best score)
  case Nil
  then show ?case by (auto split: option.split)
next
  case (Cons a ags)
  show ?case
  proof (cases "penalized health t (ai_AgentID a)")
    case True
    with Cons.prems Cons.IH [of best score] show ?thesis by (auto split: option.splits)
  next
    case P: False
    show ?thesis
    proof (cases "lookup0 counts (ai_AgentID a) < score")
      case True
      with P Cons.prems(1) have "best_loop health t counts ags (Some a) (lookup0 counts (ai_AgentID a)) = res"
        by simp
      note IH = Cons.IH [OF this]
      show ?thesis
        using P True by (cases res) (use IH in fastforce)+
    next
      case False
      with Cons.prems(2) have b: "best \<noteq> None" by auto
      from False P Cons.prems(1) have "best_loop health t counts ags best score = res" by simp
      note IH = Cons.IH [OF this _ Cons.prems(3)]
      show ?thesis
        using P False b by (cases res) (use IH in fastforce)+
    qed
  qed
qed

text \<open>C30. A new worker goes to an agent that is not penalized and hosts as few workers as any agent that is
  not; no agent is chosen exactly when all are penalized.\<close>

theorem pickBestAgent_least_loaded:
  assumes "\<forall>a \<in> set ags. ai_AgentID a \<noteq> ''''" and "WorkerCount (as_router s) < MaxInt32"
  shows "(case fst (pickBestAgent wd ags s) of
      None \<Rightarrow> \<forall>a \<in> set ags. penalized (agent_health s) (clk wd (steps s)) (ai_AgentID a)
    | Some a \<Rightarrow> a \<in> set ags \<and> \<not> penalized (agent_health s) (clk wd (steps s)) (ai_AgentID a) \<and>
        (\<forall>b \<in> set ags. \<not> penalized (agent_health s) (clk wd (steps s)) (ai_AgentID b) \<longrightarrow>
          workers_on (as_router s) (ai_AgentID a) \<le> workers_on (as_router s) (ai_AgentID b)))"
proof -
  let ?c = "WorkerCountByAgent (as_router s)" and ?t = "clk wd (steps s)"
  have c: "lookup0 ?c (ai_AgentID a) = workers_on (as_router s) (ai_AgentID a)" if "a \<in> set ags" for a
    using assms(1) that by (simp add: WorkerCountByAgent_eq workers_on_def)
  have lt: "\<forall>a \<in> set ags. lookup0 ?c (ai_AgentID a) < MaxInt32"
    using c assms(2) workers_on_le order_le_less_trans by fastforce
  have "fst (pickBestAgent wd ags s) = best_loop (agent_health s) ?t ?c ags None MaxInt32"
    by (simp add: pickBestAgent_def Now_def Let_def)
  from best_loop_spec [OF this [symmetric]] lt c show ?thesis by (fastforce split: option.splits)
qed

theorem pickBestAgent_least_loaded_witness:
  "\<exists>a. fst (pickBestAgent example_world (GetAgents (as_router example_scaler)) example_scaler) = Some a"
proof -
  let ?ags = "GetAgents (as_router example_scaler)"
  have "\<forall>a \<in> set ?ags. ai_AgentID a \<noteq> ''''" "?ags \<noteq> []" "agent_health example_scaler = []"
    "WorkerCount (as_router example_scaler) < MaxInt32"
    by (simp_all add: example_scaler_def NewAutoscaler_def GetAgents_def WorkerCount_def example_router_def MaxInt32_def)
  then show ?thesis
    using pickBestAgent_least_loaded [of ?ags example_scaler example_world]
    by (auto simp: penalized_def split: option.splits)
qed

section \<open>Penalties\<close>

definition failures :: "string \<Rightarrow> Autoscaler \<Rightarrow> int" where
  "failures a s = (case map_of (agent_health s) a of None \<Rightarrow> 0 | Some h \<Rightarrow> consecutiveFailures h)"

definition penalty_after :: "duration \<Rightarrow> int \<Rightarrow> duration" where
  "penalty_after base n = min (shift_penalty base n) (5 * minute)"

lemma recordAgentFailure_health:
  "map_of (agent_health (recordAgentFailure wd a s)) = (map_of (agent_health s))
     (a \<mapsto> \<lparr>consecutiveFailures = failures a s + 1, lastFailure = clk wd (steps s),
           penalizedUntil = clk wd (Suc (steps s)) + penalty_after (AgentFailurePenalty (as_cfg s)) (failures a s + 1)\<rparr>)"
  by (cases "map_of (agent_health s) a")
    (auto simp: recordAgentFailure_def Now_def Let_def failures_def penalty_after_def min_def)

lemma shift_penalty_exact:
  assumes "1 \<le> n" and "n \<le> 29"
  shows "shift_penalty (30 * second) n = 30 * second * 2 ^ nat (n - 1)"
proof -
  have p: "(2::int) ^ nat (n - 1) \<le> 2 ^ 28" using assms by (intro power_increasing) auto
  moreover have "- (2 ^ 63) \<le> (2::int) ^ nat (n - 1)" by (rule order_trans [of _ 0]) simp_all
  ultimately have u: "wrap64 (2 ^ nat (n - 1)) = 2 ^ nat (n - 1)" by (intro wrap64_id) simp_all
  have "30 * second * 2 ^ nat (n - 1) \<le> 30 * second * 2 ^ 28"
    using p by (intro mult_left_mono) (auto simp: second_def)
  moreover have "- (2 ^ 63) \<le> 30 * second * 2 ^ nat (n - 1)"
    by (rule order_trans [of _ 0]) (simp_all add: second_def)
  ultimately have w: "wrap64 (30 * second * 2 ^ nat (n - 1)) = 30 * second * 2 ^ nat (n - 1)"
    by (intro wrap64_id) (auto simp: second_def)
  show ?thesis using u w by (simp add: shift_penalty_def)
qed

text \<open>With the default penalty of 30 s, the n-th failure in a row keeps an agent out for
  30 s * 2^(n-1), at most five minutes, as long as n is at most 29; a success clears the record.\<close>

theorem penalty_escalates:
  assumes "AgentFailurePenalty (as_cfg s) = 30 * second" and "0 \<le> failures a s" and "failures a s \<le> 28"
  shows "(\<forall>t. penalized (agent_health (recordAgentFailure wd a s)) t a \<longleftrightarrow>
      t < clk wd (Suc (steps s)) + min (30 * second * 2 ^ nat (failures a s)) (5 * minute)) \<and>
    failures a (recordAgentFailure wd a s) = failures a s + 1 \<and>
    failures a (resetAgentFailure a (recordAgentFailure wd a s)) = 0 \<and>
    (\<forall>t \<ge> 0. \<not> penalized (agent_health (resetAgentFailure a (recordAgentFailure wd a s))) t a)"
  using shift_penalty_exact [of "failures a s + 1"] assms
  by (simp add: penalized_def recordAgentFailure_health penalty_after_def)
    (auto simp: failures_def resetAgentFailure_def recordAgentFailure_health zero_time_def split: option.splits)

theorem penalty_escalates_witness:
  "penalized (agent_health (recordAgentFailure example_world ''agent'' example_scaler)) second ''agent''"
  using penalty_escalates [of example_scaler "''agent''" example_world]
  by (simp add: failures_def example_world_def time_units)
    (simp add: example_scaler_def NewAutoscaler_def)

text \<open>C31. The escalation does not last: the 30th failure in a row overflows the 64-bit duration to a negative
  penalty, which lies in the past, and from the 55th on the penalty is 0, so an agent that
  has been failing for long is not penalized at all.\<close>

theorem penalty_overflow:
  assumes "AgentFailurePenalty (as_cfg s) = 30 * second"
    and "failures a s = 29 \<or> 54 \<le> failures a s" and "clk wd (Suc (steps s)) \<le> t"
  shows "\<not> penalized (agent_health (recordAgentFailure wd a s)) t a"
proof -
  have "shift_penalty (30 * second) (failures a s + 1) \<le> 0"
  proof (cases "failures a s = 29")
    case True
    have "nat (29 + 1 - 1) = 29" by simp
    then show ?thesis
      unfolding True shift_penalty_def wrap64_mult by (simp only:) (simp add: wrap64_def second_def)
  next
    case False
    then have "\<exists>k. nat (failures a s + 1 - 1) = 54 + k"
      using assms(2) by (intro le_Suc_ex) simp
    then obtain k where k: "nat (failures a s + 1 - 1) = 54 + k" by blast
    have "30 * second * 2 ^ (54 + k) = 2 ^ 64 * (29296875 * 2 ^ k)" by (simp add: second_def power_add)
    then show ?thesis by (simp only: shift_penalty_def wrap64_mult k wrap64_multiple)
  qed
  then have "penalty_after (AgentFailurePenalty (as_cfg s)) (failures a s + 1) \<le> 0"
    by (simp add: assms(1) penalty_after_def)
  with assms(3) show ?thesis by (simp add: penalized_def recordAgentFailure_health)
qed

definition failing_scaler :: Autoscaler where
  "failing_scaler = example_scaler\<lparr>agent_health :=
     [(''agent'', \<lparr>consecutiveFailures = 29, lastFailure = 0, penalizedUntil = 0\<rparr>)]\<rparr>"

theorem penalty_overflow_witness:
  "\<not> penalized (agent_health (recordAgentFailure example_world ''agent'' failing_scaler)) (2 * second) ''agent''"
  using penalty_overflow [of failing_scaler "''agent''" example_world "2 * second"]
  by (simp add: failing_scaler_def failures_def example_world_def second_def)

section \<open>Choosing workers to drain\<close>

definition healthy_on :: "Router \<Rightarrow> string \<Rightarrow> nat" where
  "healthy_on r a = length (filter (\<lambda>w. isRoutable w \<and> w_agentID w = a) (registered r))"

definition eligible :: "Router \<Rightarrow> nat list" where
  "eligible r = filter (\<lambda>p. isRoutable (deref r p) \<and> 2 \<le> healthy_on r (w_agentID (deref r p))) (map snd (workers r))"

lemma lookup0_healthy_counts:
  "lookup0 (healthy_counts ws m) a = lookup0 m a + int (length (filter (\<lambda>w. isRoutable w \<and> w_agentID w = a) ws))"
  by (induction ws m rule: healthy_counts.induct) (auto simp: lookup0_incr isRoutable_def)

lemma take_candidates_eq: "fst (take_candidates r n cs m) = map fst (take n cs)"
  by (induction r n cs m rule: take_candidates.induct) (auto simp: Let_def split_beta)

lemma registered_map: "registered r = map (deref r) (map snd (workers r))"
  by (induction "workers r") (simp_all add: registered_def split_beta)

lemma healthy_counts_perm:
  assumes "mset ps = mset (map snd (workers r))"
  shows "lookup0 (healthy_counts (map (deref r) ps) []) a = int (healthy_on r a)"
proof -
  have "mset (map (deref r) ps) = mset (registered r)"
    using assms by (metis mset_map registered_map)
  then have "size (filter_mset P (mset (map (deref r) ps))) = size (filter_mset P (mset (registered r)))" for P
    by simp
  then show ?thesis
    by (simp add: lookup0_healthy_counts healthy_on_def mset_filter [symmetric] size_mset del: mset_filter mset_map)
      (simp add: lookup0_def)
qed

lemma eligible_perm:
  assumes "mset ps = mset (map snd (workers r))" and that: "mset ps' = mset (map snd (workers r))"
  shows "mset (map fst (drain_candidates r (healthy_counts (map (deref r) ps') []) ps)) = mset (eligible r)"
proof -
  let ?P = "\<lambda>p. isRoutable (deref r p) \<and> 2 \<le> healthy_on r (w_agentID (deref r p))"
  have "map fst (drain_candidates r (healthy_counts (map (deref r) ps') []) ps) = filter ?P ps"
    by (auto simp: drain_candidates_def comp_def healthy_counts_perm [OF that] isRoutable_def intro!: filter_cong)
  then show ?thesis using assms by (simp add: eligible_def)
qed

lemma wf_distinct_pointers:
  assumes "wf_router r"
  shows "distinct (map snd (workers r))"
proof -
  have "k = k'" if "(k, p) \<in> set (workers r)" "(k', p) \<in> set (workers r)" for k k' p
    using that assms by (metis map_of_is_SomeI wf_pointer_inj wf_router_def)
  then have "inj_on snd (set (workers r))" by (auto simp: inj_on_def)
  then show ?thesis using assms by (simp add: wf_router_def distinct_map)
qed


text \<open>The first entries of a list sorted by a key have the smallest keys.\<close>

lemma take_sorted_least:
  assumes "sorted (map f xs)" and "x \<in> set (take n xs)" and "y \<in> set (drop n xs)"
  shows "f x \<le> f y"
proof -
  have "sorted (map f (take n xs @ drop n xs))" using assms(1) by (simp only: append_take_drop_id)
  then show ?thesis using assms(2,3) by (auto simp: sorted_append simp del: append_take_drop_id)
qed

lemma select_per_agent_eq:
  assumes "good_world wd" and "0 \<le> cnt"
  shows "\<exists>cs s'. selectDrainCandidatesPerAgent wd cnt s = Some (map fst (take (nat cnt) cs), s') \<and>
    as_router s' = as_router s \<and> s' = s\<lparr>steps := steps s'\<rparr> \<and> mset (map fst cs) = mset (eligible (as_router s)) \<and>
    sorted (map snd cs) \<and> (\<forall>(p, l) \<in> set cs. l = activeRequests (deref (as_router s) p))"
proof -
  let ?r = "as_router s" and ?ps1 = "worker_order wd (steps s) (map snd (workers (as_router s)))"
    and ?ps2 = "worker_order wd (Suc (steps s)) (map snd (workers (as_router s)))"
  let ?m = "healthy_counts (map (deref ?r) ?ps1) []"
  let ?cs = "sort_key snd (drain_candidates ?r ?m ?ps2)"
  let ?s = "s\<lparr>steps := Suc (Suc (steps s))\<rparr>"
  have p: "mset ?ps1 = mset (map snd (workers ?r))" "mset ?ps2 = mset (map snd (workers ?r))"
    using assms(1) by (simp_all add: good_world_def)
  have "selectDrainCandidatesPerAgent wd cnt s = Some (map fst (take (nat cnt) ?cs), ?s)"
    using assms(2) by (simp add: selectDrainCandidatesPerAgent_def range_workers_def Let_def
        insertion_sort_eq take_candidates_eq)
  moreover have "mset (map fst ?cs) = mset (eligible ?r)"
    using eligible_perm [OF p(2,1)] by simp
  moreover have "\<forall>(p, l) \<in> set ?cs. l = activeRequests (deref ?r p)"
    by (auto simp: drain_candidates_def ActiveRequests_def)
  ultimately show ?thesis by (intro exI [of _ ?cs] exI [of _ ?s]) auto
qed

lemma selectDrainCandidates_least_busy_lemma:
  assumes "wf_router (as_router s)" and "good_world wd" and "0 \<le> cnt"
  shows "\<exists>ps s'. selectDrainCandidatesPerAgent wd cnt s = Some (ps, s') \<and> as_router s' = as_router s \<and>
    distinct ps \<and> set ps \<subseteq> set (eligible (as_router s)) \<and>
    length ps = min (nat cnt) (length (eligible (as_router s))) \<and>
    sorted (map (\<lambda>p. activeRequests (deref (as_router s) p)) ps) \<and>
    (\<forall>p \<in> set ps. \<forall>q \<in> set (eligible (as_router s)) - set ps.
      activeRequests (deref (as_router s) p) \<le> activeRequests (deref (as_router s) q))"
proof -
  let ?r = "as_router s" and ?n = "nat cnt"
  obtain cs s' where S: "selectDrainCandidatesPerAgent wd cnt s = Some (map fst (take ?n cs), s')" "as_router s' = ?r"
    and cs: "mset (map fst cs) = mset (eligible ?r)" "sorted (map snd cs)"
    and l: "\<forall>(p, l) \<in> set cs. l = activeRequests (deref ?r p)"
    using select_per_agent_eq [OF assms(2,3), of s] by blast
  have d: "distinct (map fst cs)"
    using cs(1) wf_distinct_pointers [OF assms(1)] mset_eq_imp_distinct_iff
    by (metis distinct_filter eligible_def)
  have e: "set (map fst cs) = set (eligible ?r)" "length cs = length (eligible ?r)"
    using cs(1) by (metis mset_eq_setD, metis length_map mset_eq_length)
  have snd_eq: "map snd ds = map (\<lambda>p. activeRequests (deref ?r p)) (map fst ds)" if "set ds \<subseteq> set cs" for ds
    using that l by (auto simp: case_prod_unfold)
  have least: "activeRequests (deref ?r p) \<le> activeRequests (deref ?r q)"
    if "p \<in> set (map fst (take ?n cs))" "q \<in> set (eligible ?r) - set (map fst (take ?n cs))" for p q
  proof -
    have "q \<in> set (map fst (take ?n cs)) \<union> set (map fst (drop ?n cs))"
      using that(2) e(1) by (metis DiffD1 append_take_drop_id map_append set_append)
    with that obtain x y where "x \<in> set (take ?n cs)" "fst x = p" "y \<in> set (drop ?n cs)" "fst y = q" by auto
    then show ?thesis
      using take_sorted_least [OF cs(2), of x ?n y] l set_take_subset [of ?n cs] set_drop_subset [of ?n cs]
      by (auto simp: case_prod_unfold) (metis subsetD)
  qed
  have "sorted (map (\<lambda>p. activeRequests (deref ?r p)) (map fst (take ?n cs)))"
    using cs(2) snd_eq [OF set_take_subset, of ?n] by (metis sorted_wrt_take take_map)
  moreover have "distinct (map fst (take ?n cs))" using d by (simp add: take_map [symmetric])
  moreover have "set (map fst (take ?n cs)) \<subseteq> set (eligible ?r)"
    using e(1) set_take_subset [of ?n "map fst cs"] by (simp add: take_map)
  ultimately show ?thesis using S e(2) least by (intro exI [of _ "map fst (take ?n cs)"] exI [of _ s']) auto
qed

text \<open>C27. The workers chosen for a scale-down of \<open>cnt\<close> are distinct registered healthy workers whose agent
  has at least two healthy workers, as many as asked for or all there are, in order of load, and no
  eligible worker that is left has less load than a chosen one, whatever the iteration orders.\<close>

theorem selectDrainCandidates_least_busy:
  assumes "wf_router (as_router s)" and "good_world wd" and "0 \<le> cnt"
  shows "\<exists>ps s'. selectDrainCandidatesPerAgent wd cnt s = Some (ps, s') \<and> as_router s' = as_router s \<and>
    distinct ps \<and> set ps \<subseteq> set (eligible (as_router s)) \<and>
    length ps = min (nat cnt) (length (eligible (as_router s))) \<and>
    sorted (map (\<lambda>p. activeRequests (deref (as_router s) p)) ps) \<and>
    (\<forall>p \<in> set ps. \<forall>q \<in> set (eligible (as_router s)) - set ps.
      activeRequests (deref (as_router s) p) \<le> activeRequests (deref (as_router s) q))"
  by (rule selectDrainCandidates_least_busy_lemma [OF assms])

text \<open>C28. No agent is sure to keep a worker: the count of healthy workers is taken once, so when as many
  workers are asked for as are eligible, every healthy worker of every agent with at least two is chosen.\<close>

theorem drain_can_empty_agents:
  assumes "good_world wd" and "int (length (eligible (as_router s))) \<le> cnt"
    and "2 \<le> healthy_on (as_router s) a"
  shows "\<exists>ps s'. selectDrainCandidatesPerAgent wd cnt s = Some (ps, s') \<and>
    (\<forall>(k, p) \<in> set (workers (as_router s)). isRoutable (deref (as_router s) p) \<and>
       w_agentID (deref (as_router s) p) = a \<longrightarrow> p \<in> set ps)"
proof -
  let ?r = "as_router s"
  have "0 \<le> cnt" using assms(2) by linarith
  then obtain cs :: "(nat \<times> int) list" and s' where S: "selectDrainCandidatesPerAgent wd cnt s = Some (map fst (take (nat cnt) cs), s')"
    and cs: "mset (map fst cs) = mset (eligible ?r)"
    using select_per_agent_eq [OF assms(1), of cnt s] by blast
  have "length cs \<le> nat cnt" using cs assms(2) by (metis length_map mset_eq_length nat_int nat_mono)
  then have "set (map fst (take (nat cnt) cs)) = set (eligible ?r)" using cs by (metis mset_eq_setD take_all)
  with S assms(3) show ?thesis by (force simp: eligible_def)
qed

lemma good_example_world: "good_world example_world"
  by (simp add: good_world_def example_world_def)

lemma example_scaler_router:
  "wf_router (as_router example_scaler)" "eligible (as_router example_scaler) = [1, 2]"
  "healthy_on (as_router example_scaler) ''agent'' = 2"
  "workers (as_router example_scaler) = [(''a'', 0), (''b'', 1), (''c'', 2)]"
  "deref (as_router example_scaler) 1 = example_worker ''b'' StateHealthy 1"
  "deref (as_router example_scaler) 2 = example_worker ''c'' StateHealthy 0"
proof -
  let ?r = "as_router example_scaler"
  have "wf_router (example_router 1)" by (rule wf_example) simp
  then show "wf_router ?r" by (simp add: example_scaler_def NewAutoscaler_def wf_router_def)
  have r: "registered ?r = [example_worker ''a'' StateDraining 0, example_worker ''b'' StateHealthy 1,
      example_worker ''c'' StateHealthy 0]"
    by (simp add: example_scaler_def NewAutoscaler_def registered_def example_router_def deref_def)
  then show h: "healthy_on ?r ''agent'' = 2"
    by (simp add: healthy_on_def) (simp add: example_worker_def isRoutable_def)
  show w: "workers ?r = [(''a'', 0), (''b'', 1), (''c'', 2)]"
    by (simp add: example_scaler_def NewAutoscaler_def example_router_def)
  have d0: "deref ?r 0 = example_worker ''a'' StateDraining 0"
    and d: "deref ?r 1 = example_worker ''b'' StateHealthy 1" "deref ?r 2 = example_worker ''c'' StateHealthy 0"
    by (simp_all add: example_scaler_def NewAutoscaler_def example_router_def deref_def)
  then show "deref ?r 1 = example_worker ''b'' StateHealthy 1" "deref ?r 2 = example_worker ''c'' StateHealthy 0"
    by simp_all
  show "eligible ?r = [1, 2]"
    using d0 d h by (simp add: eligible_def w) (simp add: example_worker_def isRoutable_def)
qed

theorem selectDrainCandidates_least_busy_witness:
  "\<exists>ps s'. selectDrainCandidatesPerAgent example_world 1 example_scaler = Some (ps, s') \<and> ps = [2]"
proof -
  obtain ps s' where ps: "selectDrainCandidatesPerAgent example_world 1 example_scaler = Some (ps, s')"
    "set ps \<subseteq> {1, 2}" "length ps = 1"
    "\<forall>p \<in> set ps. \<forall>q \<in> {1, 2} - set ps. activeRequests (deref (as_router example_scaler) p) \<le>
      activeRequests (deref (as_router example_scaler) q)"
    using selectDrainCandidates_least_busy [OF example_scaler_router(1) good_example_world, of 1]
    by (auto simp: example_scaler_router)
  obtain p where p: "ps = [p]" using ps(3) by (cases ps) auto
  have "\<not> activeRequests (deref (as_router example_scaler) 1) \<le> activeRequests (deref (as_router example_scaler) 2)"
    unfolding example_scaler_router by (simp add: example_worker_def)
  then have "p = 2" using ps(2,4) p by auto
  with p ps(1) show ?thesis by simp
qed

theorem drain_can_empty_agents_witness:
  "\<exists>ps s'. selectDrainCandidatesPerAgent example_world 2 example_scaler = Some (ps, s') \<and> {1, 2} \<subseteq> set ps"
  using drain_can_empty_agents [OF good_example_world, of example_scaler 2 "''agent''"]
  by (simp add: example_scaler_router [unfolded One_nat_def]) (auto simp: example_worker_def isRoutable_def)

end
