(* ===== verification/Control_Loop.thy ===== *)
theory Control_Loop
  imports Scaling
begin

text \<open>
  Whole scaling operations and control steps of theory \<open>Autoscaler\<close>: what a scale-up may touch, and that
  every tick keeps the invariants, never panics and scales in one direction only.
\<close>

section \<open>The history of actions\<close>

definition push_action :: "ScalingAction \<Rightarrow> Autoscaler \<Rightarrow> Autoscaler" where
  "push_action x s = s\<lparr>recentActions := push_trim 50 50 x (recentActions s)\<rparr>"

interpretation action_log: sliding_log push_action recentActions "\<lambda>_. True" 50 50
  by unfold_locales (simp_all add: push_action_def)

lemma recordScalingAction_push:
  "recordScalingAction wd a n why s = push_action
     \<lparr>sa_Time = clk wd (steps s), sa_Action = a, sa_Count = n, sa_Reason = why\<rparr> (s\<lparr>steps := Suc (steps s)\<rparr>)"
  by (simp add: recordScalingAction_def Now_def push_action_def push_trim_def lastn_def Let_def)

lemma action_bound:
  "length (recentActions s) \<le> 50 \<Longrightarrow> length (recentActions (recordScalingAction wd a n why s)) \<le> 50"
  using action_log.bound_add [of "s\<lparr>steps := Suc (steps s)\<rparr>"] by (simp add: recordScalingAction_push)

section \<open>What spawning may touch\<close>

text \<open>
  Only the router, the agents' health and the clock change; in the router, agents stay and a worker
  entry either stays or becomes a fresh placeholder without a connection.
\<close>

definition spawn_frame :: "Autoscaler \<Rightarrow> Autoscaler \<Rightarrow> bool" where
  "spawn_frame s s' \<longleftrightarrow>
     s' = s\<lparr>as_router := as_router s', agent_health := agent_health s', steps := steps s'\<rparr> \<and>
     steps s \<le> steps s' \<and> agents (as_router s') = agents (as_router s) \<and>
     keeps_load (as_router s) (as_router s') \<and>
     (wf_router (as_router s) \<longrightarrow> wf_router (as_router s') \<and>
       (\<forall>k. worker_of (as_router s') k = worker_of (as_router s) k \<or>
          (\<exists>ad a. worker_of (as_router s') k = Some (NewStartingWorker k ad a))))"

lemma spawn_frame_refl: "spawn_frame s s"
  by (simp add: spawn_frame_def keeps_load_same)

lemma spawn_frame_trans [trans]:
  assumes "spawn_frame s t" and "spawn_frame t u"
  shows "spawn_frame s u"
proof -
  have "worker_of (as_router u) k = worker_of (as_router s) k \<or>
      (\<exists>ad a. worker_of (as_router u) k = Some (NewStartingWorker k ad a))"
    if "wf_router (as_router s)" for k
    using assms that unfolding spawn_frame_def by metis
  moreover have "u = s\<lparr>as_router := as_router u, agent_health := agent_health u, steps := steps u\<rparr>"
  proof -
    have "u = t\<lparr>as_router := as_router u, agent_health := agent_health u, steps := steps u\<rparr>"
      and t: "t = s\<lparr>as_router := as_router t, agent_health := agent_health t, steps := steps t\<rparr>"
      using assms by (simp_all add: spawn_frame_def)
    note this(1)
    also have "t\<lparr>as_router := as_router u, agent_health := agent_health u, steps := steps u\<rparr> =
        s\<lparr>as_router := as_router u, agent_health := agent_health u, steps := steps u\<rparr>"
      by (subst t) simp
    finally show ?thesis .
  qed
  moreover have "keeps_load (as_router s) (as_router u)"
    using assms keeps_load_trans unfolding spawn_frame_def by blast
  ultimately show ?thesis using assms by (simp add: spawn_frame_def)
qed

lemma spawn_frame_steps: "steps s \<le> n \<Longrightarrow> spawn_frame s (s\<lparr>steps := n\<rparr>)"
  by (simp add: spawn_frame_def keeps_load_same)

lemma spawn_frame_health: "steps s \<le> n \<Longrightarrow> spawn_frame s (s\<lparr>steps := n, agent_health := h\<rparr>)"
  by (simp add: spawn_frame_def keeps_load_same)

lemma spawn_frame_add:
  assumes "spawn_frame s t"
  shows "spawn_frame s (t\<lparr>as_router := add_fresh (NewStartingWorker i ad a) (as_router t)\<rparr>)"
proof -
  have "agents (add_fresh w r) = agents r" for w r
    by (simp add: add_fresh_def alloc_def AddWorkerWithInstance_def)
  moreover have "w_id (NewStartingWorker i ad a) = i" "activeRequests (NewStartingWorker i ad a) = 0"
    by (simp_all add: NewStartingWorker_def)
  ultimately have "spawn_frame t (t\<lparr>as_router := add_fresh (NewStartingWorker i ad a) (as_router t)\<rparr>)"
    by (auto simp: spawn_frame_def wf_intros view_simps keeps_load_add_fresh)
  with assms show ?thesis by (rule spawn_frame_trans)
qed

lemma spawnWorkerOnAgent_frame: "spawn_frame s (snd (spawnWorkerOnAgent wd addr a s))"
proof -
  let ?s = "s\<lparr>steps := Suc (steps s)\<rparr>"
  have "spawn_frame s ?s" by (rule spawn_frame_steps) simp
  then show ?thesis
    using spawn_frame_add [of s ?s]
    by (auto simp: spawnWorkerOnAgent_def post_def split: http_resp.split option.split)
qed

lemma spawn_attempts_frame: "spawn_frame s (snd (snd (spawn_attempts wd addr a n e s)))"
proof (induction n arbitrary: e s)
  case (Suc n)
  obtain r s1 where r: "spawnWorkerOnAgent wd addr a s = (r, s1)" by (cases "spawnWorkerOnAgent wd addr a s")
  then have "spawn_frame s s1" using spawnWorkerOnAgent_frame [of s wd addr a] by simp
  with r Suc show ?case by (auto intro: spawn_frame_trans split: option.split)
qed (simp add: spawn_frame_refl)

lemma spawnWorkerWithRetry_frame: "spawn_frame s (snd (spawnWorkerWithRetry wd a s))"
  using spawn_attempts_frame [of s wd "agent_url a" "ai_AgentID a" "nat (SpawnMaxRetries (as_cfg s))" None]
  by (auto simp: spawnWorkerWithRetry_def split: prod.splits bool.splits)

lemma recordAgentFailure_frame: "spawn_frame s (recordAgentFailure wd a s)"
  by (simp add: recordAgentFailure_def Now_def Let_def spawn_frame_health)

lemma resetAgentFailure_frame: "spawn_frame s (resetAgentFailure a s)"
  using spawn_frame_health [of s "steps s"]
  by (auto simp: resetAgentFailure_def spawn_frame_refl split: option.split)

lemma guarantee_loop_frame:
  assumes "guarantee_loop wd c ags sp re s = (sp', re', s')" and "0 \<le> re"
  shows "spawn_frame s s' \<and> sp \<le> sp' \<and> 0 \<le> re' \<and> sp' + re' = sp + re"
  using assms
proof (induction ags arbitrary: sp re s)
  case (Cons a ags)
  show ?case
  proof (cases "re \<noteq> 0 \<and> lookup0 c (ai_AgentID a) = 0")
    case True
    obtain e s1 where S: "spawnWorkerWithRetry wd a s = (e, s1)" by (cases "spawnWorkerWithRetry wd a s")
    then have f: "spawn_frame s s1" using spawnWorkerWithRetry_frame [of s wd a] by simp
    show ?thesis
    proof (cases e)
      case None
      with True S Cons.prems Cons.IH [of "sp + 1" "re - 1" "resetAgentFailure (ai_AgentID a) s1"]
        spawn_frame_trans [OF f resetAgentFailure_frame]
      show ?thesis by (auto intro: spawn_frame_trans)
    next
      case (Some err)
      with True S Cons.prems Cons.IH [of sp re "recordAgentFailure wd (ai_AgentID a) s1"]
        spawn_frame_trans [OF f recordAgentFailure_frame]
      show ?thesis by (auto intro: spawn_frame_trans)
    qed
  next
    case False
    with Cons show ?thesis by (auto simp: spawn_frame_refl split: if_splits)
  qed
qed (simp add: spawn_frame_refl)

lemma spawn_loop_frame:
  "spawn_loop n wd ags sp s = (sp', s') \<Longrightarrow> spawn_frame s s' \<and> sp \<le> sp' \<and> sp' \<le> sp + int n"
proof (induction n arbitrary: sp s)
  case (Suc n)
  obtain b s1 where P: "pickBestAgent wd ags s = (b, s1)" by (cases "pickBestAgent wd ags s")
  then have f1: "spawn_frame s s1"
    using spawn_frame_steps [of s "Suc (steps s)"] by (auto simp: pickBestAgent_def Now_def Let_def)
  show ?case
  proof (cases b)
    case None
    with P Suc.prems f1 show ?thesis by auto
  next
    case (Some a)
    obtain e s2 where S: "spawnWorkerWithRetry wd a s1 = (e, s2)" by (cases "spawnWorkerWithRetry wd a s1")
    then have f: "spawn_frame s s2"
      using spawnWorkerWithRetry_frame [of s1 wd a] spawn_frame_trans [OF f1] by simp
    show ?thesis
    proof (cases e)
      case None
      with Some P S Suc.prems Suc.IH [of "sp + 1" "resetAgentFailure (ai_AgentID a) s2"]
        spawn_frame_trans [OF f resetAgentFailure_frame]
      show ?thesis by (auto intro: spawn_frame_trans)
    next
      case (Some err)
      with \<open>b = Some a\<close> P S Suc.prems Suc.IH [of sp "recordAgentFailure wd (ai_AgentID a) s2"]
        spawn_frame_trans [OF f recordAgentFailure_frame]
      show ?thesis by (auto intro: spawn_frame_trans)
    qed
  qed
qed (simp add: spawn_frame_refl)

section \<open>A whole scale-up\<close>

text \<open>What \<open>scaleUp_body\<close> does to a state: a spawning phase, then possibly one recorded action.\<close>

lemma scaleUp_body_frame:
  assumes "0 \<le> cnt"
  shows "\<exists>t n why. spawn_frame s t \<and> 0 \<le> n \<and> n \<le> cnt \<and>
    scaleUp_body wd cnt m s = (if n = 0 then t else recordScalingAction wd ''up'' n why (t\<lparr>highLoadSet := False\<rparr>))"
proof -
  let ?s = "s\<lparr>steps := Suc (steps s)\<rparr>" and ?ags = "agent_order wd (steps s) (GetAgents (as_router s))"
  have f0: "spawn_frame s ?s" by (rule spawn_frame_steps) simp
  show ?thesis
  proof (cases "?ags = []")
    case True
    then show ?thesis using f0 assms
      by (intro exI [of _ ?s] exI [of _ 0]) (simp add: scaleUp_body_def getAgents_def)
  next
    case False
    define g where "g = (if 0 < cnt then guarantee_loop wd (HealthyWorkerCountByAgent (as_router ?s)) ?ags 0 cnt ?s
      else (0, cnt, ?s))"
    obtain sp re s1 where G: "g = (sp, re, s1)" by (cases g)
    have g: "spawn_frame ?s s1 \<and> 0 \<le> sp \<and> 0 \<le> re \<and> sp + re = cnt"
    proof (cases "0 < cnt")
      case True
      with G have "guarantee_loop wd (HealthyWorkerCountByAgent (as_router ?s)) ?ags 0 cnt ?s = (sp, re, s1)"
        by (simp add: g_def)
      from guarantee_loop_frame [OF this] True show ?thesis by simp
    next
      case False
      with G assms show ?thesis by (auto simp: g_def spawn_frame_refl)
    qed
    obtain sp' s2 where L: "spawn_loop (nat re) wd ?ags sp s1 = (sp', s2)"
      by (cases "spawn_loop (nat re) wd ?ags sp s1")
    note l = spawn_loop_frame [OF L]
    have "spawn_frame s s2" using f0 g l spawn_frame_trans by blast
    moreover have "scaleUp_body wd cnt m s = (if sp' = 0 then s2 else recordScalingAction wd ''up'' sp'
        (UpMetrics (WorkerUtilization m) (RequestsPerSec m) (P95Latency m) (QueueDepth m)) (s2\<lparr>highLoadSet := False\<rparr>))"
      using False G L g l by (simp add: scaleUp_body_def getAgents_def Let_def g_def [symmetric])
    ultimately show ?thesis using g l by (intro exI [of _ s2] exI [of _ sp']) auto
  qed
qed

lemma spawn_frame_fields:
  "spawn_frame s t \<Longrightarrow> as_cfg t = as_cfg s \<and> as_metrics t = as_metrics s \<and> scalingInOp t = scalingInOp s \<and>
     started t = started s \<and> recentActions t = recentActions s \<and> lowLoadSince t = lowLoadSince s \<and>
     lastDecision t = lastDecision s \<and> lastScaleDown t = lastScaleDown s"
proof -
  assume "spawn_frame s t"
  then have "\<exists>r h n. t = s\<lparr>as_router := r, agent_health := h, steps := n\<rparr>"
    unfolding spawn_frame_def by blast
  then show ?thesis by auto
qed

definition only_placeholders :: "Router \<Rightarrow> Router \<Rightarrow> bool" where
  "only_placeholders r r' \<longleftrightarrow> agents r' = agents r \<and> keeps_load r r' \<and>
     (\<forall>k. worker_of r' k = worker_of r k \<or> (\<exists>ad a. worker_of r' k = Some (NewStartingWorker k ad a)))"

lemma recordScalingAction_fields:
  "as_router (recordScalingAction wd a n why s) = as_router s"
  "started (recordScalingAction wd a n why s) = started s"
  "as_metrics (recordScalingAction wd a n why s) = as_metrics s"
  "as_cfg (recordScalingAction wd a n why s) = as_cfg s"
  "scalingInOp (recordScalingAction wd a n why s) = scalingInOp s"
  "steps (recordScalingAction wd a n why s) = Suc (steps s)"
  by (simp_all add: recordScalingAction_push push_action_def)

lemma scaleUp_effect_lemma:
  assumes "wf_router (as_router s)" and "0 \<le> cnt" and "length (recentActions s) \<le> 50"
  shows "(if scalingInOp s then scaleUp wd cnt m s = s
    else let s' = scaleUp wd cnt m s in
      \<not> scalingInOp s' \<and> wf_router (as_router s') \<and> only_placeholders (as_router s) (as_router s') \<and>
      as_metrics s' = as_metrics s \<and> as_cfg s' = as_cfg s \<and> started s' = started s \<and>
      (\<exists>i \<ge> steps s. lastScaleUp s' = clk wd i \<and> i < steps s') \<and>
      (recentActions s' = recentActions s \<or>
       (\<exists>x. recentActions s' = lastn 50 (recentActions s @ [x]) \<and> sa_Action x = ''up'' \<and>
         1 \<le> sa_Count x \<and> sa_Count x \<le> cnt)))"
proof (cases "scalingInOp s")
  case True
  then show ?thesis by (simp add: scaleUp_def)
next
  case False
  let ?s0 = "s\<lparr>scalingInOp := True\<rparr>"
  obtain t n why where F: "spawn_frame ?s0 t" "0 \<le> n" "n \<le> cnt"
    and B: "scaleUp_body wd cnt m ?s0 = (if n = 0 then t else recordScalingAction wd ''up'' n why (t\<lparr>highLoadSet := False\<rparr>))"
    using scaleUp_body_frame [OF assms(2)] by metis
  note f = spawn_frame_fields [OF F(1)]
  define u where "u = scaleUp_body wd cnt m ?s0"
  have S: "scaleUp wd cnt m s = u\<lparr>steps := Suc (steps u), lastScaleUp := clk wd (steps u), scalingInOp := False\<rparr>"
    using False by (simp add: scaleUp_def Now_def Let_def u_def)
  have r: "wf_router (as_router t)" "only_placeholders (as_router s) (as_router t)" "steps s \<le> steps t"
    using F(1) assms(1) by (auto simp: spawn_frame_def only_placeholders_def)
  have "as_router u = as_router t \<and> as_metrics u = as_metrics s \<and> as_cfg u = as_cfg s \<and> started u = started s \<and>
      steps t \<le> steps u"
    using f by (simp add: u_def B recordScalingAction_fields)
  moreover have "recentActions u = recentActions s \<or>
       (\<exists>x. recentActions u = lastn 50 (recentActions s @ [x]) \<and> sa_Action x = ''up'' \<and>
         1 \<le> sa_Count x \<and> sa_Count x \<le> cnt)"
    using f F assms(3) by (auto simp: u_def B recordScalingAction_push push_action_def push_trim_same)
  ultimately show ?thesis using r False
    by (simp add: S Let_def) (auto simp: less_Suc_eq_le intro!: exI [of _ "steps u"])
qed



section \<open>Control steps\<close>

definition good_config :: "AutoscalerConfig \<Rightarrow> bool" where
  "good_config c \<longleftrightarrow> 0 < MaxScaleUpStep c \<and> 0 < MaxScaleDownStep c \<and> 0 \<le> PrewarmWorkers c"

definition scaler_ok :: "Autoscaler \<Rightarrow> bool" where
  "scaler_ok s \<longleftrightarrow> wf_router (as_router s) \<and> wf_metrics (as_metrics s) \<and> \<not> scalingInOp s \<and>
     length (recentActions s) \<le> 50 \<and> good_config (as_cfg s)"

lemma scaler_ok_updates [simp]:
  "scaler_ok (s\<lparr>steps := n\<rparr>) = scaler_ok s" "scaler_ok (s\<lparr>lowLoadSince := t\<rparr>) = scaler_ok s"
  "scaler_ok (s\<lparr>lastScaleUp := t\<rparr>) = scaler_ok s" "scaler_ok (s\<lparr>lastDecisionReason := w\<rparr>) = scaler_ok s"
  "scaler_ok (s\<lparr>lastDecision := d\<rparr>) = scaler_ok s" "scaler_ok (s\<lparr>agent_health := h\<rparr>) = scaler_ok s"
  "scaler_ok (decide d w c s) = scaler_ok s"
  by (simp_all add: scaler_ok_def decide_def)

lemma decide_fields [simp]:
  "as_router (decide d w c s) = as_router s" "as_cfg (decide d w c s) = as_cfg s"
  "started (decide d w c s) = started s" "steps (decide d w c s) = steps s"
  "as_metrics (decide d w c s) = as_metrics s" "lowLoadSince (decide d w c s) = lowLoadSince s"
  "scalingInOp (decide d w c s) = scalingInOp s"
  by (simp_all add: decide_def)

text \<open>The outcome of a step that scales up or does nothing, and of one that scales down.\<close>

definition up_step :: "Autoscaler \<Rightarrow> Autoscaler \<Rightarrow> bool" where
  "up_step s s' \<longleftrightarrow> scaler_ok s' \<and> as_cfg s' = as_cfg s \<and> started s' = started s \<and>
     only_placeholders (as_router s) (as_router s')"

definition down_step :: "ClusterMetrics \<Rightarrow> Autoscaler \<Rightarrow> Autoscaler \<Rightarrow> bool" where
  "down_step m s s' \<longleftrightarrow> scaler_ok s' \<and> as_cfg s' = as_cfg s \<and> as_router s' = as_router s \<and>
     QueueSize m = 0 \<and> m_InFlight m = 0 \<and>
     (\<exists>ps. started s' = started s @ map GoDrain ps \<and> distinct ps \<and> set ps \<subseteq> set (eligible (as_router s)) \<and>
        MinWorkers (as_cfg s) \<le> TotalWorkers m - int (length ps))"

lemma only_placeholders_refl: "only_placeholders r r"
  by (simp add: only_placeholders_def keeps_load_same)

lemma scaleUp_step: "scaler_ok s \<Longrightarrow> 0 \<le> cnt \<Longrightarrow> up_step s (scaleUp wd cnt m s)"
  using scaleUp_effect_lemma [of s cnt wd m]
  by (auto simp: scaler_ok_def up_step_def Let_def)

lemma scaleDown_step:
  assumes "scaler_ok s" and "good_world wd" and "0 \<le> cnt" and "QueueSize m = 0" and "m_InFlight m = 0"
    and "MinWorkers (as_cfg s) \<le> TotalWorkers m - cnt"
  shows "\<exists>s'. scaleDown wd cnt m s = Some s' \<and> down_step m s s'"
proof -
  let ?s0 = "s\<lparr>scalingInOp := True\<rparr>"
  have wf: "wf_router (as_router ?s0)" using assms(1) by (simp add: scaler_ok_def)
  obtain ps s1 where P: "selectDrainCandidatesPerAgent wd cnt ?s0 = Some (ps, s1)" "distinct ps"
    "set ps \<subseteq> set (eligible (as_router s))" "length ps = min (nat cnt) (length (eligible (as_router s)))"
    using selectDrainCandidates_least_busy_lemma [OF wf assms(2,3)] by auto
  have s1: "s1 = ?s0\<lparr>steps := steps s1\<rparr>"
    using select_per_agent_eq [OF assms(2,3), of ?s0] P(1) by auto
  obtain n where s1: "s1 = s\<lparr>scalingInOp := True, steps := n\<rparr>" using s1 by metis
  have "int (length ps) \<le> cnt" using P(4) assms(3) by simp
  with P(1-3) assms show ?thesis
    by (simp add: scaleDown_def scaler_ok_def down_step_def Let_def Now_def s1 recordScalingAction_push
        push_action_def push_trim_same)
      (intro impI exI [of _ ps], simp)
qed

lemma explain_none_step: "scaler_ok s \<Longrightarrow> up_step s (explain_none wd s)"
  by (auto simp: explain_none_def Now_def Let_def up_step_def only_placeholders_refl scaler_ok_def)

lemma bootstrap_step:
  assumes "scaler_ok s"
  shows "up_step s (bootstrap wd m s)"
proof -
  have fold_frame: "spawn_frame t (fold (\<lambda>a. resetAgentFailure (ai_AgentID a)) as t)" for "as" t
    by (induction "as" arbitrary: t) (auto intro: spawn_frame_refl spawn_frame_trans resetAgentFailure_frame)
  let ?ags = "agent_order wd (steps s) (GetAgents (as_router s))" and ?s = "s\<lparr>steps := Suc (steps s)\<rparr>"
  define t where "t = fold (\<lambda>a. resetAgentFailure (ai_AgentID a)) ?ags ?s"
  have f: "spawn_frame ?s t" by (simp add: t_def fold_frame)
  have ft: "scaler_ok t" "as_cfg t = as_cfg s" "started t = started s" "only_placeholders (as_router s) (as_router t)"
    using spawn_frame_fields [OF f] f assms
    by (auto simp: scaler_ok_def spawn_frame_def only_placeholders_def)
  have trans: "only_placeholders r1 r3" if "only_placeholders r1 r2" "only_placeholders r2 r3" for r1 r2 r3
    using that keeps_load_trans unfolding only_placeholders_def by metis
  show ?thesis
  proof (cases "?ags \<noteq> [] \<and> 0 < MinWorkers (as_cfg s)")
    case True
    let ?u = "decide ''scale_up'' (Text ''bootstrapping: no workers available'') (MinWorkers (as_cfg s)) (t\<lparr>lastScaleUp := zero_time\<rparr>)"
    have "up_step ?u (scaleUp wd (MinWorkers (as_cfg s)) m ?u)"
      using ft True by (intro scaleUp_step) simp_all
    then show ?thesis
      using True ft trans [OF ft(4)] by (simp add: bootstrap_def getAgents_def Let_def t_def [symmetric] up_step_def)
  next
    case False
    with assms show ?thesis
      by (auto simp: bootstrap_def getAgents_def Let_def up_step_def only_placeholders_refl)
  qed
qed

lemma act_step:
  assumes "scaler_ok s" and "good_world wd" and "0 \<le> TotalWorkers m" and "\<forall>n. 0 < clk wd n"
  shows "\<exists>s'. act wd m s = Some s' \<and> (up_step s s' \<or> down_step m s s')"
proof -
  obtain b n where U: "evaluateScaleUp m s = (b, n)" by (cases "evaluateScaleUp m s")
  obtain d k t where D: "evaluateScaleDown wd m s = ((d, k), t)" by (metis surj_pair)
  have cfg: "0 < MaxScaleUpStep (as_cfg s)" "0 < MaxScaleDownStep (as_cfg s)" "0 \<le> PrewarmWorkers (as_cfg s)"
    using assms(1) by (auto simp: scaler_ok_def good_config_def)
  have "b \<longrightarrow> 1 \<le> n" "\<not> b \<longrightarrow> n = 0" using evaluateScaleUp_bounds_lemma [OF cfg(1) assms(3) U] by blast+
  then have n: "0 \<le> n" by (cases b) simp_all
  have k: "d \<Longrightarrow> QueueSize m = 0 \<and> m_InFlight m = 0 \<and> 1 \<le> k \<and> MinWorkers (as_cfg s) \<le> TotalWorkers m - k"
    using evaluateScaleDown_sound_lemma [of s wd m, unfolded D prod.case] cfg(2) assms(4) by blast
  have t: "scaler_ok t" "as_cfg t = as_cfg s" "started t = started s" "as_router t = as_router s"
    using D assms(1) by (auto simp: evaluateScaleDown_def Let_def Now_def split: if_splits)
  have up: "up_step s (scaleUp wd c m (decide x y z u))"
    if "0 \<le> c" "scaler_ok u" "as_cfg u = as_cfg s" "started u = started s" "as_router u = as_router s" for c x y z u
    using scaleUp_step [of "decide x y z u" c wd m] that by (simp add: up_step_def)
  show ?thesis
  proof (cases "b \<or> RPSTrendThreshold (as_cfg s) < RPSTrend m")
    case True
    then show ?thesis using n cfg(3) t
      by (auto simp: act_def U D Let_def intro!: up)
  next
    case False
    show ?thesis
    proof (cases d)
      case True
      let ?u = "decide ''scale_down'' (Removing (WorkerUtilization m) (ScaleDownThreshold (as_cfg s)) k) (HealthyWorkers m - k) t"
      have "\<exists>s'. scaleDown wd k m ?u = Some s' \<and> down_step m ?u s'"
        using k [OF True] t assms(2) by (intro scaleDown_step) auto
      then show ?thesis using False True t by (auto simp: act_def U D Let_def down_step_def)
    next
      case d: False
      have "up_step t (explain_none wd t)" by (rule explain_none_step [OF t(1)])
      then show ?thesis using False d t by (auto simp: act_def U D Let_def up_step_def)
    qed
  qed
qed

lemma collect_step:
  assumes "scaler_ok s"
  shows "\<exists>m mc. collect_metrics wd s = Some (m, s\<lparr>steps := Suc (steps s), as_metrics := mc\<rparr>) \<and>
    scaler_ok (s\<lparr>steps := Suc (steps s), as_metrics := mc\<rparr>) \<and>
    TotalWorkers m = WorkerCount (as_router s) \<and> HealthyWorkers m = HealthyWorkerCount (as_router s) \<and>
    m_InFlight m = InFlightCount (as_router s) \<and> QueueSize m = mc_queueSize (as_metrics s)"
  using Collect_snapshot_lemma [of "as_metrics s" "clk wd (steps s)" "as_router s"] assms
  by (auto simp: collect_metrics_def Now_def Let_def scaler_ok_def)

definition drains :: "Autoscaler \<Rightarrow> Autoscaler \<Rightarrow> nat list \<Rightarrow> bool" where
  "drains s s' ps \<longleftrightarrow> started s' = started s @ map GoDrain ps"

lemma tick_one_direction_lemma:
  assumes "scaler_ok s" and "good_world wd" and "\<forall>n. 0 < clk wd n"
  shows "\<exists>s'. tick wd s = Some s' \<and> scaler_ok s' \<and> as_cfg s' = as_cfg s \<and>
    (drains s s' [] \<and> only_placeholders (as_router s) (as_router s') \<or>
     as_router s' = as_router s \<and> mc_queueSize (as_metrics s) = 0 \<and> InFlightCount (as_router s) = 0 \<and>
     (\<exists>ps. drains s s' ps \<and> distinct ps \<and> set ps \<subseteq> set (eligible (as_router s)) \<and>
        MinWorkers (as_cfg s) \<le> WorkerCount (as_router s) - int (length ps)))"
proof -
  obtain m mc where C: "collect_metrics wd s = Some (m, s\<lparr>steps := Suc (steps s), as_metrics := mc\<rparr>)"
    "scaler_ok (s\<lparr>steps := Suc (steps s), as_metrics := mc\<rparr>)" "TotalWorkers m = WorkerCount (as_router s)"
    "m_InFlight m = InFlightCount (as_router s)" "QueueSize m = mc_queueSize (as_metrics s)"
    using collect_step [OF assms(1), of wd] by blast
  let ?s = "decide ''none'' (Text ''metrics normal'') (HealthyWorkers m) (s\<lparr>steps := Suc (steps s), as_metrics := mc\<rparr>)"
  let ?ags = "agent_order wd (steps ?s) (GetAgents (as_router ?s))" and ?s2 = "?s\<lparr>steps := Suc (steps ?s)\<rparr>"
  define miss where "miss = (if 0 < length ?ags then missing_agents ?ags (as_router s) else 0)"
  have ok: "scaler_ok ?s" "scaler_ok ?s2" using C(2) by simp_all
  have up: "?thesis" if "tick wd s = Some t" "up_step u t" "as_cfg u = as_cfg s" "started u = started s" "as_router u = as_router s" for t u
    using that by (auto simp: up_step_def drains_def)
  have T: "tick wd s = (if HealthyWorkers m = 0 \<and> TotalWorkers m = 0 then Some (bootstrap wd m ?s)
      else if 0 < miss then Some (scaleUp wd miss m (decide ''scale_up'' (AgentsWithoutWorkers miss) miss ?s2))
      else act wd m ?s2)"
    by (simp add: tick_def C(1) getAgents_def Let_def miss_def)
  show ?thesis
  proof (cases "HealthyWorkers m = 0 \<and> TotalWorkers m = 0")
    case True
    then show ?thesis using up [OF _ bootstrap_step [OF ok(1)]] T by simp
  next
    case F: False
    show ?thesis
    proof (cases "0 < miss")
      case True
      let ?u = "decide ''scale_up'' (AgentsWithoutWorkers miss) miss ?s2"
      have "up_step ?u (scaleUp wd miss m ?u)" using True ok(2) by (intro scaleUp_step) simp_all
      then show ?thesis using up [of _ ?u] T F True by simp
    next
      case False
      have "0 \<le> TotalWorkers m" using C(3) by (simp add: WorkerCount_def)
      from act_step [OF ok(2) assms(2) this assms(3)] obtain t where t: "act wd m ?s2 = Some t"
        "up_step ?s2 t \<or> down_step m ?s2 t" by blast
      show ?thesis
      proof (cases "up_step ?s2 t")
        case True
        then show ?thesis using up [of t ?s2] T F False t(1) by simp
      next
        case D: False
        with t(2) have "down_step m ?s2 t" by simp
        then show ?thesis using T F False t(1) C by (auto simp: down_step_def drains_def)
      qed
    qed
  qed
qed

text \<open>The immediate scale-up that a refused request triggers.\<close>

lemma TriggerScaleUp_step:
  assumes "scaler_ok s"
  shows "\<exists>s'. TriggerScaleUp wd s = Some s' \<and> up_step s s'"
proof -
  obtain m mc where C: "collect_metrics wd s = Some (m, s\<lparr>steps := Suc (steps s), as_metrics := mc\<rparr>)"
    "scaler_ok (s\<lparr>steps := Suc (steps s), as_metrics := mc\<rparr>)"
    using collect_step [OF assms, of wd] by blast
  let ?s = "s\<lparr>steps := Suc (steps s), as_metrics := mc, lastScaleUp := zero_time\<rparr>"
  have ok: "scaler_ok ?s" using C(2) by simp
  have step: "0 < MaxScaleUpStep (as_cfg s)" using assms by (simp add: scaler_ok_def good_config_def)
  have "up_step s (scaleUp wd c m ?s)" if "0 \<le> c" for c
    using scaleUp_step [OF ok that, of wd m] by (simp add: up_step_def)
  moreover have "up_step s ?s" using ok by (simp add: up_step_def only_placeholders_refl)
  ultimately have "\<exists>s'. (if n \<le> 0 then Some ?s else Some (scaleUp wd
      (if MaxScaleUpStep (as_cfg ?s) < n then MaxScaleUpStep (as_cfg ?s) else n) m ?s)) = Some s' \<and> up_step s s'" for n
    using step by simp
  then show ?thesis unfolding TriggerScaleUp_def C(1) Let_def option.case prod.case .
qed

text \<open>C2. A control step never panics, keeps the invariants of the router, the metrics, the lock and the
  history, and works in one direction: either it drains nothing and adds at most placeholders, or it leaves
  the registry alone and starts draining distinct eligible workers, which it does only when nothing is
  queued or in flight and so that at least the minimum of registered workers stays.\<close>

theorem tick_one_direction:
  assumes "scaler_ok s" and "good_world wd" and "\<forall>n. 0 < clk wd n"
  shows "\<exists>s'. tick wd s = Some s' \<and> scaler_ok s' \<and> as_cfg s' = as_cfg s \<and>
    (drains s s' [] \<and> only_placeholders (as_router s) (as_router s') \<or>
     as_router s' = as_router s \<and> mc_queueSize (as_metrics s) = 0 \<and> InFlightCount (as_router s) = 0 \<and>
     (\<exists>ps. drains s s' ps \<and> distinct ps \<and> set ps \<subseteq> set (eligible (as_router s)) \<and>
        MinWorkers (as_cfg s) \<le> WorkerCount (as_router s) - int (length ps)))"
  by (rule tick_one_direction_lemma [OF assms])

lemma scaler_ok_example: "scaler_ok example_scaler"
  using example_scaler_router(1) wf_example_metrics [of 0]
  by (simp add: scaler_ok_def good_config_def) (simp add: example_scaler_def NewAutoscaler_def)

theorem tick_one_direction_witness:
  "\<exists>s'. tick example_world example_scaler = Some s' \<and> scaler_ok s'"
  using tick_one_direction [OF scaler_ok_example good_example_world] by (auto simp: example_world_def second_def)

text \<open>A prediction that adds nothing still blocks the scale-down: with no workers to prewarm, as in the
  default configuration, any traffic trend above the threshold is turned into a scale-up of 0 workers,
  which sends nothing and drains nothing, however idle the cluster is.\<close>

theorem prediction_blocks_scale_down:
  assumes "\<not> fst (evaluateScaleUp m s)" and "RPSTrendThreshold (as_cfg s) < RPSTrend m"
    and "PrewarmWorkers (as_cfg s) = 0"
  shows "\<exists>s'. act wd m s = Some s' \<and> lastDecision s' = ''scale_up'' \<and> as_router s' = as_router s \<and>
    started s' = started s \<and> recentActions s' = recentActions s"
proof -
  have body: "scaleUp wd 0 m u = (if scalingInOp u then u
      else u\<lparr>steps := Suc (Suc (steps u)), lastScaleUp := clk wd (Suc (steps u)), scalingInOp := False\<rparr>)" for u
    by (simp add: scaleUp_def scaleUp_body_def getAgents_def Now_def Let_def)
  obtain d k t where D: "evaluateScaleDown wd m s = ((d, k), t)" by (metis surj_pair)
  have t: "as_cfg t = as_cfg s" "as_router t = as_router s" "started t = started s"
    "recentActions t = recentActions s"
    using D by (auto simp: evaluateScaleDown_def Let_def Now_def split: if_splits)
  show ?thesis
    using assms t by (auto simp: act_def split_beta D Let_def body decide_def)
qed

theorem prediction_blocks_scale_down_witness:
  "\<exists>s'. act example_world (zero_metrics\<lparr>TotalWorkers := 9, HealthyWorkers := 9, RPSTrend := 1\<rparr>)
      (example_scaler\<lparr>lowLoadSince := 1\<rparr>) = Some s' \<and> started s' = [] \<and> lastDecision s' = ''scale_up''"
proof -
  have "started example_scaler = []" by (simp add: example_scaler_def NewAutoscaler_def)
  moreover have "\<not> fst (evaluateScaleUp (zero_metrics\<lparr>TotalWorkers := 9, HealthyWorkers := 9, RPSTrend := 1\<rparr>)
      (example_scaler\<lparr>lowLoadSince := 1\<rparr>))"
    by (simp add: evaluateScaleUp_def queue_size_def zero_metrics_def int_of_float_def Let_def)
  ultimately show ?thesis
    using prediction_blocks_scale_down [of "zero_metrics\<lparr>TotalWorkers := 9, HealthyWorkers := 9, RPSTrend := 1\<rparr>"
        "example_scaler\<lparr>lowLoadSince := 1\<rparr>" example_world] by auto
qed

text \<open>As long as one registered agent has no healthy worker, a tick only starts workers for such agents: it
  asks for one per agent without, however long the queue is, and neither looks at the load nor drains.\<close>

theorem tick_serves_agents_first:
  assumes "scaler_ok s" and "good_world wd" and "a \<in> set (GetAgents (as_router s))"
    and "healthy_on (as_router s) (ai_AgentID a) = 0" and "ai_AgentID a \<noteq> ''''" and "WorkerCount (as_router s) \<noteq> 0"
  shows "\<exists>m u n. tick wd s = Some (scaleUp wd n m u) \<and> 1 \<le> n \<and> n \<le> int (length (GetAgents (as_router s))) \<and>
    as_router u = as_router s \<and> started u = started s \<and> lastDecisionReason u = AgentsWithoutWorkers n"
proof -
  obtain m mc where C: "collect_metrics wd s = Some (m, s\<lparr>steps := Suc (steps s), as_metrics := mc\<rparr>)"
    "TotalWorkers m = WorkerCount (as_router s)"
    using collect_step [OF assms(1), of wd] by blast
  let ?ags = "agent_order wd (Suc (steps s)) (GetAgents (as_router s))"
  have M: "mset ?ags = mset (GetAgents (as_router s))" using assms(2) by (simp add: good_world_def)
  then have a: "a \<in> set ?ags" "length ?ags = length (GetAgents (as_router s))"
    using assms(3) by (metis mset_eq_setD, metis size_mset)
  have "lookup0 (HealthyWorkerCountByAgent (as_router s)) (ai_AgentID a) = 0"
    using assms(4,5) by (simp add: HealthyWorkerCountByAgent_eq healthy_on_def conj_commute)
  then have "filter (\<lambda>a. lookup0 (HealthyWorkerCountByAgent (as_router s)) (ai_AgentID a) = 0) ?ags \<noteq> []"
    using a(1) by (auto simp: filter_empty_conv)
  then have n: "1 \<le> missing_agents ?ags (as_router s)" by (simp add: missing_agents_def Suc_le_eq)
  have "missing_agents ?ags (as_router s) \<le> int (length (GetAgents (as_router s)))"
    using a(2) by (metis length_filter_le missing_agents_def of_nat_le_iff)
  then show ?thesis
    using n a assms(6) C
    by (intro exI [of _ m] exI [of _ "decide ''scale_up'' (AgentsWithoutWorkers (missing_agents ?ags (as_router s)))
          (missing_agents ?ags (as_router s)) (decide ''none'' (Text ''metrics normal'') (HealthyWorkers m)
            (s\<lparr>as_metrics := mc, steps := Suc (Suc (steps s))\<rparr>))"] exI [of _ "missing_agents ?ags (as_router s)"])
      (auto simp: tick_def getAgents_def Let_def decide_def)
qed

definition lonely_scaler :: Autoscaler where
  "lonely_scaler = example_scaler\<lparr>as_router := (as_router example_scaler)\<lparr>agents :=
     [(''new'', \<lparr>ai_AgentID = ''new'', ai_Host = ''10.0.0.2'', ai_Port = 9000, ai_AddedAt = 1\<rparr>)]\<rparr>\<rparr>"

theorem tick_serves_agents_first_witness:
  "\<exists>m u. tick example_world lonely_scaler = Some (scaleUp example_world 1 m u) \<and> started u = []"
proof -
  let ?a = "\<lparr>ai_AgentID = ''new'', ai_Host = ''10.0.0.2'', ai_Port = 9000, ai_AddedAt = 1\<rparr>"
  have "scaler_ok lonely_scaler"
    using scaler_ok_example by (simp add: scaler_ok_def lonely_scaler_def wf_router_def)
  moreover have ags: "GetAgents (as_router lonely_scaler) = [?a]" by (simp add: lonely_scaler_def GetAgents_def)
  moreover have "healthy_on (as_router lonely_scaler) ''new'' = 0" "WorkerCount (as_router lonely_scaler) = 3"
    by (simp_all add: lonely_scaler_def example_scaler_def NewAutoscaler_def healthy_on_def registered_def
        example_router_def deref_def example_worker_def WorkerCount_def)
  moreover have "started lonely_scaler = []" by (simp add: lonely_scaler_def example_scaler_def NewAutoscaler_def)
  ultimately show ?thesis
    using tick_serves_agents_first [OF _ good_example_world, of lonely_scaler ?a] by fastforce
qed

section \<open>Cooldowns are not enforced\<close>

text \<open>The times of the last actions, overwritten.\<close>

definition with_times :: "time \<Rightarrow> time \<Rightarrow> Autoscaler \<Rightarrow> Autoscaler" where
  "with_times a b s = s\<lparr>lastScaleUp := a, lastScaleDown := b\<rparr>"

lemma with_times_fields [simp]:
  "as_router (with_times a b s) = as_router s" "as_cfg (with_times a b s) = as_cfg s"
  "as_metrics (with_times a b s) = as_metrics s" "steps (with_times a b s) = steps s"
  "agent_health (with_times a b s) = agent_health s" "scalingInOp (with_times a b s) = scalingInOp s"
  "lowLoadSince (with_times a b s) = lowLoadSince s" "highLoadSince (with_times a b s) = highLoadSince s"
  "lowLoadSet (with_times a b s) = lowLoadSet s" "highLoadSet (with_times a b s) = highLoadSet s"
  "started (with_times a b s) = started s" "recentActions (with_times a b s) = recentActions s"
  by (simp_all add: with_times_def)

text \<open>Every update of another field commutes with the overwriting.\<close>

lemma with_times_updates:
  "(with_times a b s)\<lparr>as_router := r\<rparr> = with_times a b (s\<lparr>as_router := r\<rparr>)"
  "(with_times a b s)\<lparr>steps := n\<rparr> = with_times a b (s\<lparr>steps := n\<rparr>)"
  "(with_times a b s)\<lparr>agent_health := h\<rparr> = with_times a b (s\<lparr>agent_health := h\<rparr>)"
  "(with_times a b s)\<lparr>as_metrics := mc\<rparr> = with_times a b (s\<lparr>as_metrics := mc\<rparr>)"
  "(with_times a b s)\<lparr>scalingInOp := x\<rparr> = with_times a b (s\<lparr>scalingInOp := x\<rparr>)"
  "(with_times a b s)\<lparr>highLoadSet := x\<rparr> = with_times a b (s\<lparr>highLoadSet := x\<rparr>)"
  "(with_times a b s)\<lparr>lowLoadSince := t\<rparr> = with_times a b (s\<lparr>lowLoadSince := t\<rparr>)"
  "(with_times a b s)\<lparr>started := g\<rparr> = with_times a b (s\<lparr>started := g\<rparr>)"
  "(with_times a b s)\<lparr>recentActions := acts\<rparr> = with_times a b (s\<lparr>recentActions := acts\<rparr>)"
  "(with_times a b s)\<lparr>lastDecisionReason := w\<rparr> = with_times a b (s\<lparr>lastDecisionReason := w\<rparr>)"
  "(with_times a b s)\<lparr>lastDecision := d\<rparr> = with_times a b (s\<lparr>lastDecision := d\<rparr>)"
  "decide d w c (with_times a b s) = with_times a b (decide d w c s)"
  by (simp_all add: with_times_def decide_def)

lemma with_times_env:
  "Now wd (with_times a b s) = map_prod id (with_times a b) (Now wd s)"
  "getAgents wd (with_times a b s) = map_prod id (with_times a b) (getAgents wd s)"
  "range_workers wd (with_times a b s) = map_prod id (with_times a b) (range_workers wd s)"
  "post wd url (with_times a b s) = map_prod id (with_times a b) (post wd url s)"
  "pickBestAgent wd ags (with_times a b s) = map_prod id (with_times a b) (pickBestAgent wd ags s)"
  "maxWorkersTotal (with_times a b s) = maxWorkersTotal s"
  "evaluateScaleUp m (with_times a b s) = evaluateScaleUp m s"
  by (simp_all add: Now_def getAgents_def range_workers_def post_def pickBestAgent_def maxWorkersTotal_def
      evaluateScaleUp_def with_times_updates Let_def)

lemma with_times_failure:
  "recordAgentFailure wd g (with_times a b s) = with_times a b (recordAgentFailure wd g s)"
  "resetAgentFailure g (with_times a b s) = with_times a b (resetAgentFailure g s)"
  "recordScalingAction wd x cnt why (with_times a b s) = with_times a b (recordScalingAction wd x cnt why s)"
  by (simp_all add: recordAgentFailure_def resetAgentFailure_def recordScalingAction_def Now_def
      with_times_updates Let_def split: option.split)

lemma with_times_spawn:
  "spawnWorkerOnAgent wd addr g (with_times a b s) = map_prod id (with_times a b) (spawnWorkerOnAgent wd addr g s)"
  by (auto simp: spawnWorkerOnAgent_def post_def with_times_updates split: http_resp.split option.split)

lemma with_times_attempts:
  "spawn_attempts wd addr g n e (with_times a b s) =
     map_prod id (map_prod id (with_times a b)) (spawn_attempts wd addr g n e s)"
  by (induction n arbitrary: e s) (auto simp: with_times_spawn split: prod.split option.split)

lemma with_times_retry:
  "spawnWorkerWithRetry wd g (with_times a b s) = map_prod id (with_times a b) (spawnWorkerWithRetry wd g s)"
  by (auto simp: spawnWorkerWithRetry_def with_times_attempts split: prod.split bool.split option.split)

lemma with_times_guarantee:
  "guarantee_loop wd c ags sp re (with_times a b s) =
     map_prod id (map_prod id (with_times a b)) (guarantee_loop wd c ags sp re s)"
  by (induction ags arbitrary: sp re s)
    (auto simp: with_times_retry with_times_failure split: prod.split option.split)

lemma with_times_spawn_loop:
  "spawn_loop n wd ags sp (with_times a b s) = map_prod id (with_times a b) (spawn_loop n wd ags sp s)"
  by (induction n arbitrary: sp s)
    (auto simp: with_times_env with_times_retry with_times_failure split: prod.split option.split)

lemma with_times_scaleUp_body: "scaleUp_body wd cnt m (with_times a b s) = with_times a b (scaleUp_body wd cnt m s)"
  by (auto simp: scaleUp_body_def with_times_env with_times_guarantee with_times_spawn_loop with_times_failure
      with_times_updates Let_def split: prod.split)

definition same_but_times :: "Autoscaler \<Rightarrow> Autoscaler \<Rightarrow> bool" where
  "same_but_times s t \<longleftrightarrow> (\<exists>a b. t = with_times a b s)"

lemma same_but_timesI: "same_but_times s (with_times a b s)"
  by (auto simp: same_but_times_def)

lemma same_but_times_scaleUp:
  "same_but_times (scaleUp wd cnt m s) (scaleUp wd cnt m (with_times a b s))"
proof (cases "scalingInOp s")
  case True
  then show ?thesis by (simp add: scaleUp_def same_but_timesI)
next
  case False
  let ?u = "scaleUp_body wd cnt m (s\<lparr>scalingInOp := True\<rparr>)"
  have "scaleUp wd cnt m (with_times a b s) = with_times (clk wd (steps ?u)) b (scaleUp wd cnt m s)"
    using False by (simp add: scaleUp_def with_times_updates(5) with_times_scaleUp_body Now_def Let_def)
      (simp add: with_times_def)
  then show ?thesis by (simp add: same_but_timesI)
qed

lemma with_times_select:
  "selectDrainCandidatesPerAgent wd cnt (with_times a b s) =
     map_option (map_prod id (with_times a b)) (selectDrainCandidatesPerAgent wd cnt s)"
  by (simp add: selectDrainCandidatesPerAgent_def range_workers_def with_times_updates Let_def)

lemma same_but_times_scaleDown:
  "rel_option same_but_times (scaleDown wd cnt m s) (scaleDown wd cnt m (with_times a b s))"
proof (cases "scalingInOp s")
  case True
  then show ?thesis by (simp add: scaleDown_def same_but_timesI)
next
  case False
  show ?thesis
  proof (cases "selectDrainCandidatesPerAgent wd cnt (s\<lparr>scalingInOp := True\<rparr>)")
    case None
    with False show ?thesis by (simp add: scaleDown_def with_times_updates(5) with_times_select)
  next
    case (Some x)
    obtain ps u where x: "x = (ps, u)" by (cases x)
    define done' where "done' t = (t\<lparr>scalingInOp := False\<rparr>)" for t :: Autoscaler
    define rec where "rec = recordScalingAction wd ''down'' (int (length ps))
      (DownMetrics (WorkerUtilization m) (RequestsPerSec m) (QueueDepth m) (HealthyWorkers m))"
    let ?v = "u\<lparr>started := started u @ map GoDrain ps\<rparr>"
    define w where "w = ?v\<lparr>steps := Suc (steps u), lastScaleDown := clk wd (steps u), lowLoadSet := False\<rparr>"
    have w': "(with_times a b u)\<lparr>started := started u @ map GoDrain ps, steps := Suc (steps u),
        lastScaleDown := clk wd (steps u), lowLoadSet := False\<rparr> = with_times a (clk wd (steps u)) w"
      by (simp add: w_def with_times_def)
    have v': "(with_times a b u)\<lparr>started := started u @ map GoDrain ps\<rparr> = with_times a b ?v"
      by (simp add: with_times_def)
    have "scaleDown wd cnt m s = Some (done' (if ps = [] then ?v else rec w))"
      using False by (simp add: scaleDown_def Some x Let_def Now_def w_def rec_def done'_def)
    moreover have "scaleDown wd cnt m (with_times a b s) = Some (done' (if ps = [] then with_times a b ?v
        else rec (with_times a (clk wd (steps u)) w)))"
      using False by (simp add: scaleDown_def with_times_updates(5) with_times_select Some x Let_def Now_def
          w' [symmetric] v' [symmetric] rec_def done'_def)
    moreover have "rec (with_times a c t) = with_times a c (rec t)" "done' (with_times a c t) = with_times a c (done' t)" for c t
      by (simp_all add: rec_def done'_def with_times_failure with_times_updates)
    ultimately show ?thesis by (simp add: same_but_timesI)
  qed
qed

lemma with_times_collect:
  "collect_metrics wd (with_times a b s) = map_option (map_prod id (with_times a b)) (collect_metrics wd s)"
  by (auto simp: collect_metrics_def Now_def with_times_updates Let_def split: option.split)

lemma with_times_scaleDown_eval:
  "evaluateScaleDown wd m (with_times a b s) = map_prod id (with_times a b) (evaluateScaleDown wd m s)"
  by (simp add: evaluateScaleDown_def Now_def with_times_updates Let_def)

lemma with_times_explain: "explain_none wd (with_times a b s) = with_times a b (explain_none wd s)"
  by (simp add: explain_none_def Now_def with_times_updates Let_def)

lemma with_times_reasons: "scale_up_reasons m (with_times a b s) = scale_up_reasons m s"
  by (simp add: scale_up_reasons_def)

lemma same_but_times_bootstrap: "same_but_times (bootstrap wd m s) (bootstrap wd m (with_times a b s))"
proof -
  have f: "fold (\<lambda>x. resetAgentFailure (ai_AgentID x)) ags (with_times a b t) =
      with_times a b (fold (\<lambda>x. resetAgentFailure (ai_AgentID x)) ags t)" for ags t
    by (induction ags arbitrary: t) (simp_all add: with_times_failure)
  have z: "(with_times a b t)\<lparr>lastScaleUp := zero_time\<rparr> = with_times zero_time b (t\<lparr>lastScaleUp := zero_time\<rparr>)" for t
    by (simp add: with_times_def)
  obtain ags t where "getAgents wd s = (ags, t)" by (cases "getAgents wd s")
  then show ?thesis
    by (simp add: bootstrap_def with_times_env f z with_times_updates same_but_timesI same_but_times_scaleUp
        Let_def)
qed

lemma same_but_times_act: "rel_option same_but_times (act wd m s) (act wd m (with_times a b s))"
proof -
  obtain up n where "evaluateScaleUp m s = (up, n)" by (metis surj_pair)
  moreover obtain d k t where "evaluateScaleDown wd m s = ((d, k), t)" by (metis surj_pair)
  ultimately show ?thesis
    by (simp add: act_def with_times_env with_times_scaleDown_eval with_times_reasons with_times_updates
        with_times_explain same_but_timesI same_but_times_scaleUp same_but_times_scaleDown Let_def)
qed

text \<open>C32. The configured cooldowns do not limit the control loop: a tick does not depend on when the last
  scale-up and scale-down happened. With any other times of the last actions it ends in the same state, those times apart.\<close>

theorem tick_ignores_cooldowns:
  "rel_option same_but_times (tick wd s) (tick wd (s\<lparr>lastScaleUp := a, lastScaleDown := b\<rparr>))"
proof -
  have "rel_option same_but_times (tick wd s) (tick wd (with_times a b s))"
  proof (cases "collect_metrics wd s")
    case None
    then show ?thesis by (simp add: tick_def with_times_collect)
  next
    case (Some x)
    obtain m t where x: "x = (m, t)" by (cases x)
    let ?t = "decide ''none'' (Text ''metrics normal'') (HealthyWorkers m) t"
    obtain ags u where "getAgents wd ?t = (ags, u)" by (metis surj_pair)
    with Some x show ?thesis
      by (simp add: tick_def with_times_collect with_times_env with_times_updates same_but_times_bootstrap
          same_but_times_scaleUp same_but_times_act Let_def)
  qed
  then show ?thesis by (simp add: with_times_def)
qed

end
