(* ===== verification/Server.thy ===== *)
theory Server
  imports Chat Control_Loop
begin

text \<open>
  The rest of \<open>master/lib/server.go\<close>: registration of agents with adoption of surviving workers, the
  callback of a worker that is ready, the fire-and-forget spawn request, the periodic loops and the
  start-up. JSON decoding, HTTP answers, dials, pings and the environment variable are arguments; \<open>during\<close>
  is what other goroutines do to the router while a handler dials.
\<close>

section \<open>Messages\<close>

record RunningWorkerInfo =
  rw_WorkerID :: string
  rw_Address :: string
  rw_ContainerID :: string

record AgentRegisterRequest =
  ar_AgentID :: string
  ar_Host :: string
  ar_Port :: int
  ar_Workers :: "RunningWorkerInfo list"

record WorkerReadyNotification =
  rn_WorkerID :: string
  rn_Address :: string
  rn_AgentID :: string
  rn_ContainerID :: string

datatype handler_reply = HandlerError int string | HandlerJson "(string \<times> string) list"

definition masterBaseURL :: "string \<Rightarrow> string" where
  "masterBaseURL u =
     (if u \<noteq> '''' then rev (dropWhile (\<lambda>c. c = CHR ''/'') (rev u)) else ''http://localhost:8080'')"

section \<open>Registering an agent\<close>

text \<open>\<open>dial i j\<close> is the error of the j-th dial of the i-th reported worker.\<close>

fun adopt_loop :: "(nat \<Rightarrow> nat \<Rightarrow> string option) \<Rightarrow> (nat \<Rightarrow> Router \<Rightarrow> Router) \<Rightarrow> string \<Rightarrow> nat \<Rightarrow>
    RunningWorkerInfo list \<Rightarrow> int \<Rightarrow> Router \<Rightarrow> int \<times> Router" where
  "adopt_loop dial during agentID i [] adopted r = (adopted, r)"
| "adopt_loop dial during agentID i (rw # rws) adopted r =
     (if rw_WorkerID rw = '''' then adopt_loop dial during agentID (Suc i) rws adopted r
      else if WorkerExists (rw_WorkerID rw) r then adopt_loop dial during agentID (Suc i) rws adopted r
      else
        case NewWorker (dial i) (rw_WorkerID rw) (rw_Address rw) of
          Inl err \<Rightarrow> adopt_loop dial during agentID (Suc i) rws adopted (during i r)
        | Inr wk \<Rightarrow> adopt_loop dial during agentID (Suc i) rws (adopted + 1)
            (add_fresh (SetAgentID agentID wk) (during i r)))"

definition agentRegisterHandler :: "(nat \<Rightarrow> nat \<Rightarrow> string option) \<Rightarrow> (nat \<Rightarrow> Router \<Rightarrow> Router) \<Rightarrow> time \<Rightarrow> string \<Rightarrow>
    AgentRegisterRequest option \<Rightarrow> Router \<Rightarrow> handler_reply \<times> Router \<times> goroutine list" where
  "agentRegisterHandler dial during now meth body r =
     (if meth \<noteq> ''POST'' then (HandlerError 405 ''method not allowed'', r, [])
      else case body of
        None \<Rightarrow> (HandlerError 400 ''invalid JSON'', r, [])
      | Some req \<Rightarrow>
          let r = RegisterAgent \<lparr>ai_AgentID = ar_AgentID req, ai_Host = ar_Host req, ai_Port = ar_Port req,
                ai_AddedAt = now\<rparr> r;
              (adopted, r) = adopt_loop dial during (ar_AgentID req) 0 (ar_Workers req) 0 r;
              gs = (if length (ar_Workers req) = 0
                then [GoSpawn (ar_AgentID req) (''http://'' @ ar_Host req @ '':'' @ itoa (ar_Port req))] else [])
          in (HandlerJson [(''status'', ''registered'')], r, gs))"

section \<open>A worker is ready\<close>

definition workerReadyHandler :: "(nat \<Rightarrow> string option) \<Rightarrow> string \<Rightarrow> WorkerReadyNotification option \<Rightarrow> Router \<Rightarrow>
    handler_reply \<times> Router" where
  "workerReadyHandler dial meth body r =
     (if meth \<noteq> ''POST'' then (HandlerError 405 ''method not allowed'', r)
      else case body of
        None \<Rightarrow> (HandlerError 400 ''invalid JSON'', r)
      | Some note \<Rightarrow>
          let workerID = (if rn_WorkerID note = '''' then ''worker-'' @ rn_Address note else rn_WorkerID note)
          in case NewWorker dial workerID (rn_Address note) of
               Inl err \<Rightarrow> (HandlerError 502 (''gRPC connect failed: '' @ err), r)
             | Inr wk \<Rightarrow> (HandlerJson [(''status'', ''registered''), (''worker_id'', workerID)],
                 add_fresh (SetAgentID (rn_AgentID note) wk) r))"

section \<open>Asking an agent to spawn\<close>

text \<open>The fields of the request body; the environment answers the i-th request from its URL and body.\<close>

definition spawn_body :: "string \<Rightarrow> string \<Rightarrow> (string \<times> string) list" where
  "spawn_body callbackURL agentID = [(''callback_url'', callbackURL), (''agent_id'', agentID)]"

definition accept_spawn :: "string \<Rightarrow> (string \<times> string) option \<Rightarrow> Router \<Rightarrow> Router" where
  "accept_spawn agentID body r =
     (case body of
        Some (workerID, address) \<Rightarrow>
          if workerID \<noteq> '''' then add_fresh (NewStartingWorker workerID address agentID) r else r
      | None \<Rightarrow> r)"

text \<open>The attempts: requests sent, time slept, whether one was accepted, and the router.\<close>

fun fire_attempts :: "(nat \<Rightarrow> http_resp) \<Rightarrow> string \<Rightarrow> nat \<Rightarrow> nat \<Rightarrow> duration \<Rightarrow> duration \<Rightarrow> Router \<Rightarrow>
    nat \<times> duration \<times> bool \<times> Router" where
  "fire_attempts ack agentID 0 i backoff slept r = (i, slept, False, r)"
| "fire_attempts ack agentID (Suc n) i backoff slept r =
     (case ack i of
        HttpError e \<Rightarrow>
          if 0 < n then fire_attempts ack agentID n (Suc i) (backoff * 2) (slept + backoff) r
          else fire_attempts ack agentID n (Suc i) backoff slept r
      | HttpStatus code body \<Rightarrow>
          if code = 202 \<or> 200 \<le> code \<and> code < 300
          then (Suc i, slept, True, accept_spawn agentID body r)
          else if 0 < n then fire_attempts ack agentID n (Suc i) (backoff * 2) (slept + backoff) r
          else fire_attempts ack agentID n (Suc i) backoff slept r)"

definition fireSpawnRequest :: "(nat \<Rightarrow> string \<Rightarrow> (string \<times> string) list \<Rightarrow> http_resp) \<Rightarrow> string \<Rightarrow> string \<Rightarrow> string \<Rightarrow>
    Router \<Rightarrow> nat \<times> duration \<times> bool \<times> Router" where
  "fireSpawnRequest send_post agentID agentAddr callbackBase r =
     (let callbackURL = callbackBase @ ''/workers/ready''
      in fire_attempts (\<lambda>i. send_post i (agentAddr @ ''/workers/create'') (spawn_body callbackURL agentID))
           agentID 3 0 (5 * second) 0 r)"

section \<open>Periodic loops\<close>

text \<open>The workers to ping, in the order the \<open>range\<close> yields the keys \<open>ks\<close>; then one ping each.\<close>

definition workers_to_ping :: "string list \<Rightarrow> Router \<Rightarrow> nat list" where
  "workers_to_ping ks r =
     filter (\<lambda>p. lifecycle (deref r p) = StateHealthy \<or> lifecycle (deref r p) = StateWarming) (range_ptrs r ks)"

definition Ping :: "string option \<Rightarrow> Worker \<Rightarrow> string option option" where
  "Ping err w = (if w_conn w = NilConn then None else Some err)"

fun ping_loop :: "(string \<Rightarrow> string option) \<Rightarrow> (nat \<Rightarrow> Router \<Rightarrow> Router) \<Rightarrow> nat list \<Rightarrow> Router \<Rightarrow> Router option" where
  "ping_loop ping during [] r = Some r"
| "ping_loop ping during (p # ps) r =
     (if 0 < ActiveRequests (deref r p) then ping_loop ping during ps r
      else case Ping (ping (w_id (deref r p))) (deref r p) of
        None \<Rightarrow> None
      | Some (Some err) \<Rightarrow> ping_loop ping during ps (modify p SetDraining (during p r))
      | Some None \<Rightarrow> ping_loop ping during ps (modify p MarkHealthy (during p r)))"

definition health_round :: "(string \<Rightarrow> string option) \<Rightarrow> (Router \<Rightarrow> string list) \<Rightarrow> (string \<Rightarrow> string option) \<Rightarrow>
    (nat \<Rightarrow> Router \<Rightarrow> Router) \<Rightarrow> Router \<Rightarrow> (Router \<times> goroutine list) option" where
  "health_round ce order ping during r =
     (let (r, gs) = RemoveIdleDraining ce r in
      map_option (\<lambda>r. (r, gs)) (ping_loop ping during (workers_to_ping (order r) r) r))"

definition admission_update :: "Router \<Rightarrow> AdmissionController \<Rightarrow> AdmissionController" where
  "admission_update r ac = UpdateLimits (HealthyWorkerCount r) ac"

section \<open>Start-up\<close>

definition Serve :: "time \<Rightarrow> string \<Rightarrow> Router \<Rightarrow> (AdmissionController \<times> Autoscaler) option" where
  "Serve now masterURL router =
     (case NewMetricsCollector now DefaultMetricsCollectorConfig of
        None \<Rightarrow> None
      | Some metrics \<Rightarrow>
          let admission = NewAdmissionController DefaultAdmissionConfig;
              autoscalerCfg = DefaultAutoscalerConfig\<lparr>CallbackBaseURL := masterBaseURL masterURL\<rparr>
          in Some (admission, NewAutoscaler autoscalerCfg (router\<lparr>has_autoscaler := True\<rparr>) metrics))"

section \<open>Workers that are dialled\<close>

definition reachable_worker :: "(nat \<Rightarrow> string option) \<Rightarrow> bool" where
  "reachable_worker dial \<longleftrightarrow> dial 0 = None \<or> dial 1 = None \<or> dial 2 = None"

definition fresh_worker :: "string \<Rightarrow> string \<Rightarrow> string \<Rightarrow> Worker" where
  "fresh_worker i addr agentID = \<lparr>w_id = i, w_addr = addr, activeRequests = 0, displayActive = 0,
     lifecycle = StateHealthy, w_status = WorkerHealthy, w_agentID = agentID, w_conn = OpenConn\<rparr>"

lemma fresh_worker_ok [simp]: "worker_ok (fresh_worker i a g)" "isRoutable (fresh_worker i a g)"
  "w_id (fresh_worker i a g) = i"
  by (simp_all add: fresh_worker_def worker_ok_def ToWorkerStatus_def isRoutable_def)

lemma NewWorker_reachable:
  "NewWorker dial i a = (if reachable_worker dial
     then Inr ((fresh_worker i a '''') )
     else Inl (''failed to connect after retries: '' @ the (dial 2)))"
  by (simp add: NewWorker_outcome reachable_worker_def fresh_worker_def)

lemma SetAgentID_fresh [simp]: "SetAgentID g (fresh_worker i a h) = fresh_worker i a g"
  by (simp add: SetAgentID_def fresh_worker_def)

section \<open>Adoption\<close>

text \<open>The address of the first reported worker of an id that can be dialled.\<close>

fun first_reachable :: "(nat \<Rightarrow> nat \<Rightarrow> string option) \<Rightarrow> nat \<Rightarrow> RunningWorkerInfo list \<Rightarrow> string \<Rightarrow> string option" where
  "first_reachable dial i [] k = None"
| "first_reachable dial i (rw # rws) k =
     (if rw_WorkerID rw = k \<and> reachable_worker (dial i) then Some (rw_Address rw)
      else first_reachable dial (Suc i) rws k)"

definition adopted_view :: "(nat \<Rightarrow> nat \<Rightarrow> string option) \<Rightarrow> string \<Rightarrow> nat \<Rightarrow> RunningWorkerInfo list \<Rightarrow>
    (string \<rightharpoonup> Worker) \<Rightarrow> string \<rightharpoonup> Worker" where
  "adopted_view dial g i rws m k =
     (case m k of
        Some w \<Rightarrow> Some w
      | None \<Rightarrow> if k = '''' then None
          else map_option (\<lambda>a. fresh_worker k a g) (first_reachable dial i rws k))"

lemma WorkerExists_iff: "WorkerExists k r \<longleftrightarrow> worker_of r k \<noteq> None"
  by (simp add: WorkerExists_def worker_of_def)

lemma worker_of_RegisterAgent [simp]: "worker_of (RegisterAgent a r) = worker_of r"
proof -
  have "deref (RegisterAgent a r) = deref r" by (simp add: RegisterAgent_def deref_def fun_eq_iff)
  moreover have "workers (RegisterAgent a r) = workers r" by (simp add: RegisterAgent_def)
  ultimately show ?thesis by (intro ext) (simp add: worker_of_def)
qed

lemma agents_add_fresh [simp]: "agents (add_fresh w r) = agents r"
  by (simp add: add_fresh_def alloc_def AddWorkerWithInstance_def)

lemma adopt_loop_view:
  "wf_router r \<Longrightarrow> \<exists>n s. adopt_loop dial (\<lambda>_ r. r) g i rws a r = (n, s) \<and> wf_router s \<and> agents s = agents r \<and>
     worker_of s = adopted_view dial g i rws (worker_of r)"
proof (induction rws arbitrary: i a r)
  case Nil
  then show ?case by (auto simp: adopted_view_def fun_eq_iff split: option.split)
next
  case (Cons rw rws)
  let ?k = "rw_WorkerID rw"
  show ?case
  proof (cases "?k \<noteq> '''' \<and> worker_of r ?k = None \<and> reachable_worker (dial i)")
    case True
    let ?r = "add_fresh (fresh_worker ?k (rw_Address rw) g) r"
    have r: "wf_router ?r" "worker_of ?r = (worker_of r)(?k \<mapsto> fresh_worker ?k (rw_Address rw) g)"
      using Cons.prems by (simp_all add: wf_add_fresh worker_of_add_fresh)
    have "adopt_loop dial (\<lambda>_ r. r) g i (rw # rws) a r = adopt_loop dial (\<lambda>_ r. r) g (Suc i) rws (a + 1) ?r"
      using True by (simp add: WorkerExists_iff NewWorker_reachable)
    moreover have "adopted_view dial g (Suc i) rws (worker_of ?r) = adopted_view dial g i (rw # rws) (worker_of r)"
      using True by (auto simp: r(2) adopted_view_def fun_eq_iff split: option.split)
    ultimately show ?thesis using Cons.IH [OF r(1), of "Suc i" "a + 1"] by simp
  next
    case False
    have "adopt_loop dial (\<lambda>_ r. r) g i (rw # rws) a r = adopt_loop dial (\<lambda>_ r. r) g (Suc i) rws a r"
      using False by (auto simp: WorkerExists_iff NewWorker_reachable)
    moreover have "adopted_view dial g (Suc i) rws (worker_of r) = adopted_view dial g i (rw # rws) (worker_of r)"
      using False by (auto simp: adopted_view_def fun_eq_iff split: option.split)
    ultimately show ?thesis using Cons.IH [OF Cons.prems, of "Suc i" a] by simp
  qed
qed

lemma agentRegister_lemma:
  assumes "wf_router r"
  shows "\<exists>s. agentRegisterHandler dial (\<lambda>_ r. r) now ''POST'' (Some req) r =
      (HandlerJson [(''status'', ''registered'')], s,
       if ar_Workers req = [] then [GoSpawn (ar_AgentID req)
         (''http://'' @ ar_Host req @ '':'' @ itoa (ar_Port req))] else []) \<and>
    wf_router s \<and>
    agent_of s = (agent_of r)(ar_AgentID req \<mapsto> \<lparr>ai_AgentID = ar_AgentID req, ai_Host = ar_Host req,
      ai_Port = ar_Port req, ai_AddedAt = now\<rparr>) \<and>
    worker_of s = (\<lambda>k. case worker_of r k of
        Some w \<Rightarrow> Some w
      | None \<Rightarrow> if k = '''' then None
          else map_option (\<lambda>a. fresh_worker k a (ar_AgentID req)) (first_reachable dial 0 (ar_Workers req) k))"
proof -
  let ?a = "\<lparr>ai_AgentID = ar_AgentID req, ai_Host = ar_Host req, ai_Port = ar_Port req, ai_AddedAt = now\<rparr>"
  let ?r = "RegisterAgent ?a r"
  have r: "wf_router ?r" "worker_of ?r = worker_of r"
    using assms by (simp_all add: wf_RegisterAgent)
  obtain n s where L: "adopt_loop dial (\<lambda>_ r. r) (ar_AgentID req) 0 (ar_Workers req) 0 ?r = (n, s)" "wf_router s"
    "agents s = agents ?r" "worker_of s = adopted_view dial (ar_AgentID req) 0 (ar_Workers req) (worker_of ?r)"
    using adopt_loop_view [OF r(1)] by blast
  have "agent_of s = (agent_of r)(ar_AgentID req \<mapsto> ?a)"
    using L(3) agent_of_RegisterAgent [of ?a r] by (simp add: agent_of_def)
  then show ?thesis
    using L r(2) by (intro exI [of _ s]) (simp add: agentRegisterHandler_def Let_def adopted_view_def fun_eq_iff)
qed

text \<open>C13. Registering an agent stores its address and adopts the workers it reports: a worker the registry
  knows keeps its entry, an unknown one is registered as healthy and the agent's under the address of the first
  report that could be dialled, and nothing else changes. A first worker is spawned exactly when the
  agent reports none, even if none of the reported ones could be adopted.\<close>

theorem agentRegister_adopts:
  assumes "wf_router r"
  shows "\<exists>s. agentRegisterHandler dial (\<lambda>_ r. r) now ''POST'' (Some req) r =
      (HandlerJson [(''status'', ''registered'')], s,
       if ar_Workers req = [] then [GoSpawn (ar_AgentID req)
         (''http://'' @ ar_Host req @ '':'' @ itoa (ar_Port req))] else []) \<and>
    wf_router s \<and>
    agent_of s = (agent_of r)(ar_AgentID req \<mapsto> \<lparr>ai_AgentID = ar_AgentID req, ai_Host = ar_Host req,
      ai_Port = ar_Port req, ai_AddedAt = now\<rparr>) \<and>
    worker_of s = (\<lambda>k. case worker_of r k of
        Some w \<Rightarrow> Some w
      | None \<Rightarrow> if k = '''' then None
          else map_option (\<lambda>a. fresh_worker k a (ar_AgentID req)) (first_reachable dial 0 (ar_Workers req) k))"
  by (rule agentRegister_lemma [OF assms])

section \<open>The spawn request\<close>

definition spawn_accepted :: "http_resp \<Rightarrow> bool" where
  "spawn_accepted a = (case a of HttpError _ \<Rightarrow> False | HttpStatus code _ \<Rightarrow> 200 \<le> code \<and> code < 300)"

definition spawn_reply :: "http_resp \<Rightarrow> (string \<times> string) option" where
  "spawn_reply a = (case a of HttpError _ \<Rightarrow> None | HttpStatus _ body \<Rightarrow> body)"

lemma fire_attempts_Suc:
  "fire_attempts ack g (Suc n) i b s r =
     (if spawn_accepted (ack i) then (Suc i, s, True, accept_spawn g (spawn_reply (ack i)) r)
      else if 0 < n then fire_attempts ack g n (Suc i) (b * 2) (s + b) r
      else (Suc i, s, False, r))"
  by (auto simp: spawn_accepted_def spawn_reply_def split: http_resp.split)

text \<open>A spawn request is sent at most three times, with pauses of 5 and 10 seconds, to the same URL and with
  the same body; the first answer with a 2xx status ends it and its announced worker is registered as a
  placeholder. If no attempt succeeds, 15 seconds have passed and the registry is unchanged.\<close>

theorem fireSpawnRequest_attempts:
  "fireSpawnRequest send_post agentID agentAddr callbackBase r =
     (let ack = (\<lambda>i. send_post i (agentAddr @ ''/workers/create'')
            [(''callback_url'', callbackBase @ ''/workers/ready''), (''agent_id'', agentID)])
      in if spawn_accepted (ack 0) then (1, 0, True, accept_spawn agentID (spawn_reply (ack 0)) r)
         else if spawn_accepted (ack 1) then (2, 5 * second, True, accept_spawn agentID (spawn_reply (ack 1)) r)
         else if spawn_accepted (ack 2) then (3, 15 * second, True, accept_spawn agentID (spawn_reply (ack 2)) r)
         else (3, 15 * second, False, r))"
  by (simp add: fireSpawnRequest_def spawn_body_def Let_def numeral_3_eq_3 numeral_2_eq_2 fire_attempts_Suc
      del: fire_attempts.simps)

section \<open>A round of health checks\<close>

definition pinged :: "(string \<Rightarrow> string option) \<Rightarrow> Worker \<Rightarrow> Worker" where
  "pinged ping w = (if 0 < activeRequests w then w else if ping (w_id w) = None then MarkHealthy w else SetDraining w)"

lemma pinged_ok: "worker_ok w \<Longrightarrow> w_conn w \<noteq> NilConn \<Longrightarrow> worker_ok (pinged ping w)"
  "w_id (pinged ping w) = w_id w" "w_conn (pinged ping w) = w_conn w"
  "activeRequests (pinged ping w) = activeRequests w"
  by (simp_all add: pinged_def worker_ok_ops) (simp_all add: MarkHealthy_def SetDraining_def)

lemma modify_same: "f (deref r p) = deref r p \<Longrightarrow> modify p f r = r"
  by (simp add: modify_def deref_def)

lemma ping_loop_eq:
  "wf_router r \<Longrightarrow> distinct ps \<Longrightarrow> \<forall>p \<in> set ps. p < length (heap r) \<and> w_conn (deref r p) \<noteq> NilConn \<Longrightarrow>
     \<exists>s. ping_loop ping (\<lambda>_ r. r) ps r = Some s \<and> wf_router s \<and> s = r\<lparr>heap := heap s\<rparr> \<and>
       length (heap s) = length (heap r) \<and>
       (\<forall>q. deref s q = (if q \<in> set ps then pinged ping (deref r q) else deref r q))"
proof (induction ps arbitrary: r)
  case (Cons p ps)
  let ?r = "modify p (pinged ping) r"
  have p: "p < length (heap r)" "w_conn (deref r p) \<noteq> NilConn" "p \<notin> set ps" using Cons.prems by auto
  have step: "ping_loop ping (\<lambda>_ r. r) (p # ps) r = ping_loop ping (\<lambda>_ r. r) ps ?r"
  proof (cases "0 < activeRequests (deref r p)")
    case True
    then have "?r = r" by (intro modify_same) (simp add: pinged_def)
    then show ?thesis using True by (simp add: ActiveRequests_def)
  next
    case False
    have "?r = (case ping (w_id (deref r p)) of None \<Rightarrow> modify p MarkHealthy r | Some e \<Rightarrow> modify p SetDraining r)"
      using False by (simp add: modify_def pinged_def deref_def split: option.split)
    then show ?thesis using False p(2) by (simp add: ActiveRequests_def Ping_def split: option.split)
  qed
  have wf: "wf_router ?r"
    using Cons.prems(1) wf_worker_ok [OF Cons.prems(1) p(1)] p(2) by (intro wf_modify) (simp_all add: pinged_ok)
  have d: "deref ?r q = (if q = p then pinged ping (deref r p) else deref r q)" for q
    using p(1) by (simp add: deref_modify)
  obtain s where s: "ping_loop ping (\<lambda>_ r. r) ps ?r = Some s" "wf_router s" "s = ?r\<lparr>heap := heap s\<rparr>"
    "length (heap s) = length (heap ?r)"
    "\<forall>q. deref s q = (if q \<in> set ps then pinged ping (deref ?r q) else deref ?r q)"
  proof -
    have "\<forall>q \<in> set ps. q < length (heap ?r) \<and> w_conn (deref ?r q) \<noteq> NilConn"
      using Cons.prems(3) p(2) by (simp add: d pinged_ok)
    then show ?thesis using that Cons.IH [OF wf] Cons.prems(2) by auto
  qed
  have "s = r\<lparr>heap := heap s\<rparr>" using s(3) by (simp add: modify_def)
  then show ?case using s p(3)
    by (intro exI [of _ s]) (auto simp: step d simp del: ping_loop.simps)
qed simp

definition checked :: "(string \<Rightarrow> string option) \<Rightarrow> Worker \<Rightarrow> Worker option" where
  "checked ping w =
     (if lifecycle w = StateDraining \<and> activeRequests w = 0 then None
      else if (lifecycle w = StateHealthy \<or> lifecycle w = StateWarming) \<and> activeRequests w = 0
      then Some (if ping (w_id w) = None then MarkHealthy w else SetDraining w)
      else Some w)"

definition good_order :: "(Router \<Rightarrow> string list) \<Rightarrow> bool" where
  "good_order order \<longleftrightarrow> (\<forall>s. wf_router s \<longrightarrow> enumerates (order s) (workers s))"

lemma health_round_checked:
  assumes "wf_router r" and "good_order order"
  shows "\<exists>s gs. health_round ce order ping (\<lambda>_ r. r) r = Some (s, gs) \<and> wf_router s \<and>
    worker_of s = (\<lambda>k. Option.bind (worker_of r k) (checked ping))"
proof -
  obtain r1 gs where R: "RemoveIdleDraining ce r = (r1, gs)" by (cases "RemoveIdleDraining ce r")
  have wf: "wf_router r1" and r1: "worker_of r1 = (\<lambda>k. case worker_of r k of None \<Rightarrow> None
       | Some w \<Rightarrow> if lifecycle w = StateDraining \<and> activeRequests w = 0 then None else Some w)"
    using RemoveIdleDraining_exact [OF assms(1), of ce] by (simp_all add: R)
  have en: "enumerates (order r1) (workers r1)" using assms(2) wf by (simp add: good_order_def)
  let ?ps = "workers_to_ping (order r1) r1"
  have in_ps: "p \<in> set ?ps \<longleftrightarrow> p \<in> snd ` set (workers r1) \<and>
      (lifecycle (deref r1 p) = StateHealthy \<or> lifecycle (deref r1 p) = StateWarming)" for p
    using range_ptrs_set [OF wf en] by (auto simp: workers_to_ping_def)
  have "w_conn (deref r1 p) \<noteq> NilConn \<and> p < length (heap r1)" if "p \<in> set ?ps" for p
  proof -
    have p: "p < length (heap r1)" using that range_ptrs_pointers(2) [OF wf en] by (simp add: workers_to_ping_def)
    then show ?thesis using that wf_worker_ok [OF wf p] by (auto simp: in_ps worker_ok_def)
  qed
  moreover have "distinct ?ps" using range_ptrs_pointers(1) [OF wf en] by (simp add: workers_to_ping_def)
  ultimately obtain s where s: "ping_loop ping (\<lambda>_ r. r) ?ps r1 = Some s" "wf_router s" "s = r1\<lparr>heap := heap s\<rparr>"
    "\<forall>q. deref s q = (if q \<in> set ?ps then pinged ping (deref r1 q) else deref r1 q)"
    using ping_loop_eq [OF wf, of ?ps ping] by blast
  obtain h where "s = r1\<lparr>heap := h\<rparr>" using s(3) by blast
  then have ws: "workers s = workers r1" by simp
  have "worker_of s k = Option.bind (worker_of r k) (checked ping)" for k
  proof (cases "map_of (workers r1) k")
    case None
    have "worker_of r1 k = None" using None by (simp add: worker_of_def)
    then show ?thesis using None ws by (auto simp: r1 worker_of_def [of s] checked_def split: option.splits if_splits)
  next
    case (Some p)
    then have "p \<in> snd ` set (workers r1)" by (force dest: map_of_SomeD)
    moreover have "worker_of r1 k = Some (deref r1 p)" using Some by (simp add: worker_of_def)
    moreover have "worker_ok (deref r1 p)" using wf_pointer [OF wf Some] wf_worker_ok [OF wf] by blast
    ultimately show ?thesis using Some ws s(4) in_ps [of p]
      by (auto simp: r1 worker_of_def [of s] checked_def pinged_def worker_ok_def split: option.splits if_splits)
  qed
  then show ?thesis using s(1,2) by (intro exI [of _ s] exI [of _ gs]) (auto simp: health_round_def R)
qed

text \<open>C17. A round of health checks never panics. It removes exactly the idle draining workers, pings exactly the
  idle healthy and warming ones and marks each healthy or draining after the answer; busy workers and
  those in any other state, such as placeholders still starting, keep their state.\<close>

theorem health_round_exact:
  assumes "wf_router r" and "good_order order"
  shows "\<exists>s gs. health_round ce order ping (\<lambda>_ r. r) r = Some (s, gs) \<and> wf_router s \<and>
    (\<forall>k. worker_of s k = (case worker_of r k of
        None \<Rightarrow> None
      | Some w \<Rightarrow>
          if lifecycle w = StateDraining \<and> activeRequests w = 0 then None
          else if (lifecycle w = StateHealthy \<or> lifecycle w = StateWarming) \<and> activeRequests w = 0
          then Some (if ping k = None then MarkHealthy w else SetDraining w)
          else Some w))"
proof -
  obtain s gs where s: "health_round ce order ping (\<lambda>_ r. r) r = Some (s, gs)" "wf_router s"
    "worker_of s = (\<lambda>k. Option.bind (worker_of r k) (checked ping))"
    using health_round_checked [OF assms] by blast
  have "w_id w = k" if "worker_of r k = Some w" for k w
    using worker_registry.look_key [OF assms(1) that] .
  then show ?thesis using s
    by (intro exI [of _ s] exI [of _ gs]) (auto simp: checked_def split: option.split)
qed

section \<open>A callback overtaken by the placeholder\<close>

fun health_rounds :: "(nat \<Rightarrow> string \<Rightarrow> string option) \<Rightarrow> (Router \<Rightarrow> string list) \<Rightarrow> (nat \<Rightarrow> string \<Rightarrow> string option) \<Rightarrow>
    nat \<Rightarrow> Router \<Rightarrow> Router option" where
  "health_rounds ce order ping 0 r = Some r"
| "health_rounds ce order ping (Suc n) r =
     Option.bind (health_round (ce n) order (ping n) (\<lambda>_ r. r) r) (\<lambda>(r, gs). health_rounds ce order ping n r)"

lemma starting_kept:
  assumes "good_order order"
  shows "wf_router r \<Longrightarrow> worker_of r k = Some (NewStartingWorker k a g) \<Longrightarrow>
    \<exists>s. health_rounds ce order ping n r = Some s \<and> worker_of s k = Some (NewStartingWorker k a g)"
proof (induction n arbitrary: r)
  case (Suc n)
  obtain s gs where s: "health_round (ce n) order (ping n) (\<lambda>_ r. r) r = Some (s, gs)" "wf_router s"
    "worker_of s = (\<lambda>k. Option.bind (worker_of r k) (checked (ping n)))"
    using health_round_checked [OF Suc.prems(1) assms] by blast
  have "worker_of s k = Some (NewStartingWorker k a g)"
    using Suc.prems(2) by (simp add: s(3)) (simp add: checked_def NewStartingWorker_def)
  then show ?case using Suc.IH [OF s(2)] s(1) by simp
qed simp

text \<open>C18. The order of an agent's two messages matters: when the callback of a ready worker is handled before
  the answer to the spawn request, the placeholder made from that answer replaces the registered healthy
  worker, and no number of health checks makes it routable: the running worker is lost.\<close>

theorem placeholder_overtakes_callback:
  assumes "wf_router r" and "good_order order" and "reachable_worker dial" and "rn_WorkerID note \<noteq> ''''"
  shows "\<exists>s t. workerReadyHandler dial ''POST'' (Some note) r =
      (HandlerJson [(''status'', ''registered''), (''worker_id'', rn_WorkerID note)], s) \<and>
    map_option isRoutable (worker_of s (rn_WorkerID note)) = Some True \<and>
    health_rounds ce order ping n (accept_spawn (rn_AgentID note) (Some (rn_WorkerID note, rn_Address note)) s) = Some t \<and>
    map_option isRoutable (worker_of t (rn_WorkerID note)) = Some False"
proof -
  let ?k = "rn_WorkerID note"
  let ?s = "add_fresh (fresh_worker ?k (rn_Address note) (rn_AgentID note)) r"
  let ?p = "NewStartingWorker ?k (rn_Address note) (rn_AgentID note)"
  let ?t = "accept_spawn (rn_AgentID note) (Some (?k, rn_Address note)) ?s"
  have W: "workerReadyHandler dial ''POST'' (Some note) r =
      (HandlerJson [(''status'', ''registered''), (''worker_id'', ?k)], ?s)"
    using assms(3,4) by (simp add: workerReadyHandler_def NewWorker_reachable Let_def)
  have wf: "wf_router ?s" using assms(1) by (simp add: wf_add_fresh)
  have id: "w_id ?p = ?k" and starting: "\<not> isRoutable ?p" by (simp_all add: NewStartingWorker_def isRoutable_def)
  have t: "?t = add_fresh ?p ?s" using assms(4) by (simp add: accept_spawn_def)
  have "wf_router ?t" unfolding t by (rule wf_add_fresh [OF wf worker_ok_new(2)])
  moreover have "worker_of ?t ?k = Some ?p" unfolding t using worker_of_add_fresh [OF wf, of ?p] by (simp add: id)
  ultimately obtain u where u: "health_rounds ce order ping n ?t = Some u" "worker_of u ?k = Some ?p"
    using starting_kept [OF assms(2)] by blast
  show ?thesis
    using W u worker_of_add_fresh [OF assms(1), of "fresh_worker ?k (rn_Address note) (rn_AgentID note)"]
    by (intro exI [of _ ?s] exI [of _ u]) (simp add: starting)
qed

section \<open>Examples\<close>

definition example_note :: WorkerReadyNotification where
  "example_note = \<lparr>rn_WorkerID = ''w9'', rn_Address = ''10.0.0.2:50052'', rn_AgentID = ''agent'', rn_ContainerID = ''c''\<rparr>"

definition example_registration :: AgentRegisterRequest where
  "example_registration = \<lparr>ar_AgentID = ''agent'', ar_Host = ''10.0.0.2'', ar_Port = 9000,
     ar_Workers = [\<lparr>rw_WorkerID = ''b'', rw_Address = ''x:1'', rw_ContainerID = ''''\<rparr>,
       \<lparr>rw_WorkerID = ''d'', rw_Address = ''x:2'', rw_ContainerID = ''''\<rparr>]\<rparr>"

definition key_order :: "Router \<Rightarrow> string list" where
  "key_order s = map fst (workers s)"

lemma good_key_order: "good_order key_order"
  by (simp add: good_order_def key_order_def enumerates_def wf_router_def)

theorem agentRegister_adopts_witness:
  "\<exists>s. agentRegisterHandler (\<lambda>_ _. None) (\<lambda>_ r. r) 7 ''POST'' (Some example_registration) (example_router 1) =
     (HandlerJson [(''status'', ''registered'')], s, []) \<and>
     worker_of s ''b'' = Some (example_worker ''b'' StateHealthy 1) \<and>
     worker_of s ''d'' = Some (fresh_worker ''d'' ''x:2'' ''agent'') \<and> worker_of s ''e'' = None"
proof -
  have "reachable_worker (\<lambda>_. None)" by (simp add: reachable_worker_def)
  then show ?thesis
    using agentRegister_adopts [OF wf_example [of 1], of "\<lambda>_ _. None" 7 example_registration]
    by (auto simp: example_registration_def worker_of_example)
qed

theorem health_round_exact_witness:
  "\<exists>s gs. health_round (\<lambda>_. None) key_order (\<lambda>_. Some ''refused'') (\<lambda>_ r. r) (example_router 1) = Some (s, gs) \<and>
     worker_of s ''a'' = None \<and> worker_of s ''b'' = Some (example_worker ''b'' StateHealthy 1) \<and>
     map_option lifecycle (worker_of s ''c'') = Some StateDraining"
proof -
  let ?r = "example_router 1" and ?ping = "\<lambda>_ :: string. Some ''refused''"
  obtain s gs where H: "health_round (\<lambda>_. None) key_order ?ping (\<lambda>_ r. r) ?r = Some (s, gs)"
    and w: "\<And>k. worker_of s k = (case worker_of ?r k of
        None \<Rightarrow> None
      | Some w \<Rightarrow>
          if lifecycle w = StateDraining \<and> activeRequests w = 0 then None
          else if (lifecycle w = StateHealthy \<or> lifecycle w = StateWarming) \<and> activeRequests w = 0
          then Some (if ?ping k = None then MarkHealthy w else SetDraining w)
          else Some w)"
    using health_round_exact [OF wf_example [of 1] good_key_order, of "\<lambda>_. None" ?ping] by auto
  show ?thesis
    using H w [of "''a''"] w [of "''b''"] w [of "''c''"]
    by (simp add: worker_of_example) (simp add: example_worker_def SetDraining_def)
qed

theorem placeholder_overtakes_callback_witness:
  "\<exists>s t. workerReadyHandler (\<lambda>_. None) ''POST'' (Some example_note) (example_router 1) =
      (HandlerJson [(''status'', ''registered''), (''worker_id'', ''w9'')], s) \<and>
    health_rounds (\<lambda>_ _. None) key_order (\<lambda>_ _. None) 100
      (accept_spawn ''agent'' (Some (''w9'', ''10.0.0.2:50052'')) s) = Some t \<and>
    map_option isRoutable (worker_of t ''w9'') = Some False"
proof -
  have "reachable_worker (\<lambda>_. None)" by (simp add: reachable_worker_def)
  then show ?thesis
    using placeholder_overtakes_callback [OF wf_example [of 1] good_key_order, of "\<lambda>_. None" example_note
        "\<lambda>_ _. None" "\<lambda>_ _. None" 100]
    by (auto simp: example_note_def simp del: health_rounds.simps)
qed

end
