(* ===== verification/Interference.thy ===== *)
theory Interference
  imports Chat
begin

text \<open>
  A chat request among others. \<open>HandleChat\<close> releases every lock while a worker answers, and the HTTP handler
  sleeps between its tries, so the rest of the program may change the router at those points. This theory
  states the condition on the rest of the program under which a request is served correctly, in the style of a
  rely condition, and what the request then promises. That the running master meets it is shown where its steps
  are defined.
\<close>

section \<open>The rely condition\<close>

definition has_conn :: "Router \<Rightarrow> nat \<Rightarrow> bool" where
  "has_conn r p \<longleftrightarrow> p < length (heap r) \<and> w_conn (deref r p) \<noteq> NilConn"

text \<open>A router that can serve a request not yet in flight; one that is serving it on worker \<open>p\<close>.\<close>

definition awaiting :: "string \<Rightarrow> Router \<Rightarrow> bool" where
  "awaiting requestID r \<longleftrightarrow> wf_router r \<and> known_strategy r \<and> flight_of (inflight r) requestID = None"

definition in_call :: "string \<Rightarrow> nat \<Rightarrow> Router \<Rightarrow> bool" where
  "in_call requestID p r \<longleftrightarrow> wf_router r \<and> known_strategy r \<and> has_conn r p \<and> 0 < activeRequests (deref r p) \<and>
     flight_of (inflight r) requestID \<noteq> None"

text \<open>What the rest of the program keeps for the request \<open>requestID\<close>: the router stays well formed, no worker is
  freed or loses its connection object, and the entry of this request is left alone. All else may change.\<close>

definition others :: "string \<Rightarrow> Router \<Rightarrow> Router \<Rightarrow> bool" where
  "others requestID r s \<longleftrightarrow> wf_router s \<and> known_strategy s \<and> (\<forall>p. has_conn r p \<longrightarrow> has_conn s p) \<and>
     length (heap r) \<le> length (heap s) \<and> flight_of (inflight s) requestID = flight_of (inflight r) requestID"

lemma others_refl: "wf_router r \<Longrightarrow> known_strategy r \<Longrightarrow> others requestID r r"
  by (simp add: others_def)

lemma others_trans: "others requestID r s \<Longrightarrow> others requestID s t \<Longrightarrow> others requestID r t"
  by (auto simp: others_def)

lemma others_awaiting: "awaiting requestID r \<Longrightarrow> others requestID r s \<Longrightarrow> awaiting requestID s"
  by (simp add: awaiting_def others_def)

text \<open>During a call nobody else gives back the slot this request has taken on its worker.\<close>

definition tolerant :: "chat_env \<Rightarrow> string \<Rightarrow> bool" where
  "tolerant env requestID \<longleftrightarrow> (\<forall>i s. wf_router s \<longrightarrow> good_env (ce_pick env i s) s) \<and>
     (\<forall>i p s. in_call requestID p s \<longrightarrow> others requestID s (ce_during env i p s) \<and> 0 < activeRequests (deref (ce_during env i p s) p))"

section \<open>The two ends of a call\<close>

definition begin_call :: "time \<Rightarrow> string \<Rightarrow> nat \<Rightarrow> Router \<Rightarrow> Router" where
  "begin_call t requestID p r = modify p send_begin (AddInFlight t requestID (w_addr (deref r p)) r)"

definition end_call :: "time \<Rightarrow> string \<Rightarrow> bool \<Rightarrow> nat \<Rightarrow> Router \<Rightarrow> Router" where
  "end_call t requestID ok p r =
     (let r = RemoveInFlight t requestID (modify p send_end r) in if ok then modify p MarkHealthy r else r)"

text \<open>An attempt of \<open>HandleChat\<close> is a begin, whatever happens meanwhile, and an end.\<close>

lemma send_to_ends:
  "send_to env i requestID req p r =
     (let s = begin_call (ce_begin env i) requestID p r in
      if w_conn (deref s p) = NilConn then None
      else Some (ce_call env i p (make_request requestID (Prompt req) (Tier req)),
        end_call (ce_end env i) requestID False p (ce_during env i p s)))"
  by (simp add: send_to_def begin_call_def end_call_def Let_def)

section \<open>The attempts of a request\<close>

text \<open>Each attempt with the router when its worker was picked, when the call began, and when it was answered.\<close>

record chat_attempt =
  at_picked :: Router
  at_worker :: nat
  at_begun :: Router
  at_answered :: Router

definition begun :: "chat_env \<Rightarrow> nat \<Rightarrow> string \<Rightarrow> nat \<Rightarrow> Router \<Rightarrow> Router" where
  "begun env i requestID p r = begin_call (ce_begin env i) requestID p r"

definition finished :: "chat_env \<Rightarrow> nat \<Rightarrow> string \<Rightarrow> nat \<Rightarrow> Router \<Rightarrow> Router" where
  "finished env i requestID p v = end_call (ce_end env i) requestID False p v"

fun attempts :: "chat_env \<Rightarrow> string \<Rightarrow> nat \<Rightarrow> nat \<Rightarrow> ChatRequest \<Rightarrow> Router \<Rightarrow> chat_attempt list" where
  "attempts env requestID 0 i req r = []"
| "attempts env requestID (Suc n) i req r =
     (case PickWorker (ce_pick env i r) r of
        Some (Inr p, s, g) \<Rightarrow>
          (let u = begun env i requestID p s; v = ce_during env i p u
           in \<lparr>at_picked = s, at_worker = p, at_begun = u, at_answered = v\<rparr> #
             (case answer env requestID req i p of
                Inl e \<Rightarrow> attempts env requestID n (Suc i) req (finished env i requestID p v)
              | Inr reply \<Rightarrow> []))
      | _ \<Rightarrow> [])"

fun answers :: "chat_env \<Rightarrow> string \<Rightarrow> ChatRequest \<Rightarrow> nat \<Rightarrow> chat_attempt list \<Rightarrow> (string + string) list" where
  "answers env requestID req i [] = []"
| "answers env requestID req i (x # xs) = answer env requestID req i (at_worker x) # answers env requestID req (Suc i) xs"

text \<open>What the others changed during the attempts: the load of a worker, and the number of requests in flight.\<close>

definition gained :: "chat_attempt list \<Rightarrow> nat \<Rightarrow> int" where
  "gained xs q = (\<Sum>x\<leftarrow>xs. activeRequests (deref (at_answered x) q) - activeRequests (deref (at_begun x) q))"

definition gained_flights :: "chat_attempt list \<Rightarrow> int" where
  "gained_flights xs = (\<Sum>x\<leftarrow>xs. InFlightCount (at_answered x) - InFlightCount (at_begun x))"

section \<open>One attempt\<close>

lemma begun_state:
  assumes "awaiting requestID r" and "has_conn r p"
  shows "in_call requestID p (begun env i requestID p r)"
    and "length (heap (begun env i requestID p r)) = length (heap r)"
    and "activeRequests (deref (begun env i requestID p r) q) = activeRequests (deref r q) + (if q = p then 1 else 0)"
    and "InFlightCount (begun env i requestID p r) = InFlightCount r + 1"
    and "has_conn r q \<Longrightarrow> has_conn (begun env i requestID p r) q"
proof -
  let ?a = "AddInFlight (ce_begin env i) requestID (w_addr (deref r p)) r"
  have d: "deref ?a q = deref r q" "heap ?a = heap r" for q by (simp_all add: AddInFlight_def deref_def)
  have p: "p < length (heap r)" "w_conn (deref r p) \<noteq> NilConn" using assms(2) by (simp_all add: has_conn_def)
  have wf: "wf_router r" "wf_inflight (inflight r)" using assms(1) by (simp_all add: awaiting_def wf_router_def)
  then have "wf_router ?a" by (simp add: wf_router_def AddInFlight_def wf_Add)
  moreover have "worker_ok (deref r p)" using wf(1) p(1) by (intro wf_worker_ok)
  then have "worker_ok (send_begin (deref r p))" by (rule worker_ok_ops)
  ultimately have w: "wf_router (begun env i requestID p r)"
    unfolding begun_def begin_call_def by (intro wf_modify) (simp_all add: d)
  have h: "heap (begun env i requestID p r) = (heap r)[p := send_begin (heap r ! p)]"
    by (simp add: begun_def begin_call_def modify_def AddInFlight_def)
  have e: "deref (begun env i requestID p r) q = (if q = p then send_begin (deref r p) else deref r q)" for q
    using p(1) by (simp add: deref_def h nth_list_update)
  have "0 \<le> activeRequests (deref r p)" using \<open>worker_ok (deref r p)\<close> by (simp add: worker_ok_def)
  moreover have "strategy (begun env i requestID p r) = strategy r"
    by (simp add: begun_def begin_call_def modify_def AddInFlight_def)
  moreover have f: "inflight (begun env i requestID p r) = Add (ce_begin env i) requestID (w_addr (deref r p)) (inflight r)"
    by (simp add: begun_def begin_call_def modify_def AddInFlight_def)
  ultimately show "in_call requestID p (begun env i requestID p r)"
    using w p assms(1)
    by (simp add: in_call_def has_conn_def e h awaiting_def known_strategy_def send_begin_def view_simps)
  show "length (heap (begun env i requestID p r)) = length (heap r)" by (simp add: h)
  show "activeRequests (deref (begun env i requestID p r) q) = activeRequests (deref r q) + (if q = p then 1 else 0)"
    by (simp add: e send_begin_def)
  show "has_conn r q \<Longrightarrow> has_conn (begun env i requestID p r) q" by (auto simp: has_conn_def e h send_begin_def)
  show "InFlightCount (begun env i requestID p r) = InFlightCount r + 1"
    using inflight_store.count_put [OF wf(2), of "\<lparr>if_RequestID = requestID, if_Worker = w_addr (deref r p), if_StartedAt = ce_begin env i\<rparr>"]
      assms(1) by (simp add: InFlightCount_def f put_flight_def awaiting_def)
qed

lemma finished_state:
  assumes "in_call requestID p v"
  shows "awaiting requestID (finished env i requestID p v)"
    and "length (heap (finished env i requestID p v)) = length (heap v)"
    and "activeRequests (deref (finished env i requestID p v) q) = activeRequests (deref v q) - (if q = p then 1 else 0)"
    and "InFlightCount (finished env i requestID p v) = InFlightCount v - 1"
    and "has_conn v q \<Longrightarrow> has_conn (finished env i requestID p v) q"
proof -
  have p: "p < length (heap v)" "w_conn (deref v p) \<noteq> NilConn" "0 < activeRequests (deref v p)" "wf_router v"
    using assms by (simp_all add: in_call_def has_conn_def)
  have wi: "wf_inflight (inflight v)" using p(4) by (simp add: wf_router_def)
  have "worker_ok (send_end (deref v p))" using wf_worker_ok [OF p(4,1)] p(3) by (rule worker_ok_ops)
  then have w: "wf_router (modify p send_end v)"
    using p(4) by (intro wf_modify) (simp_all add: send_end_def)
  have h: "heap (finished env i requestID p v) = (heap v)[p := send_end (heap v ! p)]"
    by (simp add: finished_def end_call_def Let_def modify_def RemoveInFlight_def)
  have e: "deref (finished env i requestID p v) q = (if q = p then send_end (deref v p) else deref v q)" for q
    using p(1) by (simp add: deref_def h nth_list_update)
  have f: "inflight (finished env i requestID p v) = Remove (ce_end env i) requestID (inflight v)"
    by (simp add: finished_def end_call_def Let_def modify_def RemoveInFlight_def)
  have "wf_router (finished env i requestID p v)"
    using w by (simp add: finished_def end_call_def Let_def RemoveInFlight_def wf_router_def wf_Remove)
  moreover have "strategy (finished env i requestID p v) = strategy v"
    by (simp add: finished_def end_call_def Let_def modify_def RemoveInFlight_def)
  ultimately show "awaiting requestID (finished env i requestID p v)"
    using assms by (simp add: awaiting_def in_call_def known_strategy_def f view_simps)
  show "length (heap (finished env i requestID p v)) = length (heap v)" by (simp add: h)
  show "activeRequests (deref (finished env i requestID p v) q) = activeRequests (deref v q) - (if q = p then 1 else 0)"
    by (simp add: e send_end_def)
  show "has_conn v q \<Longrightarrow> has_conn (finished env i requestID p v) q" by (auto simp: has_conn_def e h send_end_def)
  have "flight_of (inflight v) requestID \<noteq> None" using assms by (simp add: in_call_def)
  then have "0 < Count (inflight v)"
    by (cases "requests (inflight v)") (simp_all add: flight_of_def Count_def)
  then show "InFlightCount (finished env i requestID p v) = InFlightCount v - 1"
    using inflight_store.count_del [OF wi, of "ce_end env i" requestID] \<open>flight_of (inflight v) requestID \<noteq> None\<close>
    by (simp add: InFlightCount_def f)
qed

lemma MarkHealthy_state:
  assumes "awaiting requestID r" and "has_conn r p"
  shows "awaiting requestID (modify p MarkHealthy r)" and "length (heap (modify p MarkHealthy r)) = length (heap r)"
    and "activeRequests (deref (modify p MarkHealthy r) q) = activeRequests (deref r q)"
    and "InFlightCount (modify p MarkHealthy r) = InFlightCount r"
    and "has_conn r q \<Longrightarrow> has_conn (modify p MarkHealthy r) q"
proof -
  have p: "p < length (heap r)" "w_conn (deref r p) \<noteq> NilConn" "wf_router r"
    using assms by (simp_all add: awaiting_def has_conn_def)
  have "worker_ok (MarkHealthy (deref r p))" using wf_worker_ok [OF p(3,1)] p(2) by (rule worker_ok_ops)
  then have "wf_router (modify p MarkHealthy r)"
    using p(3) by (intro wf_modify) (simp_all add: MarkHealthy_def)
  then show "awaiting requestID (modify p MarkHealthy r)"
    using assms(1) by (simp add: awaiting_def known_strategy_def)
  show "length (heap (modify p MarkHealthy r)) = length (heap r)" by (simp add: modify_def)
  show "activeRequests (deref (modify p MarkHealthy r) q) = activeRequests (deref r q)"
    using p(1) by (simp add: deref_modify MarkHealthy_def)
  show "InFlightCount (modify p MarkHealthy r) = InFlightCount r" by (simp add: InFlightCount_def modify_def)
  show "has_conn r q \<Longrightarrow> has_conn (modify p MarkHealthy r) q"
    using p(1) by (auto simp: has_conn_def deref_modify MarkHealthy_def)
qed

text \<open>An attempt on worker \<open>p\<close>: the call, what it leaves, and the load it adds up to.\<close>

lemma attempt_outcome:
  assumes "tolerant env requestID" and "awaiting requestID r" and "has_conn r p"
    and "u = begun env i requestID p r" and "v = ce_during env i p u" and "s = finished env i requestID p v"
  shows "send_to env i requestID req p r = Some (ce_call env i p (make_request requestID (Prompt req) (Tier req)), s)"
    and "awaiting requestID s" and "length (heap r) \<le> length (heap s)" and "\<And>q. has_conn r q \<Longrightarrow> has_conn s q"
    and "activeRequests (deref s q) = activeRequests (deref r q) +
      (activeRequests (deref v q) - activeRequests (deref u q))"
    and "InFlightCount s = InFlightCount r + (InFlightCount v - InFlightCount u)"
proof -
  note b = begun_state [OF assms(2,3), where env = env and i = i, folded assms(4)]
  have o: "others requestID u v" "0 < activeRequests (deref v p)"
    using assms(1) b(1) by (simp_all add: tolerant_def assms(5))
  then have v: "in_call requestID p v" using b(1) by (simp add: in_call_def others_def)
  note f = finished_state [OF v, where env = env and i = i, folded assms(6)]
  have "w_conn (deref u p) \<noteq> NilConn" using b(1) by (simp add: in_call_def has_conn_def)
  then show "send_to env i requestID req p r = Some (ce_call env i p (make_request requestID (Prompt req) (Tier req)), s)"
    by (simp add: send_to_def Let_def assms(4-6) begun_def begin_call_def finished_def end_call_def Let_def)
  show "awaiting requestID s" using f(1) .
  show "length (heap r) \<le> length (heap s)" using b(2) f(2) o(1) by (simp add: others_def)
  show "\<And>q. has_conn r q \<Longrightarrow> has_conn s q" using b(5) f(5) o(1) by (simp add: others_def)
  show "activeRequests (deref s q) = activeRequests (deref r q) +
      (activeRequests (deref v q) - activeRequests (deref u q))"
    using b(3) [of q] f(3) [of q] by simp
  show "InFlightCount s = InFlightCount r + (InFlightCount v - InFlightCount u)"
    using b(4) f(4) by simp
qed

section \<open>The loop\<close>

text \<open>What is promised of a run from \<open>r\<close> to \<open>s\<close> with the attempts \<open>xs\<close>, of at most \<open>n\<close>: all but the last one failed.\<close>

definition run_account :: "string \<Rightarrow> Router \<Rightarrow> Router \<Rightarrow> chat_attempt list \<Rightarrow> bool" where
  "run_account requestID r s xs \<longleftrightarrow> awaiting requestID s \<and> length (heap r) \<le> length (heap s) \<and>
     (\<forall>q. has_conn r q \<longrightarrow> has_conn s q) \<and>
     (\<forall>q. activeRequests (deref s q) = activeRequests (deref r q) + gained xs q) \<and>
     InFlightCount s = InFlightCount r + gained_flights xs \<and> (\<forall>x \<in> set xs. serving_ptr (at_picked x) (at_worker x))"

definition run_result :: "nat \<Rightarrow> string \<Rightarrow> (string + string) list \<Rightarrow> string option \<Rightarrow> string option + ChatResponse \<Rightarrow>
    goroutine list \<Rightarrow> bool" where
  "run_result n requestID as lastErr res gs =
     (case res of
        Inr resp \<Rightarrow> gs = [] \<and> RequestID resp = requestID \<and> length as \<le> n \<and> (\<exists>errs. as = map Inl errs @ [Inr (Reply resp)])
      | Inl e \<Rightarrow> (gs = [] \<and> length as = n \<or> gs \<in> {[], [GoTriggerScaleUp]} \<and> length as < n) \<and>
          (if as = [] then e = lastErr else \<exists>errs err. e = Some err \<and> as = map Inl (errs @ [err])))"

lemma run_account_Cons:
  assumes "run_account requestID t s xs" and "length (heap r) \<le> length (heap t)" and "\<And>q. has_conn r q \<Longrightarrow> has_conn t q"
    and "\<And>q. activeRequests (deref t q) = activeRequests (deref r q) +
      (activeRequests (deref (at_answered x) q) - activeRequests (deref (at_begun x) q))"
    and "InFlightCount t = InFlightCount r + (InFlightCount (at_answered x) - InFlightCount (at_begun x))"
    and "serving_ptr (at_picked x) (at_worker x)"
  shows "run_account requestID r s (x # xs)"
  using assms by (auto simp: run_account_def gained_def gained_flights_def)

lemma run_result_Cons:
  assumes "run_result n requestID as (Some e) res gs"
  shows "run_result (Suc n) requestID (Inl e # as) lastErr res gs"
proof (cases res)
  case (Inr resp)
  then obtain errs where "as = map Inl errs @ [Inr (Reply resp)]" "gs = []" "RequestID resp = requestID" "length as \<le> n"
    using assms by (auto simp: run_result_def)
  then show ?thesis using Inr by (auto simp: run_result_def intro: exI [of _ "e # errs"])
next
  case (Inl err)
  show ?thesis
  proof (cases "as = []")
    case True
    then show ?thesis using assms Inl by (auto simp: run_result_def intro: exI [of _ "[]"])
  next
    case False
    then obtain errs x where "as = map Inl (errs @ [x])" "err = Some x" using assms Inl by (auto simp: run_result_def)
    then show ?thesis using assms Inl by (auto simp: run_result_def intro: exI [of _ "e # errs"])
  qed
qed

lemma attempts_boost:
  "attempts env requestID n (Suc i) (req\<lparr>Tier := ''elite''\<rparr>) r = attempts env requestID n (Suc i) req r"
  "answers env requestID (req\<lparr>Tier := ''elite''\<rparr>) (Suc i) xs = answers env requestID req (Suc i) xs"
proof -
  show "attempts env requestID n (Suc i) (req\<lparr>Tier := ''elite''\<rparr>) r = attempts env requestID n (Suc i) req r"
    by (induction n arbitrary: i r) (simp_all add: answer_boosted cong: option.case_cong prod.case_cong sum.case_cong)
  show "answers env requestID (req\<lparr>Tier := ''elite''\<rparr>) (Suc i) xs = answers env requestID req (Suc i) xs"
    by (induction xs arbitrary: i) (simp_all add: answer_boosted)
qed

lemma chat_loop_tolerant:
  assumes "tolerant env requestID"
  shows "awaiting requestID r \<Longrightarrow>
    \<exists>res s gs'. chat_loop env requestID n a req lastErr r gs = Some (res, s, gs @ gs') \<and>
      run_account requestID r s (attempts env requestID n a req r) \<and>
      run_result n requestID (answers env requestID req a (attempts env requestID n a req r)) lastErr res gs'"
proof (induction n arbitrary: a req lastErr r gs)
  case 0
  then show ?case by (simp add: run_account_def run_result_def gained_def gained_flights_def)
next
  case (Suc n)
  define req' where "req' = (if 0 < a \<and> Tier req \<noteq> ''elite'' then req\<lparr>Tier := ''elite''\<rparr> else req)"
  have boost: "attempts env requestID n (Suc a) req' t = attempts env requestID n (Suc a) req t"
    "answers env requestID req' (Suc a) xs = answers env requestID req (Suc a) xs" for t xs
    by (simp_all add: req'_def attempts_boost)
  have sent: "ce_call env a p (make_request requestID (Prompt req') (Tier req')) = answer env requestID req a p" for p
    by (auto simp: req'_def answer_def)
  have wf: "wf_router r" "known_strategy r" using Suc.prems by (simp_all add: awaiting_def)
  have good: "good_env (ce_pick env a r) r" using assms wf(1) by (simp add: tolerant_def)
  obtain res s g where P: "PickWorker (ce_pick env a r) r = Some (res, s, g)" and f: "chat_frame r s"
    and res: "case res of Inl err \<Rightarrow> err = ErrNoWorkersAvailable \<and> g = scale_up_call r
     | Inr p \<Rightarrow> g = [] \<and> p < length (heap s) \<and> w_conn (deref s p) \<noteq> NilConn \<and> serving_ptr s p"
    using PickWorker_outcome [OF wf(1) good wf(2)] by blast
  have h: "heap s = heap r" "InFlightCount s = InFlightCount r" using f by (simp_all add: chat_frame_def)
  have s: "awaiting requestID s" "has_conn s = has_conn r" "deref s = deref r" "length (heap s) = length (heap r)"
      "InFlightCount s = InFlightCount r"
    using f Suc.prems h by (simp_all add: awaiting_def chat_frame_def known_strategy_def has_conn_def deref_def fun_eq_iff)
  show ?case
  proof (cases res)
    case (Inl err)
    with P res s show ?thesis
      by (auto simp: run_account_def run_result_def gained_def gained_flights_def scale_up_call_def)
  next
    case (Inr p)
    with res have p: "g = []" "has_conn s p" "serving_ptr s p" by (auto simp: has_conn_def)
    define u where "u = begun env a requestID p s"
    define v where "v = ce_during env a p u"
    define t where "t = finished env a requestID p v"
    let ?x = "\<lparr>at_picked = s, at_worker = p, at_begun = u, at_answered = v\<rparr>"
    note one = attempt_outcome [OF assms s(1) p(2) u_def v_def t_def]
    have S: "send_to env a requestID req' p s = Some (answer env requestID req a p, t)" using one(1) [of req'] by (simp add: sent)
    have cons: "run_account requestID r w (?x # xs)" if "run_account requestID t w xs" for w xs
      using that by (rule run_account_Cons) (use one s p(3) in simp_all)
    have step: "chat_loop env requestID (Suc n) a req lastErr r gs =
        (case answer env requestID req a p of
           Inr reply \<Rightarrow> Some (Inr \<lparr>RequestID = requestID, Reply = reply\<rparr>, modify p MarkHealthy t, gs)
         | Inl e \<Rightarrow> chat_loop env requestID n (Suc a) req' (Some e) t gs)"
      using P S p(1) Inr by (simp add: req'_def split: sum.split)
    have tr: "attempts env requestID (Suc n) a req r = ?x # (case answer env requestID req a p of
        Inl e \<Rightarrow> attempts env requestID n (Suc a) req t | Inr reply \<Rightarrow> [])"
      using P Inr by (simp add: u_def v_def t_def Let_def cong: sum.case_cong)
    show ?thesis
    proof (cases "answer env requestID req a p")
      case (Inr reply)
      have "has_conn t p" using one(4) p(2) by simp
      note m = MarkHealthy_state [OF one(2) this]
      have "run_account requestID t (modify p MarkHealthy t) []"
        using m by (simp add: run_account_def gained_def gained_flights_def)
      then show ?thesis using step Inr tr cons by (simp add: run_result_def)
    next
      case (Inl e)
      obtain res' w gs' where L: "chat_loop env requestID n (Suc a) req' (Some e) t gs = Some (res', w, gs @ gs')"
        and A: "run_account requestID t w (attempts env requestID n (Suc a) req t)"
        and R: "run_result n requestID (answers env requestID req (Suc a) (attempts env requestID n (Suc a) req t)) (Some e) res' gs'"
        using Suc.IH [OF one(2), of "Suc a" req' "Some e" gs] by (auto simp: boost)
      show ?thesis using step Inl L tr cons [OF A] run_result_Cons [OF R] by simp
    qed
  qed
qed

section \<open>What a request among others is promised\<close>

definition call_result :: "string \<Rightarrow> (string + string) list \<Rightarrow> go_error + ChatResponse \<Rightarrow> goroutine list \<Rightarrow> bool" where
  "call_result requestID as res gs =
     (case res of
        Inr resp \<Rightarrow> gs = [] \<and> RequestID resp = requestID \<and> (\<exists>errs. as = map Inl errs @ [Inr (Reply resp)])
      | Inl ErrNoWorkersAvailable \<Rightarrow> as = [] \<and> gs \<in> {[], [GoTriggerScaleUp]}
      | Inl (ErrWorkerFailed e) \<Rightarrow> (\<exists>errs. as = map Inl (errs @ [e])) \<and> gs \<in> {[], [GoTriggerScaleUp]}
      | _ \<Rightarrow> False)"

lemma HandleChat_tolerant:
  assumes "tolerant env requestID" and "awaiting requestID r" and "xs = attempts env requestID 3 0 req r"
  shows "\<exists>res s gs. HandleChat env requestID req r = Some (res, s, gs) \<and> run_account requestID r s xs \<and> length xs \<le> 3 \<and>
    call_result requestID (answers env requestID req 0 xs) res gs"
proof -
  let ?as = "answers env requestID req 0 xs"
  obtain res s gs where L: "chat_loop env requestID 3 0 req None r [] = Some (res, s, [] @ gs)"
    and A: "run_account requestID r s xs" and R: "run_result 3 requestID ?as None res gs"
    using chat_loop_tolerant [OF assms(1,2)] assms(3) by blast
  have "length (answers env requestID req i ys) = length ys" for i ys by (induction ys arbitrary: i) simp_all
  moreover have "length ?as \<le> 3" using R by (auto simp: run_result_def split: sum.splits)
  ultimately have len: "length xs \<le> 3" by metis
  show ?thesis
  proof (cases res)
    case (Inr resp)
    then show ?thesis using L A R len by (auto simp: HandleChat_def call_result_def run_result_def)
  next
    case (Inl e)
    then show ?thesis using L A R len
      by (cases e) (auto simp: HandleChat_def call_result_def run_result_def split: if_splits)
  qed
qed

text \<open>C3. Serving a request among others. Whatever the rest of the program does to the router while
  workers are called (registering, draining, removing workers, serving other requests), serving a request does not
  panic, makes at most three attempts, each on a worker that was routable when it was picked, and all but
  the last of which failed; the result is the last answer. The request leaves nothing behind: it is
  not in flight, and the load of every worker and the number of requests in flight have changed exactly by what the
  others changed. If they change nothing, the workers, the registries and the requests in flight are as before.\<close>

theorem HandleChat_among_others:
  assumes "tolerant env requestID" and "awaiting requestID r" and "xs = attempts env requestID 3 0 req r"
  shows "\<exists>res s gs. HandleChat env requestID req r = Some (res, s, gs) \<and> wf_router s \<and> length xs \<le> 3 \<and>
    (\<forall>x \<in> set xs. serving_ptr (at_picked x) (at_worker x)) \<and> flight_of (inflight s) requestID = None \<and>
    (\<forall>q. activeRequests (deref s q) = activeRequests (deref r q) +
       (\<Sum>x\<leftarrow>xs. activeRequests (deref (at_answered x) q) - activeRequests (deref (at_begun x) q))) \<and>
    InFlightCount s = InFlightCount r + (\<Sum>x\<leftarrow>xs. InFlightCount (at_answered x) - InFlightCount (at_begun x)) \<and>
    (case res of
       Inr resp \<Rightarrow> gs = [] \<and> RequestID resp = requestID \<and>
         (\<exists>errs. answers env requestID req 0 xs = map Inl errs @ [Inr (Reply resp)])
     | Inl ErrNoWorkersAvailable \<Rightarrow> xs = [] \<and> gs \<in> {[], [GoTriggerScaleUp]}
     | Inl (ErrWorkerFailed e) \<Rightarrow> (\<exists>errs. answers env requestID req 0 xs = map Inl (errs @ [e])) \<and>
         gs \<in> {[], [GoTriggerScaleUp]}
     | _ \<Rightarrow> False) \<and>
    (quiet env \<longrightarrow> heap s = heap r \<and> workers s = workers r \<and> agents s = agents r \<and>
       flight_of (inflight s) = flight_of (inflight r))"
proof -
  obtain res s gs where H: "HandleChat env requestID req r = Some (res, s, gs)" "run_account requestID r s xs" "length xs \<le> 3"
    and R: "call_result requestID (answers env requestID req 0 xs) res gs"
    using HandleChat_tolerant [OF assms] by blast
  have n: "answers env requestID req 0 xs = [] \<longleftrightarrow> xs = []" by (cases xs) simp_all
  have q: "quiet env \<longrightarrow> heap s = heap r \<and> workers s = workers r \<and> agents s = agents r \<and>
       flight_of (inflight s) = flight_of (inflight r)"
  proof
    assume "quiet env"
    then have "chat_ready (\<lambda>_. env) requestID r"
      using assms(1,2) by (simp add: chat_ready_def awaiting_def tolerant_def)
    from HandleChat_served_lemma [OF this, where req = req] H(1)
    show "heap s = heap r \<and> workers s = workers r \<and> agents s = agents r \<and>
       flight_of (inflight s) = flight_of (inflight r)" by (auto simp: chat_frame_def)
  qed
  show ?thesis
    by (rule exI [of _ res], rule exI [of _ s], rule exI [of _ gs])
      (use H R q in \<open>simp add: run_account_def awaiting_def gained_def gained_flights_def call_result_def n cong: sum.case_cong go_error.case_cong\<close>)
qed

section \<open>The handler among other requests\<close>

text \<open>The routers the tries of the handler start from.\<close>

fun tries :: "(nat \<Rightarrow> chat_env) \<Rightarrow> (nat \<Rightarrow> Router \<Rightarrow> Router) \<Rightarrow> string \<Rightarrow> ChatRequest \<Rightarrow> nat \<Rightarrow> nat \<Rightarrow> Router \<Rightarrow> Router list" where
  "tries env pause requestID req 0 i r = []"
| "tries env pause requestID req (Suc n) i r = r #
     (case HandleChat (env i) requestID req r of
        Some (Inl ErrNoWorkersAvailable, s, g) \<Rightarrow> tries env pause requestID req n (Suc i) (pause i s)
      | _ \<Rightarrow> [])"

text \<open>The answer of the last attempt of a run from \<open>r\<close>, on a worker that was routable when it was picked.\<close>

definition last_answer :: "chat_env \<Rightarrow> string \<Rightarrow> ChatRequest \<Rightarrow> Router \<Rightarrow> string + string \<Rightarrow> bool" where
  "last_answer env requestID req r a \<longleftrightarrow> (\<exists>xs x. attempts env requestID 3 0 req r = xs @ [x] \<and> length xs < 3 \<and>
     serving_ptr (at_picked x) (at_worker x) \<and> answer env requestID req (length xs) (at_worker x) = a)"

lemma answers_last: "answers env requestID req i (xs @ [x]) = answers env requestID req i xs @ [answer env requestID req (i + length xs) (at_worker x)]"
  by (induction xs arbitrary: i) simp_all

lemma answers_Nil [simp]: "answers env requestID req i xs = [] \<longleftrightarrow> xs = []"
  by (cases xs) simp_all

lemma last_answerI:
  assumes "run_account requestID r s xs" and "length xs \<le> 3" and "xs = attempts env requestID 3 0 req r"
    and "answers env requestID req 0 xs = as @ [a]"
  shows "last_answer env requestID req r a"
proof (cases xs rule: rev_cases)
  case (snoc ys y)
  then show ?thesis using assms
    by (auto simp: last_answer_def answers_last run_account_def intro!: exI [of _ ys] exI [of _ y])
qed (use assms(4) in simp)

definition handler_ready :: "chat_call \<Rightarrow> string \<Rightarrow> Router \<Rightarrow> bool" where
  "handler_ready call requestID r \<longleftrightarrow> requestID \<noteq> '''' \<and> awaiting requestID r \<and> (\<forall>k. tolerant (cc_env call k) requestID) \<and>
     (\<forall>k s. awaiting requestID s \<longrightarrow> others requestID s (cc_pause call k s))"

lemma retry_loop_tolerant:
  assumes "requestID \<noteq> ''''" and "\<And>k. tolerant (env k) requestID" and "\<And>k s. awaiting requestID s \<Longrightarrow> others requestID s (pause k s)"
  shows "awaiting requestID r \<Longrightarrow>
    \<exists>res t gs'. retry_loop env pause requestID req n i r gs = Some (res, t, gs') \<and> awaiting requestID t \<and>
      (case res of
         Inr resp \<Rightarrow> RequestID resp = requestID \<and> (\<exists>k < length (tries env pause requestID req n i r).
           last_answer (env (i + k)) requestID req (tries env pause requestID req n i r ! k) (Inr (Reply resp))) \<or>
           RequestID resp = ''''
       | Inl err \<Rightarrow> (\<exists>e. err = ErrWorkerFailed e))"
proof (induction n arbitrary: i r gs)
  case 0
  then show ?case by (simp add: no_response_def)
next
  case (Suc n)
  let ?xs = "attempts (env i) requestID 3 0 req r"
  obtain res s g where H: "HandleChat (env i) requestID req r = Some (res, s, g)" and A: "run_account requestID r s ?xs"
    and len: "length ?xs \<le> 3" and R: "call_result requestID (answers (env i) requestID req 0 ?xs) res g"
    using HandleChat_tolerant [OF assms(2) Suc.prems refl] by blast
  have s: "awaiting requestID s" using A by (simp add: run_account_def)
  show ?case
  proof (cases res)
    case (Inr resp)
    with R have "RequestID resp = requestID" "\<exists>errs. answers (env i) requestID req 0 ?xs = map Inl errs @ [Inr (Reply resp)]"
      by (simp_all add: call_result_def)
    then have "last_answer (env i) requestID req r (Inr (Reply resp))"
      using last_answerI [OF A len refl] by blast
    then show ?thesis using H s Inr \<open>RequestID resp = requestID\<close> by (auto intro!: exI [of _ 0])
  next
    case (Inl err)
    show ?thesis
    proof (cases "err = ErrNoWorkersAvailable")
      case True
      have "awaiting requestID (pause i s)" using others_awaiting [OF s assms(3) [OF s]] .
      from Suc.IH [OF this, of "Suc i" "gs @ g"] show ?thesis
        using H Inl True by (fastforce split: sum.splits intro: exI [of _ "Suc k" for k])
    next
      case False
      with H R s Inl show ?thesis by (cases err) (auto simp: call_result_def)
    qed
  qed
qed

text \<open>The handler: its reply, its accounts, and whose answer a reply of 200 carries.\<close>

lemma handler_among_others:
  assumes "wf_metrics mc" and "\<forall>i. cc_uuid call = Inr i \<longrightarrow> handler_ready call i r" and "wf_router r"
  shows "\<exists>rep s mc' gs n. chatRequestHandler call r mc = Some (rep, s, mc', gs, n) \<and> wf_router s \<and>
    n = (if cc_method call = ''POST'' \<and> cc_body call \<noteq> None \<and> cc_admit call = None then 1 else 0) \<and>
    counted mc mc' = (if cc_method call = ''POST'' \<and> cc_body call \<noteq> None
      then (1, if hr_status rep = 200 then 0 else 1) else (0, 0)) \<and>
    hr_status rep \<in> (if cc_method call \<noteq> ''POST'' then {405} else if cc_body call = None then {400}
      else if cc_admit call \<noteq> None then {503, 504} else {200, 500, 502, 503}) \<and>
    (hr_status rep = 200 \<longrightarrow> (\<exists>req i k. cc_body call = Some req \<and> cc_uuid call = Inr i \<and> RequestID (hr_body rep) = i \<and>
      k < length (tries (cc_env call) (cc_pause call) i req 10 0 r) \<and>
      last_answer (cc_env call k) i req (tries (cc_env call) (cc_pause call) i req 10 0 r ! k) (Inr (Reply (hr_body rep)))))"
proof (cases "cc_method call = ''POST'' \<and> cc_body call \<noteq> None \<and> cc_admit call = None \<and> (\<exists>i. cc_uuid call = Inr i)")
  case False
  have c: "counted mc mc = (0, 0)" by (simp add: counted_def)
  consider "cc_method call \<noteq> ''POST''" | "cc_method call = ''POST''" "cc_body call = None"
    | req e where "cc_method call = ''POST''" "cc_body call = Some req" "cc_admit call = Some e"
    | req e where "cc_method call = ''POST''" "cc_body call = Some req" "cc_admit call = None" "cc_uuid call = Inl e"
    using False by (cases "cc_uuid call"; cases "cc_admit call"; cases "cc_body call") auto
  then show ?thesis
  proof cases
    case (3 req e)
    have "hr_status (admission_reply e) \<in> {503, 504}"
      by (cases e) (simp_all add: admission_reply_def http_error_def)
    with 3 show ?thesis using assms(3) counted_records(2) [of mc] by (auto simp: chatRequestHandler_def)
  qed (use assms(3) c counted_records(2) [of mc] in \<open>simp_all add: chatRequestHandler_def\<close>)
next
  case True
  then obtain req i where req: "cc_method call = ''POST''" "cc_body call = Some req" "cc_admit call = None"
    "cc_uuid call = Inr i" by auto
  then have i: "i \<noteq> ''''" "awaiting i r" "\<And>k. tolerant (cc_env call k) i"
      "\<And>k s. awaiting i s \<Longrightarrow> others i s (cc_pause call k s)"
    using assms(2) by (auto simp: handler_ready_def)
  let ?ts = "tries (cc_env call) (cc_pause call) i req 10 0 r"
  obtain res t gs where L: "retry_loop (cc_env call) (cc_pause call) i req 10 0 r [] = Some (res, t, gs)"
    and "awaiting i t" and R: "case res of
         Inr resp \<Rightarrow> RequestID resp = i \<and> (\<exists>k < length ?ts. last_answer (cc_env call (0 + k)) i req (?ts ! k) (Inr (Reply resp))) \<or>
           RequestID resp = ''''
       | Inl err \<Rightarrow> (\<exists>e. err = ErrWorkerFailed e)"
    using retry_loop_tolerant [where env = "cc_env call" and pause = "cc_pause call" and req = req and n = 10 and i = 0 and gs = "[]",
        OF i(1,3,4,2)] by blast
  then have t: "wf_router t" by (simp add: awaiting_def)
  obtain mc' where mc': "RecordLatency (Seconds (cc_elapsed call)) (RecordRequest mc) = Some mc'"
    using wf_RecordLatency [OF wf_metrics_records(1) [OF assms(1)]] by blast
  show ?thesis
  proof (cases res)
    case (Inl err)
    with R obtain e where "err = ErrWorkerFailed e" by auto
    then show ?thesis using L t Inl counted_records(2) [of mc]
      by (simp add: chatRequestHandler_def req)
  next
    case (Inr resp)
    with R i(1) L t mc' counted_records(2) [of mc] counted_records(3) [OF mc'] show ?thesis
      by (cases "RequestID resp = ''''") (simp_all add: chatRequestHandler_def req)
  qed
qed

text \<open>Alone, the request leaves the router as it was.\<close>

lemma handler_alone:
  assumes "chatRequestHandler call r mc = Some (rep, s, mc', gs, n)" and "wf_router r"
    and "\<And>i. cc_uuid call = Inr i \<Longrightarrow> handler_ready call i r"
    and "\<And>k. quiet (cc_env call k)" and "\<And>k t. cc_pause call k t = t"
  shows "chat_frame r s"
proof -
  have "chat_frame r t" if "cc_uuid call = Inr i" "retry_loop (cc_env call) (cc_pause call) i req 10 0 r [] = Some (res, t, g)"
    for i req res t g
  proof -
    have h: "handler_ready call i r" using assms(3) that(1) .
    then have "chat_ready (cc_env call) i r" "i \<noteq> ''''"
      using assms(4) by (simp_all add: handler_ready_def chat_ready_def awaiting_def tolerant_def)
    from retry_loop_result [OF this(2) _ this(1) chat_frame_refl [OF assms(2)], of "cc_pause call" req 10 0 "[]"]
    show ?thesis using that(2) assms(5) by auto
  qed
  then show ?thesis using assms(1) chat_frame_refl [OF assms(2)]
    by (auto simp: chatRequestHandler_def Let_def split: if_splits option.splits sum.splits prod.splits)
qed

text \<open>C5. Whatever the rest of the program does meanwhile, the chat handler does not panic and gives back its slot exactly
  when it was admitted. A request that is not a POST with a JSON body is not counted; every other request is counted
  once, and as one error exactly when the reply is not 200. A 200 carries the last answer of one of the handler's tries, by a worker that was
  routable when it was picked; 502 is a worker's error, 503 and 504 mean overload or no worker. If nobody else changes the
  router, the registry and the requests in flight are as before.\<close>

theorem chatRequestHandler_accounts:
  assumes "wf_metrics mc" and "wf_router r" and "\<And>i. cc_uuid call = Inr i \<Longrightarrow> handler_ready call i r"
  shows "\<exists>rep s mc' gs n. chatRequestHandler call r mc = Some (rep, s, mc', gs, n) \<and> wf_router s \<and>
    n = (if cc_method call = ''POST'' \<and> cc_body call \<noteq> None \<and> cc_admit call = None then 1 else 0) \<and>
    counted mc mc' = (if cc_method call = ''POST'' \<and> cc_body call \<noteq> None
      then (1, if hr_status rep = 200 then 0 else 1) else (0, 0)) \<and>
    hr_status rep \<in> (if cc_method call \<noteq> ''POST'' then {405} else if cc_body call = None then {400}
      else if cc_admit call \<noteq> None then {503, 504} else {200, 500, 502, 503}) \<and>
    (hr_status rep = 200 \<longrightarrow> (\<exists>req i k. cc_body call = Some req \<and> cc_uuid call = Inr i \<and> RequestID (hr_body rep) = i \<and>
      k < length (tries (cc_env call) (cc_pause call) i req 10 0 r) \<and>
      last_answer (cc_env call k) i req (tries (cc_env call) (cc_pause call) i req 10 0 r ! k) (Inr (Reply (hr_body rep))))) \<and>
    ((\<forall>k. quiet (cc_env call k)) \<and> (\<forall>k t. cc_pause call k t = t) \<longrightarrow> chat_frame r s)"
proof -
  have "\<forall>i. cc_uuid call = Inr i \<longrightarrow> handler_ready call i r" using assms(3) by blast
  from handler_among_others [OF assms(1) this assms(2)]
  show ?thesis
    by (elim exE conjE, intro exI conjI) (assumption | (rule impI, erule handler_alone [OF _ assms(2,3)]; blast))+
qed

section \<open>Examples\<close>

text \<open>While the first attempt runs, the worker it was sent to is drained; the others leave it alone.\<close>

definition meddling :: chat_env where
  "meddling = example_chat\<lparr>ce_during := \<lambda>i p. modify p MarkDraining\<rparr>"

lemma meddling_tolerant: "tolerant meddling ''id''"
proof -
  have "others ''id'' s (modify p MarkDraining s) \<and> 0 < activeRequests (deref (modify p MarkDraining s) p)"
    if "in_call ''id'' p s" for p s
  proof -
    have p: "p < length (heap s)" "wf_router s" "0 < activeRequests (deref s p)"
      using that by (simp_all add: in_call_def has_conn_def)
    have "worker_ok (MarkDraining (deref s p))"
      using wf_worker_ok [OF p(2,1)] by (simp add: MarkDraining_def SetLifecycleState_def worker_ok_def ToWorkerStatus_def)
    then have "wf_router (modify p MarkDraining s)" using p(2) by (intro wf_modify) (simp_all add: MarkDraining_def)
    moreover have "deref (modify p MarkDraining s) q = (if q = p then MarkDraining (deref s p) else deref s q)" for q
      using p(1) by (simp add: deref_modify)
    ultimately show ?thesis using that p(3)
      by (simp add: others_def in_call_def has_conn_def known_strategy_def MarkDraining_def)
  qed
  then show ?thesis by (simp add: tolerant_def meddling_def example_chat_def good_listed_env)
qed

lemma example_awaiting: "0 \<le> n \<Longrightarrow> awaiting ''id'' (example_router n)"
  using wf_example [of n]
  by (simp add: awaiting_def known_strategy_def)
    (simp add: example_router_def NewRouter_def flight_of_def NewInFlightStore_def)

lemma meddling_answer:
  "answer meddling i example_request j p = (if j = 0 then Inl ''timeout'' else Inr ''hi'')"
  by (simp add: answer_def meddling_def example_chat_def example_request_def make_request_def)

theorem HandleChat_among_others_witness:
  "\<exists>res s gs. HandleChat meddling ''id'' example_request (example_router 1) = Some (res, s, gs) \<and>
     flight_of (inflight s) ''id'' = None \<and>
     res \<in> {Inr \<lparr>RequestID = ''id'', Reply = ''hi''\<rparr>, Inl (ErrWorkerFailed ''timeout''), Inl ErrNoWorkersAvailable}"
proof -
  have in_as: "x \<in> {Inl ''timeout'', Inr ''hi''}" if "x \<in> set (answers meddling ''id'' example_request i xs)" for x i xs
    using that by (induction xs arbitrary: i) (auto simp: meddling_answer split: if_splits)
  have aw: "awaiting ''id'' (example_router 1)" by (simp add: example_awaiting)
  obtain res s gs where H: "HandleChat meddling ''id'' example_request (example_router 1) = Some (res, s, gs)"
    "flight_of (inflight s) ''id'' = None" and R: "case res of
       Inr resp \<Rightarrow> gs = [] \<and> RequestID resp = ''id'' \<and>
         (\<exists>errs. answers meddling ''id'' example_request 0 (attempts meddling ''id'' 3 0 example_request (example_router 1)) =
           map Inl errs @ [Inr (Reply resp)])
     | Inl ErrNoWorkersAvailable \<Rightarrow> attempts meddling ''id'' 3 0 example_request (example_router 1) = [] \<and> gs \<in> {[], [GoTriggerScaleUp]}
     | Inl (ErrWorkerFailed e) \<Rightarrow> (\<exists>errs. answers meddling ''id'' example_request 0 (attempts meddling ''id'' 3 0 example_request (example_router 1)) =
           map Inl (errs @ [e])) \<and> gs \<in> {[], [GoTriggerScaleUp]}
     | _ \<Rightarrow> False"
    using HandleChat_among_others [OF meddling_tolerant aw refl, of example_request] by (elim exE conjE) (rule that)
  have "res \<in> {Inr \<lparr>RequestID = ''id'', Reply = ''hi''\<rparr>, Inl (ErrWorkerFailed ''timeout''), Inl ErrNoWorkersAvailable}"
  proof (cases res)
    case (Inr resp)
    with R obtain errs where "answers meddling ''id'' example_request 0 (attempts meddling ''id'' 3 0 example_request (example_router 1)) =
        map Inl errs @ [Inr (Reply resp)]" "RequestID resp = ''id''" by auto
    then show ?thesis using in_as [of "Inr (Reply resp)" 0 "attempts meddling ''id'' 3 0 example_request (example_router 1)"] Inr
      by (cases resp) auto
  next
    case (Inl err)
    show ?thesis
    proof (cases err)
      case (ErrWorkerFailed e)
      with R Inl obtain errs where "answers meddling ''id'' example_request 0 (attempts meddling ''id'' 3 0 example_request (example_router 1)) =
          map Inl (errs @ [e])" by auto
      then show ?thesis using in_as [of "Inl e" 0 "attempts meddling ''id'' 3 0 example_request (example_router 1)"] Inl ErrWorkerFailed
        by auto
    qed (use R Inl in auto)
  qed
  then show ?thesis using H by blast
qed

definition meddled_call :: "string \<Rightarrow> chat_call" where
  "meddled_call m = (example_call m)\<lparr>cc_env := \<lambda>_. meddling\<rparr>"

lemma meddled_ready: "0 \<le> n \<Longrightarrow> handler_ready (meddled_call m) ''id'' (example_router n)"
  using example_awaiting [of n] meddling_tolerant
  by (simp add: handler_ready_def meddled_call_def example_call_def others_refl awaiting_def)

theorem chatRequestHandler_accounts_witness:
  "\<exists>rep s mc' gs n. chatRequestHandler (meddled_call ''POST'') (example_router 1) (example_metrics 0) =
     Some (rep, s, mc', gs, n) \<and> n = 1 \<and> hr_status rep \<in> {200, 500, 502, 503} \<and> wf_router s"
  using chatRequestHandler_accounts [OF wf_example_metrics wf_example [of 1], of "meddled_call ''POST''" 0] meddled_ready [of 1]
  by (auto simp: meddled_call_def example_call_def)

end
