(* ===== verification/Cluster.thy ===== *)
theory Cluster
  imports Server Interference
begin

text \<open>
  The running master as a step relation: chat requests, the handlers, the autoscaler, the health checks,
  drains and the operator's commands interleave on the shared router. A request is split where the code
  lets others run: a pick, the start of a call, its end. So is a health check: the workers to ping
  are collected, and each ping is started and later answered. A control step, a handler and the end of
  a drain are one step each.
\<close>

section \<open>States\<close>

record cluster =
  scaler :: Autoscaler
  picked :: "(nat \<times> string) list" \<comment> \<open>picked worker and request, not yet sent\<close>
  calls :: "(nat \<times> string) list" \<comment> \<open>requests being served\<close>
  pings :: "nat list"
  pinging :: "nat option"
  drains_running :: "nat list"

definition router :: "cluster \<Rightarrow> Router" where
  "router c = as_router (scaler c)"

definition upd :: "Router \<Rightarrow> goroutine list \<Rightarrow> cluster \<Rightarrow> cluster" where
  "upd r gs c = c\<lparr>scaler := (scaler c)\<lparr>as_router := r, started := started (scaler c) @ gs\<rparr>\<rparr>"

definition take_goroutine :: "goroutine \<Rightarrow> cluster \<Rightarrow> cluster" where
  "take_goroutine g c = c\<lparr>scaler := (scaler c)\<lparr>started := remove1 g (started (scaler c))\<rparr>\<rparr>"

section \<open>Steps\<close>

inductive cluster_step :: "cluster \<Rightarrow> cluster \<Rightarrow> bool" where
  pick: "good_env e (router c) \<Longrightarrow> PickWorker e (router c) = Some (Inr p, r, gs) \<Longrightarrow>
    cluster_step c ((upd r gs c)\<lparr>picked := (p, i) # picked c\<rparr>)"
| refuse: "good_env e (router c) \<Longrightarrow> PickWorker e (router c) = Some (Inl err, r, gs) \<Longrightarrow> cluster_step c (upd r gs c)"
| begin_step: "x \<in> set (picked c) \<Longrightarrow> cluster_step c ((upd (begin_call t (snd x) (fst x) (router c)) [] c)
    \<lparr>picked := remove1 x (picked c), calls := x # calls c\<rparr>)"
| end_step: "x \<in> set (calls c) \<Longrightarrow> cluster_step c ((upd (end_call t (snd x) ok (fst x) (router c)) [] c)
    \<lparr>calls := remove1 x (calls c)\<rparr>)"
| register: "agentRegisterHandler dial (\<lambda>_ r. r) t meth body (router c) = (rep, r, gs) \<Longrightarrow> cluster_step c (upd r gs c)"
| ready: "workerReadyHandler dial1 meth note (router c) = (rep, r) \<Longrightarrow> cluster_step c (upd r [] c)"
| spawn: "fireSpawnRequest send_post a addr base (router c) = (n, d, b, r) \<Longrightarrow> cluster_step c (upd r [] c)"
| control: "good_world wd \<Longrightarrow> \<forall>n. 0 < clk wd n \<Longrightarrow> tick wd (scaler c) = Some s \<Longrightarrow> cluster_step c (c\<lparr>scaler := s\<rparr>)"
| trigger: "GoTriggerScaleUp \<in> set (started (scaler c)) \<Longrightarrow>
    TriggerScaleUp wd (scaler (take_goroutine GoTriggerScaleUp c)) = Some s \<Longrightarrow> cluster_step c (c\<lparr>scaler := s\<rparr>)"
| collect_pings: "pings c = [] \<Longrightarrow> pinging c = None \<Longrightarrow> RemoveIdleDraining ce (router c) = (r, gs) \<Longrightarrow>
    enumerates ks (workers r) \<Longrightarrow> cluster_step c ((upd r gs c)\<lparr>pings := workers_to_ping ks r\<rparr>)"
| ping_skip: "pings c = p # ps \<Longrightarrow> pinging c = None \<Longrightarrow> 0 < ActiveRequests (deref (router c) p) \<Longrightarrow>
    cluster_step c (c\<lparr>pings := ps\<rparr>)"
| ping_start: "pings c = p # ps \<Longrightarrow> pinging c = None \<Longrightarrow> \<not> 0 < ActiveRequests (deref (router c) p) \<Longrightarrow>
    cluster_step c (c\<lparr>pings := ps, pinging := Some p\<rparr>)"
| ping_done: "pinging c = Some p \<Longrightarrow>
    cluster_step c ((upd (modify p (if b then MarkHealthy else SetDraining) (router c)) [] c)\<lparr>pinging := None\<rparr>)"
| drain_start: "GoDrain p \<in> set (started (scaler c)) \<Longrightarrow>
    cluster_step c ((upd (set_state StateDraining p (router c)) [] (take_goroutine (GoDrain p) c))
      \<lparr>drains_running := p # drains_running c\<rparr>)"
| drain_end: "p \<in> set (drains_running c) \<Longrightarrow> drain_finish ce p (router c) = (r, gs) \<Longrightarrow>
    cluster_step c ((upd r gs c)\<lparr>drains_running := remove1 p (drains_running c)\<rparr>)"
| kill: "GoKill p k \<in> set (started (scaler c)) \<Longrightarrow> kill_goroutine ce p k (router c) = (r, gs) \<Longrightarrow>
    cluster_step c (upd r gs (take_goroutine (GoKill p k) c))"
| remove_cmd: "RemoveWorker e1 k (router c) = (err1, r, gs) \<Longrightarrow> cluster_step c (upd r gs c)"
| drain_cmd: "DrainWorker k (router c) = (err2, gs) \<Longrightarrow> cluster_step c (upd (router c) gs c)"
| add_cmd: "AddWorker dial1 addr (router c) = (err3, r) \<Longrightarrow> cluster_step c (upd r [] c)"
| strategy_cmd: "m \<in> {StrategyLeastConnections, StrategyRoundRobin, StrategyRandom} \<Longrightarrow>
    cluster_step c (upd (SetStrategy m (router c)) [] c)"
| listing: "enumerates ks (workers (router c)) \<Longrightarrow> cluster_step c (upd (snd (WorkersSnapshot ks (router c))) [] c)"
| measure_request: "cluster_step c (c\<lparr>scaler := (scaler c)\<lparr>as_metrics := RecordRequest (as_metrics (scaler c))\<rparr>\<rparr>)"
| measure_error: "cluster_step c (c\<lparr>scaler := (scaler c)\<lparr>as_metrics := RecordError (as_metrics (scaler c))\<rparr>\<rparr>)"
| measure_queue: "cluster_step c (c\<lparr>scaler := (scaler c)\<lparr>as_metrics := SetQueueSize q (as_metrics (scaler c))\<rparr>\<rparr>)"
| measure_latency: "RecordLatency v (as_metrics (scaler c)) = Some mc \<Longrightarrow>
    cluster_step c (c\<lparr>scaler := (scaler c)\<lparr>as_metrics := mc\<rparr>\<rparr>)"

definition boot :: "Autoscaler \<Rightarrow> cluster" where
  "boot s = \<lparr>scaler = s, picked = [], calls = [], pings = [], pinging = None, drains_running = []\<rparr>"

inductive cluster_reachable :: "cluster \<Rightarrow> bool" where
  start: "Serve now url NewRouter = Some (ac, s) \<Longrightarrow> cluster_reachable (boot s)"
| step: "cluster_reachable c \<Longrightarrow> cluster_step c d \<Longrightarrow> cluster_reachable d"

section \<open>The invariant\<close>

definition in_use :: "cluster \<Rightarrow> nat set" where
  "in_use c = fst ` set (picked c) \<union> fst ` set (calls c) \<union> set (pings c) \<union> set_option (pinging c)"

definition cluster_ok :: "cluster \<Rightarrow> bool" where
  "cluster_ok c \<longleftrightarrow> scaler_ok (scaler c) \<and> known_strategy (router c) \<and> (\<forall>p \<in> in_use c. has_conn (router c) p) \<and>
     (\<forall>p < length (heap (router c)). activeRequests (deref (router c) p) = int (count_list (map fst (calls c)) p))"

lemma has_conn_kept: "keeps_load r s \<Longrightarrow> has_conn r p \<Longrightarrow> has_conn s p"
  by (auto simp: has_conn_def keeps_load_def)

lemma router_upd [simp]: "router (upd r gs c) = r" "calls (upd r gs c) = calls c" "picked (upd r gs c) = picked c"
  "pings (upd r gs c) = pings c" "pinging (upd r gs c) = pinging c" "in_use (upd r gs c) = in_use c"
  by (simp_all add: router_def upd_def in_use_def)

lemma router_updates [simp]:
  "router (c\<lparr>picked := x\<rparr>) = router c" "router (c\<lparr>calls := x\<rparr>) = router c" "router (c\<lparr>pings := y\<rparr>) = router c"
  "router (c\<lparr>pinging := z\<rparr>) = router c" "router (c\<lparr>drains_running := y\<rparr>) = router c"
  "router (c\<lparr>scaler := s\<rparr>) = as_router s" "router (take_goroutine g c) = router c"
  "calls (take_goroutine g c) = calls c" "in_use (take_goroutine g c) = in_use c"
  by (simp_all add: router_def take_goroutine_def in_use_def)

lemma scaler_ok_upd [simp]:
  "scaler_ok (scaler (upd r gs c)) \<longleftrightarrow> scaler_ok ((scaler c)\<lparr>as_router := r\<rparr>)"
  "scaler_ok (scaler (upd r gs (take_goroutine g c))) \<longleftrightarrow> scaler_ok ((scaler c)\<lparr>as_router := r\<rparr>)"
  by (simp_all add: scaler_ok_def upd_def take_goroutine_def)

lemma scaler_ok_router: "scaler_ok s \<Longrightarrow> wf_router r \<Longrightarrow> scaler_ok (s\<lparr>as_router := r\<rparr>)"
  by (simp add: scaler_ok_def)

lemma cluster_ok_wf: "cluster_ok c \<Longrightarrow> wf_router (router c)"
  by (simp add: cluster_ok_def scaler_ok_def router_def)

text \<open>A step that serves no request.\<close>

lemma cluster_ok_frame:
  assumes "cluster_ok c" and "scaler_ok (scaler d)" and "keeps_load (router c) (router d)" and "calls d = calls c"
    and "\<And>p. p \<in> in_use d \<Longrightarrow> p \<in> in_use c \<or> has_conn (router d) p"
  shows "cluster_ok d"
proof -
  have "fst ` set (calls c) \<subseteq> {..< length (heap (router c))}"
    using assms(1) by (auto simp: cluster_ok_def in_use_def has_conn_def)
  then have "count_list (map fst (calls c)) p = 0" if "length (heap (router c)) \<le> p" for p
    using that by (intro count_list_0_iff [THEN iffD2]) (auto simp: subset_iff)
  then have "activeRequests (deref (router d) p) = int (count_list (map fst (calls d)) p)"
    if "p < length (heap (router d))" for p
    using that assms(1,3,4) by (cases "p < length (heap (router c))") (auto simp: cluster_ok_def keeps_load_def)
  moreover have "has_conn (router d) p" if "p \<in> in_use d" for p
    using assms(5) [OF that] has_conn_kept [OF assms(3)] assms(1) unfolding cluster_ok_def by blast
  moreover have "known_strategy (router d)"
    using assms(1,3) by (simp add: cluster_ok_def known_strategy_def keeps_load_def)
  ultimately show ?thesis using assms(2) by (simp add: cluster_ok_def)
qed

lemma cluster_ok_router:
  assumes "cluster_ok c" and "wf_router r" and "keeps_load (router c) r"
  shows "cluster_ok (upd r gs c)"
  using assms by (intro cluster_ok_frame [OF assms(1)])
    (auto simp: scaler_ok_router cluster_ok_def known_strategy_def)

section \<open>What the operations keep\<close>

text \<open>Well-formedness and the request counters, of one operation on the router.\<close>

definition calm :: "Router \<Rightarrow> Router \<Rightarrow> bool" where
  "calm r s \<longleftrightarrow> (wf_router r \<longrightarrow> wf_router s) \<and> keeps_load r s"

lemma calm_refl: "calm r r"
  by (simp add: calm_def keeps_load_same)

lemma calm_trans [trans]: "calm r s \<Longrightarrow> calm s t \<Longrightarrow> calm r t"
  using keeps_load_trans by (auto simp: calm_def)

lemma calm_add_fresh: "worker_ok w \<Longrightarrow> activeRequests w = 0 \<Longrightarrow> calm r (add_fresh w r)"
  by (simp add: calm_def wf_add_fresh keeps_load_add_fresh)

lemma calm_RegisterAgent: "calm r (RegisterAgent a r)"
  by (simp add: calm_def wf_RegisterAgent) (simp add: keeps_load_same RegisterAgent_def)

lemma calm_drop_worker: "calm r (drop_worker ce k r)"
  by (simp add: calm_def wf_drop_worker keeps_load_drop_worker)

lemma calm_RemoveIdleDraining: "calm r (fst (RemoveIdleDraining ce r))"
proof -
  have "calm s (fold (drop_worker ce) is s)" for "is" s
    by (induction "is" arbitrary: s) (auto intro: calm_refl calm_trans calm_drop_worker)
  then show ?thesis by (simp add: RemoveIdleDraining_def remove_all_state)
qed

lemma calm_set_state:
  assumes "x \<noteq> StateHealthy" and "x \<noteq> StateWarming"
  shows "calm r (set_state x p r)"
  using assms by (auto simp: calm_def wf_set_state) 
    (simp_all add: set_state_def keeps_load_modify SetLifecycleState_def)

lemma calm_close_worker: "calm r (close_worker e p r)"
  by (auto simp: calm_def wf_close_worker) (simp_all add: close_worker_def keeps_load_modify Close_load)

lemma calm_drain_finish: "calm r (fst (drain_finish ce p r))"
proof -
  let ?i = "w_id (deref r p)"
  let ?r1 = "set_state StateStopping p r" let ?r2 = "close_worker (ce ?i) p ?r1"
  let ?r3 = "set_state StateDead p ?r2"
  have "calm r ?r1" by (simp add: calm_set_state)
  also have "calm ?r1 ?r2" by (rule calm_close_worker)
  also have "calm ?r2 ?r3" by (simp add: calm_set_state)
  also have "calm ?r3 (drop_worker ce ?i ?r3)" by (rule calm_drop_worker)
  finally show ?thesis by (simp add: drain_finish_def Let_def split_beta RemoveWorker_drop)
qed

lemma calm_kill: "calm r (fst (kill_goroutine ce p k r))"
proof -
  let ?r1 = "set_state StateStopping p r" let ?r2 = "close_worker (ce k) p ?r1"
  have "calm r ?r1" by (simp add: calm_set_state)
  also have "calm ?r1 ?r2" by (rule calm_close_worker)
  also have "calm ?r2 (drop_worker ce k ?r2)" by (rule calm_drop_worker)
  finally show ?thesis by (simp add: kill_goroutine_def Let_def split_beta RemoveWorker_drop)
qed

lemma calm_mark:
  assumes "has_conn r p"
  shows "calm r (modify p (if b then MarkHealthy else SetDraining) r)"
  using assms by (auto simp: calm_def has_conn_def wf_modify wf_worker_ok worker_ok_ops)
    (simp_all add: keeps_load_modify MarkHealthy_def SetDraining_def)

lemma calm_adopt: "calm r (snd (adopt_loop dial (\<lambda>_ r. r) g i rws a r))"
proof (induction rws arbitrary: i a r)
  case (Cons rw rws)
  have "calm r (add_fresh (fresh_worker k x g) r)" for k x
    by (rule calm_add_fresh) (simp_all add: fresh_worker_def [of k x g, THEN arg_cong, of activeRequests])
  from calm_trans [OF this Cons] show ?case using Cons by (simp add: NewWorker_reachable)
qed (simp add: calm_refl)

lemma calm_register: "agentRegisterHandler dial (\<lambda>_ r. r) t meth body r = (rep, s, gs) \<Longrightarrow> calm r s"
  using calm_trans [OF calm_RegisterAgent calm_adopt]
  by (auto simp: agentRegisterHandler_def Let_def split_beta calm_refl calm_RegisterAgent
      split: if_splits option.splits)

lemma calm_ready: "workerReadyHandler dial meth body r = (rep, s) \<Longrightarrow> calm r s"
proof -
  have "calm r (add_fresh (fresh_worker k x g) r)" for k x g
    by (rule calm_add_fresh) (simp_all add: fresh_worker_def [of k x g, THEN arg_cong, of activeRequests])
  then show "workerReadyHandler dial meth body r = (rep, s) \<Longrightarrow> calm r s"
    by (auto simp: workerReadyHandler_def Let_def NewWorker_reachable calm_refl split: if_splits option.splits)
qed

lemma calm_accept_spawn: "calm r (accept_spawn g body r)"
proof -
  have "calm r (add_fresh (NewStartingWorker k x g) r)" for k x
    by (rule calm_add_fresh [OF worker_ok_new(2)]) (simp add: NewStartingWorker_def)
  then show ?thesis by (auto simp: accept_spawn_def calm_refl split: option.split)
qed

lemma calm_spawn:
  assumes "fireSpawnRequest send_post a addr base r = (n, d, b, s)"
  shows "calm r s"
proof -
  have "calm r (snd (snd (snd (fire_attempts ack g m i x y r))))" for ack g m i x y
    by (induction m arbitrary: i x y) (simp_all add: calm_refl fire_attempts_Suc calm_accept_spawn del: fire_attempts.simps(2))
  then show ?thesis using assms by (simp add: fireSpawnRequest_def Let_def) (metis snd_conv)
qed

lemma calm_remove: "RemoveWorker e k r = (err, s, gs) \<Longrightarrow> calm r s"
  using calm_drop_worker [of r "\<lambda>_. e" k] by (simp add: drop_worker_def)

lemma calm_add: "AddWorker dial addr r = (err, s) \<Longrightarrow> calm r s"
proof -
  have n: "calm r (add_fresh (fresh_worker k x g) r)" for k x g
    by (rule calm_add_fresh) (simp_all add: fresh_worker_def [of k x g, THEN arg_cong, of activeRequests])
  have "add_fresh w r = r\<lparr>heap := heap r @ [w], workers := AList.update (w_id w) (length (heap r)) (workers r)\<rparr>" for w
    by (simp add: add_fresh_def alloc_def AddWorkerWithInstance_def deref_def)
  note e = this [of "fresh_worker k x g" for k x g, simplified, symmetric]
  show "AddWorker dial addr r = (err, s) \<Longrightarrow> calm r s"
    using n by (auto simp: AddWorker_def Let_def NewWorker_reachable alloc_def e calm_refl split: if_splits)
qed

lemma calm_snapshot: "calm r (snd (WorkersSnapshot ks r))"
proof -
  have one: "calm s (modify p (\<lambda>_. snd (Snapshot (deref s p))) s)" for p s
  proof (cases "p < length (heap s)")
    case True
    have "activeRequests (snd (Snapshot w)) = activeRequests w" "w_conn (snd (Snapshot w)) = w_conn w" for w
      by (simp_all add: Snapshot_def Let_def)
    then show ?thesis using True
      by (auto simp: calm_def keeps_load_modify wf_worker_ok worker_ok_ops intro!: wf_modify)
  next
    case False
    then show ?thesis by (simp add: modify_def list_update_beyond calm_refl)
  qed
  have "calm s (snd (snapshot_loop ps s out))" for ps s out
  proof (induction ps arbitrary: s out)
    case (Cons p ps)
    show ?case using calm_trans [OF one Cons] by (simp add: split_beta)
  qed (simp add: calm_refl)
  then show ?thesis by (simp add: WorkersSnapshot_def split_beta)
qed

lemma pick_outcome:
  assumes "cluster_ok c" and "good_env e (router c)" and "PickWorker e (router c) = Some (res, s, gs)"
  shows "\<exists>n. s = (router c)\<lparr>rrCounter := n\<rparr>" and "res = Inr p \<Longrightarrow> has_conn (router c) p \<and> isRoutable (deref (router c) p)"
proof -
  have wf: "wf_router (router c)" and k: "known_strategy (router c)"
    using assms(1) by (simp_all add: cluster_ok_wf cluster_ok_def)
  have P: "pickWithStrategy (strategy (router c)) e (router c) = Some (res, s)"
    using assms(3) by (auto simp: PickWorker_def split: option.splits)
  then show "\<exists>n. s = (router c)\<lparr>rrCounter := n\<rparr>" using any_picker.frame by blast
  then obtain n where s: "s = (router c)\<lparr>rrCounter := n\<rparr>" by blast
  show "has_conn (router c) p \<and> isRoutable (deref (router c) p)" if "res = Inr p"
  proof -
    from P that have P: "pickWithStrategy (strategy (router c)) e (router c) = Some (Inr p, s)" by simp
    have d: "deref s p = deref (router c) p" "heap s = heap (router c)" by (simp_all add: s deref_def)
    have "p < length (heap s)" "w_conn (deref s p) \<noteq> NilConn"
      using any_picker.picked_registered [OF wf assms(2) P] by blast+
    then show ?thesis
      using any_picker.picked [OF wf assms(2) P] by (simp add: d has_conn_def has_room_def)
  qed
qed

section \<open>The counters count the requests being served\<close>

lemma calm_cluster: "cluster_ok c \<Longrightarrow> calm (router c) r \<Longrightarrow> cluster_ok (upd r gs c)"
  using cluster_ok_router cluster_ok_wf by (auto simp: calm_def)

lemma cluster_ok_forget:
  "cluster_ok c \<Longrightarrow> cluster_ok (c\<lparr>drains_running := x\<rparr>)"
  "cluster_ok c \<Longrightarrow> cluster_ok (take_goroutine g c)"
  "cluster_ok c \<Longrightarrow> pings c = p # ps \<Longrightarrow> cluster_ok (c\<lparr>pings := ps\<rparr>)"
  "cluster_ok c \<Longrightarrow> pings c = p # ps \<Longrightarrow> pinging c = None \<Longrightarrow> cluster_ok (c\<lparr>pings := ps, pinging := Some p\<rparr>)"
  "cluster_ok c \<Longrightarrow> cluster_ok (c\<lparr>pinging := None\<rparr>)"
  "cluster_ok c \<Longrightarrow> has_conn (router c) p \<Longrightarrow> cluster_ok (c\<lparr>picked := (p, i) # picked c\<rparr>)"
  "cluster_ok c \<Longrightarrow> \<forall>p \<in> set ps. has_conn (router c) p \<Longrightarrow> cluster_ok (c\<lparr>pings := ps\<rparr>)"
  by (auto simp: cluster_ok_def in_use_def router_def take_goroutine_def scaler_ok_def)

lemma cluster_ok_serving:
  assumes "cluster_ok c" and "wf_router s" and "strategy s = strategy (router c)"
    and "length (heap s) = length (heap (router c))" and "\<And>q. has_conn (router c) q \<Longrightarrow> has_conn s q"
    and "scaler d = scaler (upd s [] c)" and "in_use d \<subseteq> in_use c"
    and "\<And>q. q < length (heap s) \<Longrightarrow> activeRequests (deref s q) = int (count_list (map fst (calls d)) q)"
  shows "cluster_ok d"
proof -
  have r: "router d = s" by (simp add: router_def assms(6)) (simp add: upd_def)
  have "scaler_ok (scaler d)" using assms(1,2) by (simp add: assms(6) scaler_ok_router cluster_ok_def)
  moreover have "known_strategy s" using assms(1,3) by (simp add: cluster_ok_def known_strategy_def)
  moreover have "\<forall>p \<in> in_use d. has_conn s p" using assms(1,5,7) unfolding cluster_ok_def by blast
  ultimately show ?thesis using assms(8) by (simp add: cluster_ok_def r)
qed

lemma cluster_ok_begin:
  assumes "cluster_ok c" and "x \<in> set (picked c)"
  shows "cluster_ok ((upd (begin_call t (snd x) (fst x) (router c)) [] c)
    \<lparr>picked := remove1 x (picked c), calls := x # calls c\<rparr>)"
proof -
  let ?r = "router c" and ?p = "fst x"
  let ?s = "begin_call t (snd x) ?p ?r"
  have p: "?p < length (heap ?r)" "w_conn (deref ?r ?p) \<noteq> NilConn"
    using assms by (auto simp: cluster_ok_def in_use_def has_conn_def)
  have h: "heap ?s = (heap ?r)[?p := send_begin (heap ?r ! ?p)]" "strategy ?s = strategy ?r"
    by (simp_all add: begin_call_def modify_def AddInFlight_def)
  have "wf_router (AddInFlight t (snd x) (w_addr (deref ?r ?p)) ?r)"
    using cluster_ok_wf [OF assms(1)] by (simp add: wf_router_def AddInFlight_def wf_Add)
  moreover have "deref (AddInFlight t (snd x) a ?r) q = deref ?r q" for a q
    by (simp add: deref_def AddInFlight_def)
  ultimately have wf: "wf_router ?s"
    unfolding begin_call_def using wf_worker_ok [OF cluster_ok_wf [OF assms(1)] p(1)]
    by (intro wf_modify) (simp_all add: worker_ok_ops)
  have d: "deref ?s q = (if q = ?p then send_begin (deref ?r q) else deref ?r q)" for q
    using p(1) h(1) by (simp add: deref_def nth_list_update)
  have len: "length (heap ?s) = length (heap ?r)" by (simp add: h)
  have "has_conn ?s q" if "has_conn ?r q" for q
    using that by (auto simp: has_conn_def len d send_begin_def)
  then show ?thesis
  proof (rule cluster_ok_serving [OF assms(1) wf h(2) len])
    show "in_use ((upd ?s [] c)\<lparr>picked := remove1 x (picked c), calls := x # calls c\<rparr>) \<subseteq> in_use c"
      using image_mono [OF set_remove1_subset [of x "picked c"], of fst] assms(2) by (auto simp: in_use_def)
  qed (use assms(1) len d in \<open>simp_all add: cluster_ok_def send_begin_def\<close>)
qed

lemma count_list_remove1:
  "x \<in> set xs \<Longrightarrow> count_list (map f xs) q = (if q = f x then 1 else 0) + count_list (map f (remove1 x xs)) q"
proof (induction xs)
  case (Cons y xs)
  show ?case
  proof (cases "y = x")
    case False
    with Cons.prems have "x \<in> set xs" by simp
    from Cons.IH [OF this] show ?thesis using False by simp
  qed simp
qed simp

lemma cluster_ok_end:
  assumes "cluster_ok c" and "x \<in> set (calls c)"
  shows "cluster_ok ((upd (end_call t (snd x) ok (fst x) (router c)) [] c)\<lparr>calls := remove1 x (calls c)\<rparr>)"
proof -
  let ?r = "router c" and ?p = "fst x"
  let ?f = "\<lambda>w. if ok then MarkHealthy (send_end w) else send_end w"
  let ?s = "end_call t (snd x) ok ?p ?r"
  have p: "?p < length (heap ?r)" "w_conn (deref ?r ?p) \<noteq> NilConn"
    using assms by (auto simp: cluster_ok_def in_use_def has_conn_def)
  note cnt = count_list_remove1 [OF assms(2), of fst]
  have act: "0 < activeRequests (deref ?r ?p)" using assms(1) p(1) cnt [of ?p] by (simp add: cluster_ok_def)
  have s: "?s = RemoveInFlight t (snd x) (modify ?p ?f ?r)"
    using p(1) by (simp add: end_call_def Let_def RemoveInFlight_def modify_def)
  have w: "worker_ok (?f (deref ?r ?p))"
    using wf_worker_ok [OF cluster_ok_wf [OF assms(1)] p(1)] act p(2) worker_ok_ops(2)
    by (auto intro!: worker_ok_ops) (simp_all add: send_end_def)
  have "wf_router (modify ?p ?f ?r)"
    using cluster_ok_wf [OF assms(1)] w by (intro wf_modify) auto
  then have wf: "wf_router ?s" by (simp add: s wf_router_def RemoveInFlight_def wf_Remove)
  have h: "strategy ?s = strategy ?r" and len: "length (heap ?s) = length (heap ?r)"
    by (simp_all add: s RemoveInFlight_def)
  have d: "deref ?s q = (if q = ?p then ?f (deref ?r q) else deref ?r q)" for q
    using deref_modify [OF p(1), of ?f q] by (simp add: s RemoveInFlight_def deref_def)
  have "has_conn ?s q" if "has_conn ?r q" for q
    using that by (auto simp: has_conn_def len d send_end_def MarkHealthy_def)
  then show ?thesis
  proof (rule cluster_ok_serving [OF assms(1) wf h len])
    show "in_use ((upd ?s [] c)\<lparr>calls := remove1 x (calls c)\<rparr>) \<subseteq> in_use c"
      using image_mono [OF set_remove1_subset [of x "calls c"], of fst] by (auto simp: in_use_def)
    show "activeRequests (deref ?s q) =
        int (count_list (map fst (calls ((upd ?s [] c)\<lparr>calls := remove1 x (calls c)\<rparr>))) q)"
      if "q < length (heap ?s)" for q
    proof -
      have "activeRequests (deref ?r q) = int (count_list (map fst (calls c)) q)"
        using assms(1) that by (simp add: cluster_ok_def len)
      then show ?thesis using cnt [of q] by (auto simp: d send_end_def MarkHealthy_def)
    qed
    show "scaler ((upd ?s [] c)\<lparr>calls := remove1 x (calls c)\<rparr>) = scaler (upd ?s [] c)" by (simp add: upd_def)
  qed
qed

lemma metrics_ok: "cluster_ok c \<Longrightarrow> wf_metrics mc \<Longrightarrow> cluster_ok (c\<lparr>scaler := (scaler c)\<lparr>as_metrics := mc\<rparr>\<rparr>)"
  by (rule cluster_ok_frame) (auto simp: cluster_ok_def scaler_ok_def router_def in_use_def keeps_load_same known_strategy_def)

lemma cluster_ok_scaler:
  assumes "cluster_ok c" and "scaler_ok s" and "keeps_load (router c) (as_router s)"
  shows "cluster_ok (c\<lparr>scaler := s\<rparr>)"
  by (rule cluster_ok_frame [OF assms(1)]) (use assms in \<open>simp_all add: in_use_def\<close>)

lemma boot_ok:
  assumes "Serve now url NewRouter = Some (ac, s)"
  shows "cluster_ok (boot s)"
proof -
  obtain mc where "NewMetricsCollector now DefaultMetricsCollectorConfig = Some mc" "wf_metrics mc"
    using wf_NewMetricsCollector [of DefaultMetricsCollectorConfig now]
    by (auto simp: DefaultMetricsCollectorConfig_def)
  moreover have "wf_router (NewRouter\<lparr>has_autoscaler := True\<rparr>)"
    using wf_NewRouter by (simp add: wf_router_def)
  ultimately show ?thesis using assms
    by (auto simp: Serve_def NewAutoscaler_def cluster_ok_def boot_def scaler_ok_def router_def good_config_def
        DefaultAutoscalerConfig_def in_use_def known_strategy_def NewRouter_def)
qed

lemma cluster_step_ok:
  assumes "cluster_step c d" and "cluster_ok c"
  shows "cluster_ok d"
  using assms
proof (induction rule: cluster_step.induct)
  case (pick e c p r gs i)
  obtain n where r: "r = (router c)\<lparr>rrCounter := n\<rparr>" using pick_outcome(1) [OF pick.prems pick.hyps] by blast
  have h: "has_conn (router c) p" using pick_outcome(2) [OF pick.prems pick.hyps] by blast
  have "calm (router c) r" by (simp add: r calm_def keeps_load_same) (simp add: wf_router_def)
  then have "cluster_ok (upd r gs c)" using pick.prems calm_cluster by blast
  moreover have "has_conn r p" using h by (simp add: r has_conn_def deref_def)
  ultimately show ?case using cluster_ok_forget(6) [of "upd r gs c" p i] by simp
next
  case (refuse e c err r gs)
  obtain n where r: "r = (router c)\<lparr>rrCounter := n\<rparr>" using pick_outcome(1) [OF refuse.prems refuse.hyps] by blast
  have "calm (router c) r" by (simp add: r calm_def keeps_load_same) (simp add: wf_router_def)
  then show ?case using refuse.prems calm_cluster by blast
next
  case (begin_step x c t)
  then show ?case by (intro cluster_ok_begin)
next
  case (end_step x c t ok)
  then show ?case by (intro cluster_ok_end)
next
  case (control wd c s)
  have "scaler_ok (scaler c)" using control.prems by (simp add: cluster_ok_def)
  from tick_one_direction_lemma [OF this control.hyps(1,2)] control.hyps(3)
  have "scaler_ok s" "only_placeholders (as_router (scaler c)) (as_router s) \<or> as_router s = as_router (scaler c)"
    by auto
  then show ?case using control.prems
    by (intro cluster_ok_scaler) (auto simp: only_placeholders_def router_def keeps_load_same)
next
  case (trigger c wd s)
  have "scaler_ok (scaler (take_goroutine GoTriggerScaleUp c))"
    using trigger.prems by (simp add: cluster_ok_def scaler_ok_def take_goroutine_def)
  from TriggerScaleUp_step [OF this, of wd] trigger.hyps(2)
  have "up_step (scaler (take_goroutine GoTriggerScaleUp c)) s" by auto
  then show ?case using trigger.prems
    by (intro cluster_ok_scaler) (auto simp: up_step_def only_placeholders_def router_def take_goroutine_def)
next
  case (collect_pings c ce r gs ks)
  have c: "calm (router c) r" using calm_RemoveIdleDraining [of "router c" ce] collect_pings.hyps(3) by simp
  have wf: "wf_router r" using c cluster_ok_wf [OF collect_pings.prems] by (simp add: calm_def)
  have "has_conn r p" if "p \<in> set (workers_to_ping ks r)" for p
  proof -
    have p: "p < length (heap r)"
      using that range_ptrs_pointers(2) [OF wf collect_pings.hyps(4)] by (simp add: workers_to_ping_def)
    then show ?thesis using that wf_worker_ok [OF wf p] by (auto simp: workers_to_ping_def has_conn_def worker_ok_def)
  qed
  moreover have "cluster_ok (upd r gs c)" using c collect_pings.prems calm_cluster by blast
  ultimately show ?case using cluster_ok_forget(7) [of "upd r gs c"] by simp
next
  case (ping_skip c p ps)
  then show ?case using cluster_ok_forget(3) by blast
next
  case (ping_start c p ps)
  then show ?case using cluster_ok_forget(4) by blast
next
  case (ping_done c p b)
  have "has_conn (router c) p" using ping_done by (simp add: cluster_ok_def in_use_def)
  then have "cluster_ok (upd (modify p (if b then MarkHealthy else SetDraining) (router c)) [] c)"
    using ping_done.prems calm_cluster calm_mark by blast
  then show ?case using cluster_ok_forget(5) by blast
next
  case (drain_start p c)
  have "calm (router c) (set_state StateDraining p (router c))" by (rule calm_set_state) simp_all
  then have "cluster_ok (upd (set_state StateDraining p (router c)) [] (take_goroutine (GoDrain p) c))"
    using drain_start.prems cluster_ok_forget(2) calm_cluster by (metis router_updates(7))
  then show ?case using cluster_ok_forget(1) by blast
next
  case (drain_end p c ce r gs)
  have "calm (router c) r" using calm_drain_finish [of "router c" ce p] drain_end.hyps(2) by simp
  then show ?case using drain_end.prems cluster_ok_forget(1) calm_cluster by blast
next
  case (kill p k c ce r gs)
  have "calm (router c) r" using calm_kill [of "router c" ce p k] kill.hyps(2) by simp
  then show ?case using kill.prems cluster_ok_forget(2) calm_cluster by (metis router_updates(7))
next
  case (strategy_cmd m c)
  let ?s = "SetStrategy m (router c)"
  have d: "deref ?s = deref (router c)" "heap ?s = heap (router c)" "strategy ?s = m"
    by (simp_all add: SetStrategy_def deref_def fun_eq_iff)
  have "wf_router ?s" using cluster_ok_wf [OF strategy_cmd.prems] by (simp add: wf_router_def SetStrategy_def)
  moreover have "has_conn ?s = has_conn (router c)" by (simp add: has_conn_def d fun_eq_iff)
  ultimately show ?case using strategy_cmd scaler_ok_router [of "scaler c" ?s]
    by (simp add: cluster_ok_def known_strategy_def d)
next
  case (measure_latency v c mc)
  have "wf_metrics (as_metrics (scaler c))" using measure_latency.prems by (simp add: cluster_ok_def scaler_ok_def)
  from wf_RecordLatency [OF this, of v] measure_latency.hyps have "wf_metrics mc" by auto
  then show ?case using measure_latency.prems metrics_ok by blast
next
  case (measure_request c)
  then show ?case by (intro metrics_ok wf_metrics_records) (simp_all add: cluster_ok_def scaler_ok_def)
next
  case (measure_error c)
  then show ?case by (intro metrics_ok wf_metrics_records) (simp_all add: cluster_ok_def scaler_ok_def)
next
  case (measure_queue c q)
  then show ?case by (intro metrics_ok wf_metrics_records) (simp_all add: cluster_ok_def scaler_ok_def)
qed (rule calm_cluster, assumption,
    (erule calm_register | erule calm_ready | erule calm_spawn | erule calm_remove | erule calm_add |
      rule calm_snapshot | rule calm_refl))+

lemma cluster_reachable_ok: "cluster_reachable c \<Longrightarrow> cluster_ok c"
  by (induction rule: cluster_reachable.induct) (blast intro: boot_ok cluster_step_ok)+

text \<open>C7. In every reachable state of the master, whatever the interleaving, the request counter of every worker
  ever created is the number of requests being served by it; every worker that is picked, called or
  pinged has a connection; the registries are well formed; and picking a worker, a control step and the
  immediate scale-up do not panic.\<close>

theorem cluster_counters:
  assumes "cluster_reachable c"
  shows "wf_router (router c) \<and>
    (\<forall>p < length (heap (router c)). activeRequests (deref (router c) p) = int (count_list (map fst (calls c)) p)) \<and>
    (\<forall>p \<in> in_use c. p < length (heap (router c)) \<and> w_conn (deref (router c) p) \<noteq> NilConn) \<and>
    (\<forall>e. PickWorker e (router c) \<noteq> None) \<and>
    (\<forall>wd. good_world wd \<and> (\<forall>n. 0 < clk wd n) \<longrightarrow> tick wd (scaler c) \<noteq> None) \<and>
    (\<forall>wd. TriggerScaleUp wd (scaler c) \<noteq> None)"
proof -
  have ok: "cluster_ok c" using cluster_reachable_ok [OF assms] .
  then have s: "scaler_ok (scaler c)" by (simp add: cluster_ok_def)
  have "pickWithStrategy (strategy (router c)) e (router c) \<noteq> None" for e
    using ok by (auto simp: cluster_ok_def known_strategy_def pickWithStrategy_def)
  then have "PickWorker e (router c) \<noteq> None" for e
    by (auto simp: PickWorker_def split: option.split)
  moreover have "TriggerScaleUp wd (scaler c) \<noteq> None" for wd using TriggerScaleUp_step [OF s, of wd] by auto
  moreover have "tick wd (scaler c) \<noteq> None" if "good_world wd" "\<forall>n. 0 < clk wd n" for wd
    using tick_one_direction_lemma [OF s that] by auto
  ultimately show ?thesis
    using ok cluster_ok_wf [OF ok] by (simp add: cluster_ok_def has_conn_def)
qed

section \<open>A master with one worker\<close>

definition one_worker :: Router where
  "one_worker = add_fresh (fresh_worker ''w'' ''h:1'' ''g'') (NewRouter\<lparr>has_autoscaler := True\<rparr>)"

definition one_env :: pick_env where
  "one_env = \<lparr>pe_range = [''w''], pe_range2 = [''w''], pe_intn = \<lambda>_. 0\<rparr>"

lemma one_worker_eq:
  "heap one_worker = [fresh_worker ''w'' ''h:1'' ''g'']" "workers one_worker = [(''w'', 0)]"
  "strategy one_worker = StrategyLeastConnections"
  by (simp_all add: one_worker_def add_fresh_def alloc_def AddWorkerWithInstance_def NewRouter_def deref_def)

lemma one_pick: "good_env one_env one_worker" "PickWorker one_env one_worker = Some (Inr 0, one_worker, [])"
proof -
  show "good_env one_env one_worker" by (simp add: good_env_def one_env_def enumerates_def one_worker_eq)
  have d: "deref one_worker 0 = fresh_worker ''w'' ''h:1'' ''g''" by (simp add: deref_def one_worker_eq)
  have "range_ptrs one_worker (pe_range one_env) = [0]" by (simp add: range_ptrs_def one_env_def one_worker_eq)
  then have "pickLeastConnections one_env one_worker = (Inr 0, one_worker)"
    by (simp add: pickLeastConnections_def d ActiveRequests_def Let_def) (simp add: fresh_worker_def limits)
  then show "PickWorker one_env one_worker = Some (Inr 0, one_worker, [])"
    by (simp add: PickWorker_def pickWithStrategy_def one_worker_eq)
qed

lemma upd_same: "router c = r \<Longrightarrow> upd r [] c = c"
  by (auto simp: upd_def router_def)

lemma first_worker:
  "\<exists>ac s. Serve 0 '''' NewRouter = Some (ac, s) \<and> cluster_step (boot s) (upd one_worker [] (boot s))"
proof -
  obtain mc where "NewMetricsCollector 0 DefaultMetricsCollectorConfig = Some mc"
    using wf_NewMetricsCollector [of DefaultMetricsCollectorConfig 0] by (auto simp: DefaultMetricsCollectorConfig_def)
  then obtain ac s where S: "Serve 0 '''' NewRouter = Some (ac, s)" and r: "as_router s = NewRouter\<lparr>has_autoscaler := True\<rparr>"
    by (auto simp: Serve_def NewAutoscaler_def)
  let ?note = "\<lparr>rn_WorkerID = ''w'', rn_Address = ''h:1'', rn_AgentID = ''g'', rn_ContainerID = ''''\<rparr>"
  have "workerReadyHandler (\<lambda>_. None) ''POST'' (Some ?note) (router (boot s)) =
      (HandlerJson [(''status'', ''registered''), (''worker_id'', ''w'')], one_worker)"
    by (simp add: workerReadyHandler_def NewWorker_reachable reachable_worker_def router_def boot_def r one_worker_def
        Let_def)
  from cluster_step.ready [OF this] show ?thesis using S by blast
qed

lemma one_pick_step: "router c = one_worker \<Longrightarrow> cluster_step c (c\<lparr>picked := (0, i) # picked c\<rparr>)"
  using cluster_step.pick [of one_env c 0 one_worker "[]" i] one_pick by (simp add: upd_same)

theorem cluster_counters_witness:
  "\<exists>c. cluster_reachable c \<and> calls c = [(0, ''id'')] \<and> activeRequests (deref (router c) 0) = 1"
proof -
  obtain ac s where S: "Serve 0 '''' NewRouter = Some (ac, s)" "cluster_step (boot s) (upd one_worker [] (boot s))"
    using first_worker by blast
  let ?c = "(upd one_worker [] (boot s))\<lparr>picked := [(0, ''id'')]\<rparr>"
  have "cluster_step (upd one_worker [] (boot s)) ?c"
    using one_pick_step [of "upd one_worker [] (boot s)" "''id''"] by (simp add: boot_def)
  then have c: "cluster_reachable ?c" using S cluster_reachable.intros by blast
  let ?d = "(upd (begin_call 0 ''id'' 0 (router ?c)) [] ?c)\<lparr>picked := [], calls := [(0, ''id'')]\<rparr>"
  have "cluster_step ?c ?d" using cluster_step.begin_step [of "(0, ''id'')" ?c 0] by (simp add: boot_def)
  then have d: "cluster_reachable ?d" using c cluster_reachable.step by blast
  have "0 < length (heap (router ?d))" by (simp add: begin_call_def AddInFlight_def one_worker_eq)
  then show ?thesis using cluster_counters [OF d] d by (intro exI [of _ ?d]) simp
qed

end
