(* ===== verification/Coexistence.thy ===== *)
theory Coexistence
  imports Cluster
begin

text \<open>
  The running master meets the rely condition of a request: any sequence of steps of the cluster that neither
  begins nor ends a call of this request is an allowed interference, and the slot the request holds on its
  worker is still taken after it.
\<close>

section \<open>What a step does to the load\<close>

definition calls_of :: "string \<Rightarrow> cluster \<Rightarrow> (nat \<times> string) list" where
  "calls_of requestID c = filter (\<lambda>x. snd x = requestID) (calls c)"

text \<open>A step begins a call, ends a call, sets the strategy, or keeps the load and the flights.\<close>

inductive load_step :: "cluster \<Rightarrow> cluster \<Rightarrow> bool" for c d where
  kept: "calls d = calls c \<Longrightarrow> keeps_load (router c) (router d) \<Longrightarrow> load_step c d"
| tuned: "calls d = calls c \<Longrightarrow> router d = SetStrategy m (router c) \<Longrightarrow> load_step c d"
| begun: "x \<in> set (picked c) \<Longrightarrow> calls d = x # calls c \<Longrightarrow> router d = begin_call t (snd x) (fst x) (router c) \<Longrightarrow> load_step c d"
| ended: "x \<in> set (calls c) \<Longrightarrow> calls d = remove1 x (calls c) \<Longrightarrow>
    router d = end_call t (snd x) ok (fst x) (router c) \<Longrightarrow> load_step c d"

lemma load_step_calm: "calm (router c) r \<Longrightarrow> router d = r \<Longrightarrow> calls d = calls c \<Longrightarrow> load_step c d"
  by (simp add: load_step.kept calm_def)

lemma cluster_step_load:
  assumes "cluster_step c d" and "cluster_ok c"
  shows "load_step c d"
  using assms
proof (induction rule: cluster_step.induct)
  case (pick e c p r gs i)
  obtain n where "r = (router c)\<lparr>rrCounter := n\<rparr>" using pick_outcome(1) [OF pick.prems pick.hyps] by blast
  then show ?case by (intro load_step.kept) (simp_all add: keeps_load_same)
next
  case (refuse e c err r gs)
  obtain n where "r = (router c)\<lparr>rrCounter := n\<rparr>" using pick_outcome(1) [OF refuse.prems refuse.hyps] by blast
  then show ?case by (intro load_step.kept) (simp_all add: keeps_load_same)
next
  case (begin_step x c t)
  then show ?case by (intro load_step.begun [of x]) simp_all
next
  case (end_step x c t ok)
  then show ?case by (intro load_step.ended [of x]) simp_all
next
  case (control wd c s)
  have "scaler_ok (scaler c)" using control.prems by (simp add: cluster_ok_def)
  from tick_one_direction_lemma [OF this control.hyps(1,2)] control.hyps(3)
  have "only_placeholders (as_router (scaler c)) (as_router s) \<or> as_router s = as_router (scaler c)" by auto
  then show ?case by (intro load_step.kept) (auto simp: only_placeholders_def router_def keeps_load_same)
next
  case (trigger c wd s)
  have "scaler_ok (scaler (take_goroutine GoTriggerScaleUp c))"
    using trigger.prems by (simp add: cluster_ok_def scaler_ok_def take_goroutine_def)
  from TriggerScaleUp_step [OF this, of wd] trigger.hyps(2)
  have "up_step (scaler (take_goroutine GoTriggerScaleUp c)) s" by auto
  then show ?case by (intro load_step.kept) (auto simp: up_step_def only_placeholders_def router_def take_goroutine_def)
next
  case (collect_pings c ce r gs ks)
  have "calm (router c) r" using calm_RemoveIdleDraining [of "router c" ce] collect_pings.hyps(3) by simp
  then show ?case by (rule load_step_calm) simp_all
next
  case (ping_done c p b)
  have "has_conn (router c) p" using ping_done by (simp add: cluster_ok_def in_use_def)
  from calm_mark [OF this] show ?case by (rule load_step_calm) simp_all
next
  case (drain_start p c)
  have "calm (router c) (set_state StateDraining p (router c))" by (rule calm_set_state) simp_all
  then show ?case by (rule load_step_calm) simp_all
next
  case (drain_end p c ce r gs)
  have "calm (router c) r" using calm_drain_finish [of "router c" ce p] drain_end.hyps(2) by simp
  then show ?case by (rule load_step_calm) simp_all
next
  case (kill p k c ce r gs)
  have "calm (router c) r" using calm_kill [of "router c" ce p k] kill.hyps(2) by simp
  then show ?case by (rule load_step_calm) simp_all
next
  case (strategy_cmd m c)
  show ?case by (rule load_step.tuned) simp_all
next
  case (measure_latency v c mc)
  show ?case by (rule load_step.kept) (simp_all add: router_def keeps_load_same)
qed ((rule load_step_calm, (erule calm_register | erule calm_ready | erule calm_spawn | erule calm_remove | erule calm_add),
      simp, simp) | (rule load_step_calm, rule calm_refl, simp, simp) | (rule load_step_calm, rule calm_snapshot, simp, simp) |
    (rule load_step.kept, simp, simp add: router_def keeps_load_same))+

section \<open>Interference\<close>

lemma begin_call_others:
  "has_conn r q \<Longrightarrow> has_conn (begin_call t k p r) q"
  "length (heap (begin_call t k p r)) = length (heap r)"
  "k \<noteq> requestID \<Longrightarrow> flight_of (inflight (begin_call t k p r)) requestID = flight_of (inflight r) requestID"
proof -
  have h: "heap (begin_call t k p r) = (heap r)[p := send_begin (heap r ! p)]"
    by (simp add: begin_call_def modify_def AddInFlight_def)
  then show "has_conn r q \<Longrightarrow> has_conn (begin_call t k p r) q"
    by (cases "q = p") (simp_all add: has_conn_def deref_def send_begin_def)
  show "length (heap (begin_call t k p r)) = length (heap r)" by (simp add: h)
  show "k \<noteq> requestID \<Longrightarrow> flight_of (inflight (begin_call t k p r)) requestID = flight_of (inflight r) requestID"
    by (simp add: begin_call_def modify_def AddInFlight_def view_simps)
qed

lemma end_call_others:
  "has_conn r q \<Longrightarrow> has_conn (end_call t k ok p r) q"
  "length (heap (end_call t k ok p r)) = length (heap r)"
  "k \<noteq> requestID \<Longrightarrow> flight_of (inflight (end_call t k ok p r)) requestID = flight_of (inflight r) requestID"
proof -
  have c: "has_conn (modify p f s) q" if "has_conn s q" "\<And>w. w_conn (f w) = w_conn w" for f s
    using that by (cases "q = p") (simp_all add: has_conn_def deref_def modify_def)
  have i: "has_conn (RemoveInFlight t k s) q = has_conn s q" for s
    by (simp add: has_conn_def RemoveInFlight_def deref_def)
  show "has_conn r q \<Longrightarrow> has_conn (end_call t k ok p r) q"
    by (simp add: end_call_def Let_def i c send_end_def MarkHealthy_def)
  show "length (heap (end_call t k ok p r)) = length (heap r)"
    by (simp add: end_call_def Let_def modify_def RemoveInFlight_def)
  show "k \<noteq> requestID \<Longrightarrow> flight_of (inflight (end_call t k ok p r)) requestID = flight_of (inflight r) requestID"
    by (simp add: end_call_def Let_def modify_def RemoveInFlight_def view_simps)
qed

text \<open>A step that leaves the calls of the request as they are.\<close>

definition bystep :: "string \<Rightarrow> cluster \<Rightarrow> cluster \<Rightarrow> bool" where
  "bystep requestID c d \<longleftrightarrow> cluster_step c d \<and> calls_of requestID d = calls_of requestID c"

lemma bystep_others:
  assumes "cluster_ok c" and "bystep requestID c d"
  shows "cluster_ok d \<and> others requestID (router c) (router d)"
proof -
  have d: "cluster_ok d" using assms cluster_step_ok by (auto simp: bystep_def)
  have l: "load_step c d" using assms cluster_step_load by (auto simp: bystep_def)
  have "(\<forall>q. has_conn (router c) q \<longrightarrow> has_conn (router d) q) \<and> length (heap (router c)) \<le> length (heap (router d)) \<and>
      flight_of (inflight (router d)) requestID = flight_of (inflight (router c)) requestID"
    using l
  proof cases
    case kept
    then show ?thesis using has_conn_kept by (auto simp: keeps_load_def)
  next
    case (tuned m)
    then show ?thesis by (simp add: SetStrategy_def has_conn_def deref_def)
  next
    case (begun x t)
    then have "snd x \<noteq> requestID" using assms(2) by (auto simp: bystep_def calls_of_def)
    then show ?thesis using begun(3) by (simp add: begin_call_others)
  next
    case (ended x t ok)
    have "snd x \<noteq> requestID"
    proof
      assume x: "snd x = requestID"
      then have "x \<in> set (calls_of requestID c)" using ended(1) by (simp add: calls_of_def)
      moreover have "calls_of requestID d = remove1 x (calls_of requestID c)"
        using x by (simp add: calls_of_def ended(2) filter_remove1)
      ultimately have "length (calls_of requestID d) < length (calls_of requestID c)"
        by (metis length_remove1 length_pos_if_in_set diff_less zero_less_one)
      then show False using assms(2) by (simp add: bystep_def)
    qed
    then show ?thesis using ended(3) by (simp add: end_call_others)
  qed
  then show ?thesis using d by (simp add: others_def cluster_ok_wf cluster_ok_def)
qed

text \<open>The steps between two points of a request.\<close>

definition meanwhile :: "string \<Rightarrow> cluster \<Rightarrow> cluster \<Rightarrow> bool" where
  "meanwhile requestID = (bystep requestID)\<^sup>*\<^sup>*"

lemma meanwhile_others:
  assumes "meanwhile requestID c d" and "cluster_ok c"
  shows "cluster_ok d \<and> others requestID (router c) (router d) \<and> calls_of requestID d = calls_of requestID c"
  using assms unfolding meanwhile_def
proof (induction rule: rtranclp_induct)
  case base
  then show ?case by (auto intro: others_refl simp: cluster_ok_wf cluster_ok_def)
next
  case (step d e)
  then have "cluster_ok d" "others requestID (router c) (router d)" "calls_of requestID d = calls_of requestID c" by auto
  then show ?case
    using bystep_others [OF _ step.hyps(2)] others_trans step.hyps(2) by (auto simp: bystep_def)
qed

text \<open>C4. The running master meets the condition under which a request is served. From any reachable state, whatever steps
  the master takes meanwhile (other requests, registrations, control steps, health checks, drains, kills,
  commands), as long as none of them begins or ends a call of this request, the router stays well
  formed with a known strategy, no worker is freed or loses its connection object, the request's entry in the
  store is untouched, and a worker serving the request still counts it.\<close>

theorem master_tolerates_requests:
  assumes "cluster_reachable c" and "meanwhile requestID c d"
  shows "others requestID (router c) (router d) \<and>
    (\<forall>p. (p, requestID) \<in> set (calls c) \<longrightarrow> has_conn (router d) p \<and> 0 < activeRequests (deref (router d) p))"
proof -
  note m = meanwhile_others [OF assms(2) cluster_reachable_ok [OF assms(1)]]
  have "has_conn (router d) p \<and> 0 < activeRequests (deref (router d) p)" if "(p, requestID) \<in> set (calls c)" for p
  proof -
    have "(p, requestID) \<in> set (calls_of requestID d)" using that m by (simp add: calls_of_def)
    then have p: "p \<in> fst ` set (calls d)" by (force simp: calls_of_def)
    then have h: "has_conn (router d) p" using m by (simp add: cluster_ok_def in_use_def)
    moreover have "count_list (map fst (calls d)) p \<noteq> 0" using p by (simp add: count_list_0_iff)
    ultimately show ?thesis using m by (simp add: cluster_ok_def has_conn_def)
  qed
  then show ?thesis using m by blast
qed

section \<open>The store of requests in flight is exact\<close>

text \<open>Runs in which the identifiers of the requests being handled differ, as random UUIDs do.\<close>

inductive distinct_run :: "cluster \<Rightarrow> bool" where
  start: "Serve now url NewRouter = Some (ac, s) \<Longrightarrow> distinct_run (boot s)"
| step: "distinct_run c \<Longrightarrow> cluster_step c d \<Longrightarrow> distinct (map snd (calls d)) \<Longrightarrow> distinct_run d"

lemma distinct_run_reachable: "distinct_run c \<Longrightarrow> cluster_reachable c"
  by (induction rule: distinct_run.induct) (blast intro: cluster_reachable.intros)+

definition flights_exact :: "cluster \<Rightarrow> bool" where
  "flights_exact c \<longleftrightarrow> distinct (map snd (calls c)) \<and>
     dom (flight_of (inflight (router c))) = snd ` set (calls c)"

lemma flights_exact_step:
  assumes "load_step c d" and "flights_exact c" and "distinct (map snd (calls d))"
  shows "flights_exact d"
  using assms(1)
proof cases
  case kept
  then show ?thesis using assms(2) by (simp add: flights_exact_def keeps_load_def)
next
  case (tuned m)
  then show ?thesis using assms(2) by (simp add: flights_exact_def SetStrategy_def)
next
  case (begun x t)
  have "inflight (router d) = Add t (snd x) (w_addr (deref (router c) (fst x))) (inflight (router c))"
    by (simp add: begun(3) begin_call_def modify_def AddInFlight_def)
  then show ?thesis using assms(2,3) by (simp add: flights_exact_def begun(2) view_simps)
next
  case (ended x t ok)
  have "inflight (router d) = Remove t (snd x) (inflight (router c))"
    by (simp add: ended(3) end_call_def Let_def modify_def RemoveInFlight_def)
  moreover have "snd ` set (remove1 x (calls c)) = snd ` set (calls c) - {snd x}"
    using assms(2) ended(1) by (auto simp: flights_exact_def distinct_map inj_on_def)
  ultimately show ?thesis using assms(2,3) by (simp add: flights_exact_def ended(2) view_simps)
qed

lemma distinct_run_exact: "distinct_run c \<Longrightarrow> flights_exact c"
proof (induction rule: distinct_run.induct)
  case (start now url ac s)
  then show ?case
    by (auto simp: flights_exact_def boot_def router_def Serve_def NewAutoscaler_def NewRouter_def flight_of_def
        NewInFlightStore_def split: option.splits)
next
  case (step c d)
  then show ?case
    using flights_exact_step cluster_step_load cluster_reachable_ok distinct_run_reachable by blast
qed

lemma sum_count_list: "set xs \<subseteq> {..< n :: nat} \<Longrightarrow> (\<Sum>p < n. count_list xs p) = length xs"
proof (induction xs)
  case (Cons x xs)
  have "(\<Sum>p < n. count_list (x # xs) p) = (\<Sum>p < n. (if p = x then 1 else 0) + count_list xs p)"
    by (intro sum.cong) auto
  also have "\<dots> = 1 + length xs" using Cons by (simp add: sum.distrib)
  finally show ?case by simp
qed simp


section \<open>The limit per worker is not a limit\<close>

lemma picks_pile_up:
  "\<exists>c. distinct_run c \<and> router c = one_worker \<and> picked c = map (Pair 0) is \<and> calls c = []"
proof (induction "is")
  case Nil
  obtain ac s where "Serve 0 '''' NewRouter = Some (ac, s)" "cluster_step (boot s) (upd one_worker [] (boot s))"
    using first_worker by blast
  then have "distinct_run (upd one_worker [] (boot s))"
    using distinct_run.intros by (metis boot_def cluster.select_convs(3) distinct.simps(1) list.map(1) router_upd(2))
  then show ?case by (intro exI [of _ "upd one_worker [] (boot s)"]) (simp add: boot_def)
next
  case (Cons i "is")
  then obtain c where c: "distinct_run c" "router c = one_worker" "picked c = map (Pair 0) is" "calls c = []"
    by blast
  have "distinct_run (c\<lparr>picked := (0, i) # picked c\<rparr>)"
    using distinct_run.step [OF c(1) one_pick_step [OF c(2)]] c(4) by simp
  then show ?case using c by (intro exI [of _ "c\<lparr>picked := (0, i) # picked c\<rparr>"]) simp
qed

lemma calls_pile_up:
  "distinct_run c \<Longrightarrow> picked c = map (Pair 0) is \<Longrightarrow> calls c = map (Pair 0) js \<Longrightarrow> distinct (is @ js) \<Longrightarrow>
     \<exists>d. distinct_run d \<and> calls d = map (Pair 0) (rev is @ js) \<and> length (heap (router d)) = length (heap (router c))"
proof (induction "is" arbitrary: c js)
  case (Cons i "is")
  let ?d = "(upd (begin_call 0 i 0 (router c)) [] c)\<lparr>picked := remove1 (0, i) (picked c), calls := (0, i) # calls c\<rparr>"
  have "cluster_step c ?d" using cluster_step.begin_step [of "(0, i)" c 0] Cons.prems(2) by simp
  moreover have "distinct (map snd (calls ?d))" using Cons.prems(3,4) by (simp add: comp_def)
  ultimately have d: "distinct_run ?d" using Cons.prems(1) distinct_run.step by blast
  have "picked ?d = map (Pair 0) is" "calls ?d = map (Pair 0) (i # js)" "distinct (is @ i # js)"
    using Cons.prems(2-4) by auto
  from Cons.IH [OF d this] show ?case by (simp add: begin_call_others)
qed auto

lemma count_list_const: "count_list (map (\<lambda>_. x) xs) x = length xs"
  by (induction xs) simp_all



text \<open>Between two points at which request \<open>b\<close> is served, request \<open>a\<close> ends.\<close>

theorem master_tolerates_requests_witness:
  "\<exists>c d. cluster_reachable c \<and> meanwhile ''b'' c d \<and> length (calls c) = 2 \<and> length (calls d) = 1 \<and>
     (\<exists>p. 0 < activeRequests (deref (router d) p))"
proof -
  obtain c where c: "distinct_run c" "picked c = map (Pair 0) [''a'', ''b'']" "calls c = []"
    using picks_pile_up by blast
  then obtain d where d: "distinct_run d" "calls d = [(0, ''b''), (0, ''a'')]"
    using calls_pile_up [of c "[''a'', ''b'']" "[]"] by auto
  let ?e = "(upd (end_call 0 ''a'' True 0 (router d)) [] d)\<lparr>calls := [(0, ''b'')]\<rparr>"
  have "cluster_step d ?e" using cluster_step.end_step [of "(0, ''a'')" d 0 True] d(2) by simp
  then have m: "meanwhile ''b'' d ?e"
    by (auto simp: meanwhile_def bystep_def calls_of_def d(2))
  have r: "cluster_reachable d" using d(1) by (rule distinct_run_reachable)
  have "(0, ''b'') \<in> set (calls d)" by (simp add: d(2))
  then have "0 < activeRequests (deref (router ?e) 0)" using master_tolerates_requests [OF r m] by blast
  then show ?thesis using r m d(2) by (intro exI [of _ d] exI [of _ ?e]) auto
qed

end
