(* ===== verification/Agent_Config.thy ===== *)
theory Agent_Config
  imports Admin
begin

text \<open>
  The configuration of an agent: \<open>agent/types.go\<close> and \<open>agent/utils.go\<close>, with the functions of Go's \<open>net\<close>,
  \<open>strconv\<close> and \<open>strings\<close> they use on addresses. The parsed flags, the network interfaces and which addresses
  can be listened on are arguments.
\<close>

record AgentConfig =
  cf_MasterURL :: string
  cf_ListenAddr :: string
  cf_AdvertiseHost :: string
  cf_AdvertisePort :: int
  cf_AgentID :: string
  cf_WorkerImage :: string
  cf_WorkerPortStart :: int
  cf_WorkerPortEnd :: int
  cf_OllamaURL :: string
  cf_ChromaURL :: string

section \<open>Strings of Go's library\<close>

definition TrimRight :: "char \<Rightarrow> string \<Rightarrow> string" where
  "TrimRight x s = rev (dropWhile (\<lambda>c. c = x) (rev s))"

definition TrimPrefix :: "string \<Rightarrow> string \<Rightarrow> string" where
  "TrimPrefix p s = (if take (length p) s = p then drop (length p) s else s)"

definition HasPrefix :: "string \<Rightarrow> string \<Rightarrow> bool" where
  "HasPrefix p s \<longleftrightarrow> take (length p) s = p"

text \<open>The parts before and after the last occurrence of a character.\<close>

fun split_last :: "char \<Rightarrow> string \<Rightarrow> (string \<times> string) option" where
  "split_last x [] = None"
| "split_last x (c # s) =
     (case split_last x s of
        Some (a, b) \<Rightarrow> Some (c # a, b)
      | None \<Rightarrow> if c = x then Some ([], s) else None)"

text \<open>\<open>net.SplitHostPort\<close> and \<open>net.JoinHostPort\<close>; which error it is does not matter here.\<close>

definition SplitHostPort :: "string \<Rightarrow> (string \<times> string) option" where
  "SplitHostPort hostport =
     (case split_last (CHR '':'') hostport of
        None \<Rightarrow> None
      | Some (before, port) \<Rightarrow>
          if before \<noteq> [] \<and> hd before = CHR ''['' then
            let rest = tl before in
            if rest \<noteq> [] \<and> last rest = CHR '']'' \<and> CHR '']'' \<notin> set (butlast rest) \<and>
               CHR ''['' \<notin> set rest \<and> CHR ''['' \<notin> set port \<and> CHR '']'' \<notin> set port
            then Some (butlast rest, port) else None
          else if CHR '':'' \<in> set before \<or> CHR ''['' \<in> set hostport \<or> CHR '']'' \<in> set hostport then None
          else Some (before, port))"

definition JoinHostPort :: "string \<Rightarrow> string \<Rightarrow> string" where
  "JoinHostPort host port =
     (if CHR '':'' \<in> set host then ''['' @ host @ '']:'' @ port else host @ '':'' @ port)"

definition digit_value :: "char \<Rightarrow> int option" where
  "digit_value c = (let n = of_char c :: int in if 48 \<le> n \<and> n \<le> 57 then Some (n - 48) else None)"

fun parse_digits :: "string \<Rightarrow> int \<Rightarrow> int option" where
  "parse_digits [] acc = Some acc"
| "parse_digits (c # s) acc =
     (case digit_value c of None \<Rightarrow> None | Some d \<Rightarrow> parse_digits s (acc * 10 + d))"

text \<open>\<open>strconv.Atoi\<close>: an optional sign, at least one digit, and a value of 64 bits.\<close>

definition Atoi :: "string \<Rightarrow> int option" where
  "Atoi s =
     (let (neg, ds) = (case s of
          [] \<Rightarrow> (False, [])
        | c # cs \<Rightarrow> if c = CHR ''-'' then (True, cs) else if c = CHR ''+'' then (False, cs) else (False, s))
      in if ds = [] then None
         else case parse_digits ds 0 of
           None \<Rightarrow> None
         | Some n \<Rightarrow>
             let v = (if neg then - n else n) in if - (2 ^ 63) \<le> v \<and> v < 2 ^ 63 then Some v else None)"

section \<open>Listen addresses\<close>

definition portFromListenAddr :: "string \<Rightarrow> int option" where
  "portFromListenAddr addr =
     (let portText = (case SplitHostPort addr of Some (_, p) \<Rightarrow> p | None \<Rightarrow> TrimPrefix '':'' addr)
      in Atoi portText)"

definition replaceListenPort :: "string \<Rightarrow> int \<Rightarrow> string" where
  "replaceListenPort addr port =
     (case SplitHostPort addr of
        None \<Rightarrow> '':'' @ itoa port
      | Some (host, _) \<Rightarrow> if host = '''' then '':'' @ itoa port else JoinHostPort host (itoa port))"

text \<open>The search for a free port: \<open>free addr\<close> tells whether \<open>net.Listen\<close> succeeds.\<close>

fun port_search :: "(string \<Rightarrow> bool) \<Rightarrow> string \<Rightarrow> nat \<Rightarrow> int \<Rightarrow> int option" where
  "port_search free host 0 p = None"
| "port_search free host (Suc n) p =
     (if free (JoinHostPort host (itoa p)) then Some p else port_search free host n (p + 1))"

definition listen_host :: "string \<Rightarrow> string" where
  "listen_host listenAddr =
     (let host = (case SplitHostPort listenAddr of
          Some (h, _) \<Rightarrow> h
        | None \<Rightarrow> if HasPrefix '':'' listenAddr then '''' else listenAddr)
      in if host = '''' then ''0.0.0.0'' else host)"

definition findAvailablePort :: "(string \<Rightarrow> bool) \<Rightarrow> string \<Rightarrow> int \<Rightarrow> int \<Rightarrow> int option" where
  "findAvailablePort free listenAddr start last_port =
     port_search free (listen_host listenAddr) (nat (last_port - start + 1)) start"

section \<open>The advertised host\<close>

record iface_addr =
  ip_text :: string
  ip_loopback :: bool

text \<open>An interface's addresses, if they can be read; an address that is no IP address is \<open>None\<close>.\<close>

record net_iface =
  if_up :: bool
  if_loopback :: bool
  if_addrs :: "iface_addr option list option"

fun first_address :: "iface_addr option list \<Rightarrow> string option" where
  "first_address [] = None"
| "first_address (None # as) = first_address as"
| "first_address (Some a # as) = (if ip_loopback a then first_address as else Some (ip_text a))"

fun iface_loop :: "net_iface list \<Rightarrow> string option" where
  "iface_loop [] = None"
| "iface_loop (i # is) =
     (if \<not> if_up i \<or> if_loopback i then iface_loop is
      else case if_addrs i of
        None \<Rightarrow> iface_loop is
      | Some as \<Rightarrow> (case first_address as of Some h \<Rightarrow> Some h | None \<Rightarrow> iface_loop is))"

definition detectAdvertiseHost :: "string + net_iface list \<Rightarrow> string + string" where
  "detectAdvertiseHost ifaces =
     (case ifaces of
        Inl err \<Rightarrow> Inl err
      | Inr is \<Rightarrow>
          (case iface_loop is of
             Some h \<Rightarrow> Inr h
           | None \<Rightarrow> Inl ''could not detect advertise host; pass --advertise-host''))"

section \<open>Reading the configuration\<close>

text \<open>\<open>cfg\<close> holds the parsed flags.\<close>

definition requested_port :: "AgentConfig \<Rightarrow> int option" where
  "requested_port cfg =
     (if cf_AdvertisePort cfg = 0 then portFromListenAddr (cf_ListenAddr cfg) else Some (cf_AdvertisePort cfg))"

definition readConfig :: "string + net_iface list \<Rightarrow> (string \<Rightarrow> bool) \<Rightarrow> AgentConfig \<Rightarrow> string + AgentConfig" where
  "readConfig ifaces free cfg =
     (case (if cf_AdvertiseHost cfg = '''' then detectAdvertiseHost ifaces else Inr (cf_AdvertiseHost cfg)) of
        Inl err \<Rightarrow> Inl err
      | Inr host \<Rightarrow>
          let cfg = cfg\<lparr>cf_AdvertiseHost := host\<rparr> in
          case requested_port cfg of
            None \<Rightarrow> Inl ''invalid listen port''
          | Some port \<Rightarrow>
              let cfg = cfg\<lparr>cf_AdvertisePort := port\<rparr> in
              case findAvailablePort free (cf_ListenAddr cfg) port (port + 20) of
                None \<Rightarrow> Inl (''no free listen port in range '' @ itoa port @ ''-'' @ itoa (port + 20))
              | Some nextPort \<Rightarrow>
                  let cfg = (if nextPort \<noteq> port
                        then cfg\<lparr>cf_ListenAddr := replaceListenPort (cf_ListenAddr cfg) nextPort,
                                 cf_AdvertisePort := nextPort\<rparr>
                        else cfg)
                  in if cf_WorkerPortStart cfg \<le> 0 \<or> cf_WorkerPortEnd cfg < cf_WorkerPortStart cfg
                     then Inl (''invalid worker port range '' @ itoa (cf_WorkerPortStart cfg) @ ''-'' @
                       itoa (cf_WorkerPortEnd cfg))
                     else if cf_MasterURL cfg = '''' then Inl ''master url is required; pass --master-url''
                     else Inr (cfg\<lparr>cf_MasterURL := TrimRight (CHR ''/'') (cf_MasterURL cfg),
                       cf_AgentID := ''agent-'' @ cf_AdvertiseHost cfg @ ''-'' @ itoa (cf_AdvertisePort cfg)\<rparr>))"

lemma requested_port_host [simp]: "requested_port (cfg\<lparr>cf_AdvertiseHost := h\<rparr>) = requested_port cfg"
  by (simp add: requested_port_def)

section \<open>Ports survive printing and parsing\<close>

lemma split_last_iff: "split_last x s = Some (a, b) \<longleftrightarrow> s = a @ x # b \<and> x \<notin> set b"
proof (induction s arbitrary: a b)
  case (Cons c s)
  have n: "split_last x s = None \<longleftrightarrow> x \<notin> set s"
  proof (cases "split_last x s")
    case None
    then show ?thesis using Cons by (metis option.distinct(1) split_list_last)
  next
    case (Some p)
    then show ?thesis using Cons [of "fst p" "snd p"] by simp
  qed
  show ?case
  proof (cases "split_last x s")
    case None
    with n show ?thesis by (cases a) auto
  next
    case (Some p)
    obtain a' b' where p: "p = (a', b')" by (cases p)
    then have s: "s = a' @ x # b'" "x \<notin> set b'" using Cons [of a' b'] Some by simp_all
    show ?thesis
    proof
      assume "split_last x (c # s) = Some (a, b)"
      then show "c # s = a @ x # b \<and> x \<notin> set b" using Some p s by auto
    next
      assume h: "c # s = a @ x # b \<and> x \<notin> set b"
      then obtain a2 where "a = c # a2" using s by (cases a) auto
      then show "split_last x (c # s) = Some (a, b)" using h Cons [of a2 b] by simp
    qed
  qed
qed simp

lemma digit_value_of: "d < 10 \<Longrightarrow> digit_value (char_of (48 + d :: nat)) = Some (int d)"
  by (simp add: digit_value_def Let_def of_char_of flip: of_nat_of_char [where 'a = int] del: of_nat_of_char)

lemma parse_digits_append:
  "parse_digits (a @ b) acc = Option.bind (parse_digits a acc) (parse_digits b)"
  by (induction a arbitrary: acc) (auto split: option.split)

lemma parse_digits_digits: "parse_digits (digits n) 0 = Some (int n)"
proof (induction n rule: digits.induct)
  case (1 n)
  show ?case
  proof (cases "n < 10")
    case True
    then show ?thesis using digits.simps [of n] digit_value_of [of n] by simp
  next
    case False
    then show ?thesis
      using 1 digits.simps [of n] digit_value_of [of "n mod 10"]
      by (simp add: parse_digits_append zdiv_int zmod_int)
  qed
qed

lemma digits_chars: "c \<in> set (digits n) \<Longrightarrow> digit_value c \<noteq> None"
proof (induction n rule: digits.induct)
  case (1 n)
  then show ?case
    using digits.simps [of n] digit_value_of [of n] digit_value_of [of "n mod 10"] by (auto split: if_splits)
qed

lemma digits_Cons: "\<exists>c s. digits n = c # s"
  using digits.simps [of n] by (metis append_is_Nil_conv list.exhaust not_Cons_self2)

lemma no_digit [simp]: "digit_value (CHR '':'') = None" "digit_value (CHR ''['') = None"
  "digit_value (CHR '']'') = None" "digit_value (CHR ''-'') = None" "digit_value (CHR ''+'') = None"
  by (simp_all add: digit_value_def)

lemma itoa_chars:
  assumes "0 \<le> n" and "digit_value c = None"
  shows "c \<notin> set (itoa n)"
  using assms digits_chars [of c "nat n"] by (auto simp: itoa_def)

lemma Atoi_itoa:
  assumes "- (2 ^ 63) \<le> n" and "n < 2 ^ 63"
  shows "Atoi (itoa n) = Some n"
proof (cases "n < 0")
  case True
  obtain c s where d: "digits (nat (- n)) = c # s" using digits_Cons by blast
  then show ?thesis using True assms parse_digits_digits [of "nat (- n)"]
    by (simp add: Atoi_def itoa_def)
next
  case False
  obtain c s where d: "digits (nat n) = c # s" using digits_Cons by blast
  then have "digit_value c \<noteq> None" using digits_chars [of c "nat n"] by simp
  then have "c \<noteq> CHR ''-''" "c \<noteq> CHR ''+''" by auto
  then show ?thesis using False assms d parse_digits_digits [of "nat n"]
    by (simp add: Atoi_def itoa_def)
qed

definition plain :: "string \<Rightarrow> bool" where
  "plain s \<longleftrightarrow> CHR '':'' \<notin> set s \<and> CHR ''['' \<notin> set s \<and> CHR '']'' \<notin> set s"

lemma SplitHostPort_Join:
  assumes "plain p" and "CHR ''['' \<notin> set h" and "CHR '']'' \<notin> set h"
  shows "SplitHostPort (JoinHostPort h p) = Some (h, p)"
proof (cases "CHR '':'' \<in> set h")
  case True
  have "split_last (CHR '':'') (CHR ''['' # h @ '']:'' @ p) = Some (CHR ''['' # h @ '']'', p)"
    unfolding split_last_iff using assms(1) by (simp add: plain_def)
  then show ?thesis using True assms by (simp add: JoinHostPort_def SplitHostPort_def plain_def)
next
  case False
  have "split_last (CHR '':'') (h @ '':'' @ p) = Some (h, p)"
    unfolding split_last_iff using assms(1) by (simp add: plain_def)
  moreover have "\<not> (h \<noteq> [] \<and> hd h = CHR ''['')" using assms(2) by (cases h) auto
  ultimately show ?thesis using False assms by (auto simp: JoinHostPort_def SplitHostPort_def plain_def)
qed

lemma SplitHostPort_host:
  assumes "SplitHostPort s = Some (h, p)"
  shows "CHR ''['' \<notin> set h \<and> CHR '']'' \<notin> set h"
proof -
  obtain b q where b: "split_last (CHR '':'') s = Some (b, q)"
    using assms by (auto simp: SplitHostPort_def split: option.splits)
  then have s: "s = b @ CHR '':'' # q" by (simp add: split_last_iff)
  show ?thesis
  proof (cases "b \<noteq> [] \<and> hd b = CHR ''[''")
    case True
    then show ?thesis using assms b
      by (auto simp: SplitHostPort_def Let_def split: if_splits dest: in_set_butlastD)
  next
    case False
    then have "SplitHostPort s = (if CHR '':'' \<in> set b \<or> CHR ''['' \<in> set s \<or> CHR '']'' \<in> set s then None else Some (b, q))"
      using b unfolding SplitHostPort_def by (simp only: option.case prod.case if_False)
    then show ?thesis using assms s by (auto split: if_splits)
  qed
qed

text \<open>A listen address with its port replaced has that port: for every address, IPv6 hosts in brackets and
  malformed addresses included, and every port, the port read from the new address is the new one.\<close>

theorem replaceListenPort_roundtrip:
  assumes "0 \<le> port" and "port < 65536"
  shows "portFromListenAddr (replaceListenPort addr port) = Some port"
proof -
  have p: "plain (itoa port)" using itoa_chars [OF assms(1)] by (simp add: plain_def)
  have a: "Atoi (itoa port) = Some port" using assms by (intro Atoi_itoa) simp_all
  have colon: "SplitHostPort ('':'' @ itoa port) = Some ('''', itoa port)"
    using SplitHostPort_Join [OF p, of "''''"] by (simp add: JoinHostPort_def)
  show ?thesis
  proof (cases "SplitHostPort addr")
    case None
    then show ?thesis using colon a by (simp add: portFromListenAddr_def replaceListenPort_def)
  next
    case (Some hp)
    obtain h q where hp: "hp = (h, q)" by (cases hp)
    then have "SplitHostPort (JoinHostPort h (itoa port)) = Some (h, itoa port)"
      using SplitHostPort_host [of addr h q] Some p by (intro SplitHostPort_Join) simp_all
    then show ?thesis using colon a Some hp by (simp add: portFromListenAddr_def replaceListenPort_def)
  qed
qed

theorem replaceListenPort_roundtrip_witness:
  "portFromListenAddr (replaceListenPort ''[::1]:9000'' 9001) = Some 9001"
  using replaceListenPort_roundtrip [of 9001 "''[::1]:9000''"] by simp

section \<open>A configuration that was read\<close>

lemma port_search_Some:
  "port_search free host n p = Some q \<Longrightarrow> p \<le> q \<and> q < p + int n \<and> free (JoinHostPort host (itoa q)) \<and>
     (\<forall>k. p \<le> k \<and> k < q \<longrightarrow> \<not> free (JoinHostPort host (itoa k)))"
proof (induction n arbitrary: p)
  case (Suc n)
  show ?case
  proof (cases "free (JoinHostPort host (itoa p))")
    case True
    then show ?thesis using Suc.prems by auto
  next
    case False
    with Suc.prems have "port_search free host n (p + 1) = Some q" by simp
    from Suc.IH [OF this] have q: "p + 1 \<le> q" "q < p + 1 + int n" "free (JoinHostPort host (itoa q))"
      "\<forall>k. p + 1 \<le> k \<and> k < q \<longrightarrow> \<not> free (JoinHostPort host (itoa k))" by auto
    have "\<not> free (JoinHostPort host (itoa k))" if "p \<le> k" "k < q" for k
      using that q(4) False by (cases "k = p") auto
    then show ?thesis using q(1-3) by auto
  qed
qed simp



text \<open>An accepted configuration has a non-empty range of positive worker ports; its advertised port is the
  first of the 21 from the requested one that can be listened on, and the agent's identity is made of host
  and port. The listen address is kept when the requested port is free, and otherwise moved to the
  port found.\<close>

theorem readConfig_accepts:
  assumes "readConfig ifaces free cfg = Inr c"
  shows "0 < cf_WorkerPortStart c \<and> cf_WorkerPortStart c \<le> cf_WorkerPortEnd c \<and>
    cf_AgentID c = ''agent-'' @ cf_AdvertiseHost c @ ''-'' @ itoa (cf_AdvertisePort c) \<and>
    cf_MasterURL c = TrimRight (CHR ''/'') (cf_MasterURL cfg) \<and> cf_MasterURL cfg \<noteq> '''' \<and>
    (\<exists>p. requested_port cfg = Some p \<and> p \<le> cf_AdvertisePort c \<and> cf_AdvertisePort c \<le> p + 20 \<and>
      free (JoinHostPort (listen_host (cf_ListenAddr cfg)) (itoa (cf_AdvertisePort c))) \<and>
      (\<forall>k. p \<le> k \<and> k < cf_AdvertisePort c \<longrightarrow>
        \<not> free (JoinHostPort (listen_host (cf_ListenAddr cfg)) (itoa k))) \<and>
      (if cf_AdvertisePort c = p then cf_ListenAddr c = cf_ListenAddr cfg
       else cf_ListenAddr c = replaceListenPort (cf_ListenAddr cfg) (cf_AdvertisePort c)))"
proof -
  obtain host where host: "(if cf_AdvertiseHost cfg = '''' then detectAdvertiseHost ifaces else Inr (cf_AdvertiseHost cfg)) = Inr host"
    using assms unfolding readConfig_def by (cases "(if cf_AdvertiseHost cfg = '''' then detectAdvertiseHost ifaces else Inr (cf_AdvertiseHost cfg))") auto
  obtain p where p: "requested_port cfg = Some p"
    using assms unfolding readConfig_def host by (cases "requested_port cfg") (auto simp: Let_def)
  obtain q where q: "findAvailablePort free (cf_ListenAddr cfg) p (p + 20) = Some q"
    using assms p unfolding readConfig_def host
    by (cases "findAvailablePort free (cf_ListenAddr cfg) p (p + 20)") (auto simp: Let_def)
  let ?c = "cfg\<lparr>cf_AdvertiseHost := host, cf_AdvertisePort := q,
      cf_ListenAddr := (if q = p then cf_ListenAddr cfg else replaceListenPort (cf_ListenAddr cfg) q)\<rparr>"
  have "0 < cf_WorkerPortStart cfg \<and> cf_WorkerPortStart cfg \<le> cf_WorkerPortEnd cfg \<and> cf_MasterURL cfg \<noteq> '''' \<and>
      c = ?c\<lparr>cf_MasterURL := TrimRight (CHR ''/'') (cf_MasterURL cfg),
        cf_AgentID := ''agent-'' @ host @ ''-'' @ itoa q\<rparr>"
    using assms p q unfolding readConfig_def host
    by (cases "q = p") (auto simp: Let_def split: if_splits)
  moreover have "p \<le> q \<and> q \<le> p + 20 \<and> free (JoinHostPort (listen_host (cf_ListenAddr cfg)) (itoa q)) \<and>
      (\<forall>k. p \<le> k \<and> k < q \<longrightarrow> \<not> free (JoinHostPort (listen_host (cf_ListenAddr cfg)) (itoa k)))"
    using port_search_Some [OF q [unfolded findAvailablePort_def]] by simp
  ultimately show ?thesis using p by auto
qed

definition example_flags :: AgentConfig where
  "example_flags = \<lparr>cf_MasterURL = ''http://m:8080/'', cf_ListenAddr = '':9000'', cf_AdvertiseHost = ''h'',
     cf_AdvertisePort = 9000, cf_AgentID = '''', cf_WorkerImage = ''llm-worker:latest'',
     cf_WorkerPortStart = 50051, cf_WorkerPortEnd = 50150, cf_OllamaURL = '''', cf_ChromaURL = ''''\<rparr>"

definition example_config :: AgentConfig where
  "example_config = example_flags\<lparr>cf_MasterURL := ''http://m:8080'', cf_AgentID := ''agent-h-'' @ itoa 9000\<rparr>"

lemma example_readConfig: "readConfig (Inr []) (\<lambda>_. True) example_flags = Inr example_config"
proof -
  have "findAvailablePort (\<lambda>_. True) a p (p + 20) = Some p" for a p
    by (simp add: findAvailablePort_def eval_nat_numeral)
  from this [of "'':9000''" 9000] show ?thesis
    by (simp add: readConfig_def example_flags_def example_config_def requested_port_def TrimRight_def Let_def)
qed

theorem readConfig_accepts_witness:
  "cf_AgentID example_config = ''agent-h-'' @ itoa 9000 \<and>
   cf_WorkerPortStart example_config \<le> cf_WorkerPortEnd example_config"
  using readConfig_accepts [OF example_readConfig] by (simp add: example_config_def example_flags_def)

end
