(* ===== verification/Agent.thy ===== *)
theory Agent
  imports Agent_Config Server
begin

text \<open>
  The agent of a host: \<open>agent/docker.go\<close> and \<open>agent/handlers.go\<close>. It starts worker containers, reports
  them and tells the master when they are ready. The Docker daemon is third party: what it answers is an
  argument, the requests sent to it are returned. So are the sockets, the clock and the master's answers.
\<close>

section \<open>Data\<close>

record DockerManager =
  dm_cfg :: AgentConfig
  dm_next :: int

record RunningWorker =
  ag_WorkerID :: string
  ag_Address :: string
  ag_ContainerID :: string

record AgentRegistrationRequest =
  rr_AgentID :: string
  rr_Host :: string
  rr_Port :: int
  rr_Workers :: "RunningWorker list"

record CreateWorkerRequest =
  cw_Env :: "string list"
  cw_CallbackURL :: string
  cw_AgentID :: string

record CreateWorkerResponse =
  cr_WorkerID :: string
  cr_Address :: string
  cr_HostPort :: int
  cr_ContainerID :: string

text \<open>What is sent to Docker, and a container as Docker lists it.\<close>

record container_spec =
  sp_Name :: string
  sp_Image :: string
  sp_Env :: "string list"
  sp_Labels :: "(string \<times> string) list"

record Container =
  ct_ID :: string
  ct_Image :: string
  ct_State :: string
  ct_Labels :: "(string \<times> string) list"

datatype docker_op = DCreate container_spec | DStart string | DRemove string

definition label :: "Container \<Rightarrow> string \<Rightarrow> string" where
  "label c k = (case map_of (ct_Labels c) k of None \<Rightarrow> '''' | Some v \<Rightarrow> v)"

definition NewDockerManager :: "AgentConfig \<Rightarrow> DockerManager" where
  "NewDockerManager cfg = \<lparr>dm_cfg = cfg, dm_next = cf_WorkerPortStart cfg\<rparr>"

section \<open>Ports\<close>

text \<open>\<open>free i p\<close> is the outcome of the i-th availability check, of port \<open>p\<close>.\<close>

fun alloc_loop :: "(nat \<Rightarrow> int \<Rightarrow> bool) \<Rightarrow> nat \<Rightarrow> nat \<Rightarrow> DockerManager \<Rightarrow> int option \<times> DockerManager" where
  "alloc_loop free 0 i d = (None, d)"
| "alloc_loop free (Suc n) i d =
     (let port = dm_next d;
          d = d\<lparr>dm_next := dm_next d + 1\<rparr>;
          d = (if cf_WorkerPortEnd (dm_cfg d) < dm_next d then d\<lparr>dm_next := cf_WorkerPortStart (dm_cfg d)\<rparr> else d)
      in if free i port then (Some port, d) else alloc_loop free n (Suc i) d)"

definition allocateHostPort :: "(nat \<Rightarrow> int \<Rightarrow> bool) \<Rightarrow> DockerManager \<Rightarrow> (string + int) \<times> DockerManager" where
  "allocateHostPort free d =
     (let total = cf_WorkerPortEnd (dm_cfg d) - cf_WorkerPortStart (dm_cfg d) + 1 in
      case alloc_loop free (nat total) 0 d of
        (Some port, d) \<Rightarrow> (Inr port, d)
      | (None, d) \<Rightarrow> (Inl (''no free worker ports in range '' @ itoa (cf_WorkerPortStart (dm_cfg d)) @ ''-'' @
          itoa (cf_WorkerPortEnd (dm_cfg d))), d))"

section \<open>Creating a worker\<close>

record docker_env =
  de_free :: "nat \<Rightarrow> int \<Rightarrow> bool"
  de_now :: int \<comment> \<open>milliseconds\<close>
  de_create :: "container_spec \<Rightarrow> string + string"
  de_start :: "string \<Rightarrow> string option"

definition worker_name :: "AgentConfig \<Rightarrow> int \<Rightarrow> int \<Rightarrow> string" where
  "worker_name cfg port now = ''worker-'' @ cf_AgentID cfg @ ''-'' @ itoa port @ ''-'' @ itoa now"

definition worker_spec :: "AgentConfig \<Rightarrow> CreateWorkerRequest \<Rightarrow> string \<Rightarrow> int \<Rightarrow> container_spec" where
  "worker_spec cfg req workerID hostPort =
     \<lparr>sp_Name = ''llm-'' @ workerID, sp_Image = cf_WorkerImage cfg,
      sp_Env = cw_Env req @ [''WORKER_ID='' @ workerID, ''WORKER_PORT='' @ itoa hostPort,
          ''MASTER_URL='' @ cf_MasterURL cfg] @
        (if cf_OllamaURL cfg \<noteq> '''' then [''OLLAMA_URL='' @ cf_OllamaURL cfg] else []) @
        (if cf_ChromaURL cfg \<noteq> '''' then [''CHROMA_URL='' @ cf_ChromaURL cfg] else []),
      sp_Labels = [(''llm.cluster.role'', ''worker''), (''llm.cluster.agent_id'', cf_AgentID cfg),
        (''llm.cluster.worker_id'', workerID), (''llm.cluster.host_port'', itoa hostPort)]\<rparr>"

definition CreateWorker :: "docker_env \<Rightarrow> CreateWorkerRequest \<Rightarrow> DockerManager \<Rightarrow>
    (string + CreateWorkerResponse) \<times> DockerManager \<times> docker_op list" where
  "CreateWorker env req d =
     (case allocateHostPort (de_free env) d of
        (Inl err, d) \<Rightarrow> (Inl err, d, [])
      | (Inr hostPort, d) \<Rightarrow>
          let cfg = dm_cfg d;
              workerID = worker_name cfg hostPort (de_now env);
              spec = worker_spec cfg req workerID hostPort
          in case de_create env spec of
               Inl err \<Rightarrow> (Inl err, d, [DCreate spec])
             | Inr i \<Rightarrow>
                 (case de_start env i of
                    Some err \<Rightarrow> (Inl err, d, [DCreate spec, DStart i, DRemove i])
                  | None \<Rightarrow> (Inr \<lparr>cr_WorkerID = workerID,
                      cr_Address = cf_AdvertiseHost cfg @ '':'' @ itoa hostPort, cr_HostPort = hostPort,
                      cr_ContainerID = i\<rparr>, d, [DCreate spec, DStart i])))"

section \<open>Listing, cleaning and destroying\<close>

fun running_workers :: "AgentConfig \<Rightarrow> Container list \<Rightarrow> RunningWorker list" where
  "running_workers cfg [] = []"
| "running_workers cfg (c # cs) =
     (if ct_Image c \<noteq> cf_WorkerImage cfg then running_workers cfg cs
      else if label c ''llm.cluster.role'' \<noteq> ''worker'' then running_workers cfg cs
      else if ct_State c \<noteq> ''running'' then running_workers cfg cs
      else
        let workerID = label c ''llm.cluster.worker_id'';
            hostPort = label c ''llm.cluster.host_port''
        in if workerID = '''' \<or> hostPort = '''' then running_workers cfg cs
           else \<lparr>ag_WorkerID = workerID, ag_Address = cf_AdvertiseHost cfg @ '':'' @ hostPort,
             ag_ContainerID = ct_ID c\<rparr> # running_workers cfg cs)"

definition ListRunningWorkers :: "AgentConfig \<Rightarrow> string + Container list \<Rightarrow> string + RunningWorker list" where
  "ListRunningWorkers cfg listing =
     (case listing of Inl err \<Rightarrow> Inl err | Inr cs \<Rightarrow> Inr (running_workers cfg cs))"

text \<open>Cleaning logs the first 12 characters of the identifier; a shorter one panics. The result is the count
  and the removals asked for.\<close>

fun clean_loop :: "(string \<Rightarrow> string option) \<Rightarrow> AgentConfig \<Rightarrow> Container list \<Rightarrow> int \<Rightarrow> docker_op list \<Rightarrow>
    (int \<times> docker_op list) option" where
  "clean_loop remove cfg [] n ops = Some (n, ops)"
| "clean_loop remove cfg (c # cs) n ops =
     (if ct_Image c = cf_WorkerImage cfg then
        if length (ct_ID c) < 12 then None
        else
          let ops = ops @ [DRemove (ct_ID c)] in
          case remove (ct_ID c) of
            Some err \<Rightarrow> clean_loop remove cfg cs n ops
          | None \<Rightarrow> clean_loop remove cfg cs (n + 1) ops
      else clean_loop remove cfg cs n ops)"

definition CleanWorkers :: "(string \<Rightarrow> string option) \<Rightarrow> AgentConfig \<Rightarrow> string + Container list \<Rightarrow>
    ((string + int) \<times> docker_op list) option" where
  "CleanWorkers remove cfg listing =
     (case listing of
        Inl err \<Rightarrow> Some (Inl err, [])
      | Inr cs \<Rightarrow> map_option (\<lambda>(n, ops). (Inr n, ops)) (clean_loop remove cfg cs 0 []))"

definition DestroyWorker :: "(string \<Rightarrow> string option) \<Rightarrow> string \<Rightarrow> string option \<times> docker_op list" where
  "DestroyWorker remove workerID = (let name = ''llm-'' @ workerID in (remove name, [DRemove name]))"

section \<open>Waiting for a worker\<close>

text \<open>\<open>clock i\<close> is the time of the i-th check of the deadline and \<open>dial i\<close> the outcome of the i-th dial. The
  result says whether the port was reached and after how many dials the loop ended.\<close>

partial_function (option) wait_loop :: "(nat \<Rightarrow> time) \<Rightarrow> (nat \<Rightarrow> bool) \<Rightarrow> time \<Rightarrow> nat \<Rightarrow> duration \<Rightarrow>
    (bool \<times> nat) option" where
  "wait_loop clock dial deadline i backoff =
     (if clock i < deadline then
        if dial i then Some (True, Suc i)
        else wait_loop clock dial deadline (Suc i)
          (if backoff < 5 * second then backoff + 500 * millisecond else backoff)
      else Some (False, i))"

definition waitForPort :: "(nat \<Rightarrow> time) \<Rightarrow> (nat \<Rightarrow> bool) \<Rightarrow> time \<Rightarrow> duration \<Rightarrow> (bool \<times> nat) option" where
  "waitForPort clock dial now timeout = wait_loop clock dial (now + timeout) 0 (500 * millisecond)"

text \<open>The notification sent to the master: its URL and fields, if the worker got ready.\<close>

definition waitAndCallback :: "(nat \<Rightarrow> time) \<Rightarrow> (nat \<Rightarrow> bool) \<Rightarrow> time \<Rightarrow> CreateWorkerResponse \<Rightarrow> string \<Rightarrow> string \<Rightarrow>
    (string \<times> (string \<times> string) list) option option" where
  "waitAndCallback clock dial now resp callbackURL agentID =
     (case waitForPort clock dial now (100 * second) of
        None \<Rightarrow> None
      | Some (False, n) \<Rightarrow> Some None
      | Some (True, n) \<Rightarrow> Some (Some (callbackURL,
          [(''worker_id'', cr_WorkerID resp), (''address'', cr_Address resp), (''agent_id'', agentID),
           (''container_id'', cr_ContainerID resp)])))"

section \<open>Handlers\<close>

datatype decoded = DecodeError string | DecodeEOF | Decoded CreateWorkerRequest

datatype agent_reply =
    AgentError int string
  | Accepted string string \<comment> \<open>202 with \<open>worker_id\<close> and \<open>address\<close>\<close>
  | Created CreateWorkerResponse
  | Removed int
  | Destroyed

text \<open>The reply, the manager, the requests to Docker, and the callback started: response and URL.\<close>

definition CreateWorkerHandler :: "docker_env \<Rightarrow> string \<Rightarrow> string \<Rightarrow> decoded \<Rightarrow> DockerManager \<Rightarrow>
    agent_reply \<times> DockerManager \<times> docker_op list \<times> (CreateWorkerResponse \<times> string) option" where
  "CreateWorkerHandler env masterURL meth body d =
     (if meth \<noteq> ''POST'' then (AgentError 405 ''method not allowed'', d, [], None)
      else
        let create = (\<lambda>req.
          (case CreateWorker env req d of
             (Inl err, d, ops) \<Rightarrow> (AgentError 500 err, d, ops, None)
           | (Inr resp, d, ops) \<Rightarrow>
               let callbackURL = (if masterURL \<noteq> '''' then masterURL @ ''/workers/ready''
                     else if cw_CallbackURL req \<noteq> '''' then cw_CallbackURL req else '''')
               in if callbackURL \<noteq> ''''
                  then (Accepted (cr_WorkerID resp) (cr_Address resp), d, ops, Some (resp, callbackURL))
                  else (Created resp, d, ops, None)))
        in case body of
             DecodeError err \<Rightarrow> (AgentError 400 err, d, [], None)
           | DecodeEOF \<Rightarrow> create \<lparr>cw_Env = [], cw_CallbackURL = '''', cw_AgentID = ''''\<rparr>
           | Decoded req \<Rightarrow> create req)"

definition CleanWorkerHandler :: "(string \<Rightarrow> string option) \<Rightarrow> string + Container list \<Rightarrow> string \<Rightarrow> DockerManager \<Rightarrow>
    (agent_reply \<times> docker_op list) option" where
  "CleanWorkerHandler remove listing meth d =
     (if meth \<noteq> ''POST'' then Some (AgentError 405 ''method not allowed'', [])
      else case CleanWorkers remove (dm_cfg d) listing of
        None \<Rightarrow> None
      | Some (Inl err, ops) \<Rightarrow> Some (AgentError 500 err, ops)
      | Some (Inr n, ops) \<Rightarrow> Some (Removed n, ops))"

definition DestroyWorkerHandler :: "(string \<Rightarrow> string option) \<Rightarrow> string \<Rightarrow> string \<Rightarrow> agent_reply \<times> docker_op list" where
  "DestroyWorkerHandler remove meth workerID =
     (if meth \<noteq> ''DELETE'' then (AgentError 405 ''method not allowed'', [])
      else if workerID = '''' then (AgentError 400 ''worker_id is required'', [])
      else case DestroyWorker remove workerID of
        (Some err, ops) \<Rightarrow> (AgentError 500 err, ops)
      | (None, ops) \<Rightarrow> (Destroyed, ops))"

section \<open>Registering with the master\<close>

definition registration :: "AgentConfig \<Rightarrow> string + RunningWorker list \<Rightarrow> AgentRegistrationRequest" where
  "registration cfg listed =
     \<lparr>rr_AgentID = cf_AgentID cfg, rr_Host = cf_AdvertiseHost cfg, rr_Port = cf_AdvertisePort cfg,
      rr_Workers = (case listed of Inl err \<Rightarrow> [] | Inr ws \<Rightarrow> ws)\<rparr>"

text \<open>\<open>ack i\<close> is the master's answer to the i-th attempt: an error or a status. The result is the error, if
  all attempts failed, the attempts made and the time slept.\<close>

fun register_attempts :: "(nat \<Rightarrow> string + int) \<Rightarrow> nat \<Rightarrow> nat \<Rightarrow> duration \<Rightarrow> duration \<Rightarrow>
    string option \<times> nat \<times> duration" where
  "register_attempts ack 0 i backoff slept = (Some ''master registration failed after retries'', i, slept)"
| "register_attempts ack (Suc n) i backoff slept =
     (let err = (case ack i of
          Inl e \<Rightarrow> Some e
        | Inr code \<Rightarrow> if 200 \<le> code \<and> code < 300 then None
            else Some (''master registration failed with status '' @ itoa code))
      in case err of
           None \<Rightarrow> (None, Suc i, slept)
         | Some e \<Rightarrow>
             if n = 0 then (Some e, Suc i, slept)
             else register_attempts ack n (Suc i) (backoff * 2) (slept + backoff))"

definition RegisterWithMaster :: "(AgentRegistrationRequest \<Rightarrow> nat \<Rightarrow> string + int) \<Rightarrow> AgentConfig \<Rightarrow>
    string + Container list \<Rightarrow> string option \<times> nat \<times> duration" where
  "RegisterWithMaster ack cfg listing =
     register_attempts (ack (registration cfg (ListRunningWorkers cfg listing))) 6 0 (1 * second) 0"

text \<open>What the master decodes from the agent's JSON: both sides use the same field names.\<close>

definition as_received :: "AgentRegistrationRequest \<Rightarrow> AgentRegisterRequest" where
  "as_received q = \<lparr>ar_AgentID = rr_AgentID q, ar_Host = rr_Host q, ar_Port = rr_Port q,
     ar_Workers = map (\<lambda>w. \<lparr>rw_WorkerID = ag_WorkerID w, rw_Address = ag_Address w,
       rw_ContainerID = ag_ContainerID w\<rparr>) (rr_Workers q)\<rparr>"

section \<open>Allocation of ports\<close>

text \<open>The port \<open>k\<close> places after the next one, round the range.\<close>

definition cyclic_port :: "DockerManager \<Rightarrow> nat \<Rightarrow> int" where
  "cyclic_port d k = (let a = cf_WorkerPortStart (dm_cfg d); n = cf_WorkerPortEnd (dm_cfg d) - a + 1
     in a + (dm_next d - a + int k) mod n)"

definition port_state :: "DockerManager \<Rightarrow> bool" where
  "port_state d \<longleftrightarrow> cf_WorkerPortStart (dm_cfg d) \<le> dm_next d \<and> dm_next d \<le> cf_WorkerPortEnd (dm_cfg d)"

definition after_port :: "DockerManager \<Rightarrow> DockerManager" where
  "after_port d = d\<lparr>dm_next := cyclic_port d 1\<rparr>"

lemma cyclic_port_0: "port_state d \<Longrightarrow> cyclic_port d 0 = dm_next d"
  by (simp add: port_state_def cyclic_port_def Let_def)

lemma cyclic_port_range:
  "port_state d \<Longrightarrow> cf_WorkerPortStart (dm_cfg d) \<le> cyclic_port d k \<and> cyclic_port d k \<le> cf_WorkerPortEnd (dm_cfg d)"
  using pos_mod_bound [of "cf_WorkerPortEnd (dm_cfg d) - cf_WorkerPortStart (dm_cfg d) + 1"
      "dm_next d - cf_WorkerPortStart (dm_cfg d) + int k"]
  by (simp add: port_state_def cyclic_port_def Let_def)

lemma after_port_state: "port_state d \<Longrightarrow> port_state (after_port d)"
  using cyclic_port_range [of d 1] by (simp add: port_state_def after_port_def)

lemma after_port_cyclic: "cyclic_port (after_port d) k = cyclic_port d (Suc k)"
proof -
  let ?a = "cf_WorkerPortStart (dm_cfg d)"
  let ?n = "cf_WorkerPortEnd (dm_cfg d) - ?a + 1" and ?x = "dm_next d - ?a"
  have "((?x + int 1) mod ?n + int k) mod ?n = (?x + int 1 + int k) mod ?n" by (rule mod_add_left_eq)
  also have "?x + int 1 + int k = ?x + int (Suc k)" by simp
  finally have eq: "((?x + int 1) mod ?n + int k) mod ?n = (?x + int (Suc k)) mod ?n" .
  have sel: "dm_cfg (after_port d) = dm_cfg d" "dm_next (after_port d) = ?a + (?x + int 1) mod ?n"
    by (simp_all add: after_port_def cyclic_port_def Let_def)
  show ?thesis by (simp only: cyclic_port_def Let_def sel add_diff_cancel_left' eq)
qed

lemma alloc_step:
  assumes "port_state d"
  shows "(let d1 = d\<lparr>dm_next := dm_next d + 1\<rparr> in
    if cf_WorkerPortEnd (dm_cfg d1) < dm_next d1 then d1\<lparr>dm_next := cf_WorkerPortStart (dm_cfg d1)\<rparr> else d1) = after_port d"
proof (cases "dm_next d = cf_WorkerPortEnd (dm_cfg d)")
  case True
  then show ?thesis by (simp add: after_port_def cyclic_port_def Let_def)
next
  case False
  then show ?thesis using assms by (simp add: after_port_def cyclic_port_def Let_def port_state_def)
qed

lemma alloc_loop_spec:
  "port_state d \<Longrightarrow>
     (case alloc_loop free n i d of
        (Some p, d') \<Rightarrow> \<exists>k < n. p = cyclic_port d k \<and> free (i + k) p \<and> (\<forall>j < k. \<not> free (i + j) (cyclic_port d j)) \<and>
          dm_cfg d' = dm_cfg d \<and> dm_next d' = cyclic_port d (Suc k)
      | (None, d') \<Rightarrow> (\<forall>j < n. \<not> free (i + j) (cyclic_port d j)) \<and>
          dm_cfg d' = dm_cfg d \<and> dm_next d' = cyclic_port d n)"
proof (induction n arbitrary: i d)
  case 0
  then show ?case by (simp add: cyclic_port_0)
next
  case (Suc n)
  have step: "alloc_loop free (Suc n) i d =
      (if free i (cyclic_port d 0) then (Some (cyclic_port d 0), after_port d) else alloc_loop free n (Suc i) (after_port d))"
    using alloc_step [OF Suc.prems] by (simp add: Let_def cyclic_port_0 [OF Suc.prems])
  show ?case
  proof (cases "free i (cyclic_port d 0)")
    case True
    then have "alloc_loop free (Suc n) i d = (Some (cyclic_port d 0), after_port d)" by (simp only: step if_True)
    then show ?thesis using True
      by (simp add: after_port_def del: alloc_loop.simps) (intro exI [of _ 0], simp)
  next
    case False
    obtain r d' where L: "alloc_loop free n (Suc i) (after_port d) = (r, d')" by (cases "alloc_loop free n (Suc i) (after_port d)")
    have all: "(\<forall>j < Suc m. \<not> free (i + j) (cyclic_port d j)) \<longleftrightarrow>
        (\<forall>j < m. \<not> free (Suc i + j) (cyclic_port (after_port d) j))" for m
      using False by (auto simp: after_port_cyclic less_Suc_eq_0_disj)
    have cfg: "dm_cfg (after_port d) = dm_cfg d" by (simp add: after_port_def)
    show ?thesis
    proof (cases r)
      case None
      then show ?thesis using Suc.IH [OF after_port_state [OF Suc.prems], of "Suc i"] False L
        by (simp add: step all cfg after_port_cyclic del: alloc_loop.simps)
    next
      case (Some p)
      obtain k where k: "k < n" "p = cyclic_port (after_port d) k" "free (Suc i + k) p"
        "\<forall>j < k. \<not> free (Suc i + j) (cyclic_port (after_port d) j)" "dm_cfg d' = dm_cfg d"
        "dm_next d' = cyclic_port (after_port d) (Suc k)"
        using Suc.IH [OF after_port_state [OF Suc.prems], of "Suc i"] L Some by (auto simp: cfg)
      have "\<forall>j < Suc k. \<not> free (i + j) (cyclic_port d j)" using k(4) all by blast
      then show ?thesis using k False L Some 
        by (auto simp: step after_port_cyclic intro!: exI [of _ "Suc k"] simp del: alloc_loop.simps)
    qed
  qed
qed

lemma cyclic_port_round:
  assumes "port_state d"
  shows "cyclic_port d (nat (cf_WorkerPortEnd (dm_cfg d) - cf_WorkerPortStart (dm_cfg d) + 1)) = dm_next d"
proof -
  let ?a = "cf_WorkerPortStart (dm_cfg d)"
  let ?n = "cf_WorkerPortEnd (dm_cfg d) - ?a + 1"
  have "0 \<le> dm_next d - ?a" "dm_next d - ?a < ?n" "int (nat ?n) = ?n" using assms by (auto simp: port_state_def)
  then have "(dm_next d - ?a + int (nat ?n)) mod ?n = dm_next d - ?a"
    by (simp only: mod_add_self2 mod_pos_pos_trivial)
  then show ?thesis by (simp only: cyclic_port_def Let_def add_diff_cancel_left' diff_add_cancel add.commute [of ?a])
qed

lemma cyclic_port_onto:
  assumes "port_state d" and "cf_WorkerPortStart (dm_cfg d) \<le> p" and "p \<le> cf_WorkerPortEnd (dm_cfg d)"
  shows "\<exists>k < nat (cf_WorkerPortEnd (dm_cfg d) - cf_WorkerPortStart (dm_cfg d) + 1). p = cyclic_port d k"
proof -
  let ?a = "cf_WorkerPortStart (dm_cfg d)"
  let ?n = "cf_WorkerPortEnd (dm_cfg d) - ?a + 1"
  let ?k = "(p - dm_next d) mod ?n"
  have n: "0 < ?n" using assms by simp
  have "(dm_next d - ?a + ?k) mod ?n = (dm_next d - ?a + (p - dm_next d)) mod ?n" by (rule mod_add_right_eq)
  also have "\<dots> = p - ?a" using assms by (simp add: mod_pos_pos_trivial)
  finally have "p = cyclic_port d (nat ?k)" using n by (simp add: cyclic_port_def Let_def)
  moreover have "nat ?k < nat ?n" using pos_mod_bound [OF n] n by (simp add: nat_less_iff)
  ultimately show ?thesis by blast
qed

text \<open>A port is allocated exactly when one of the range is free: it is the first free one after the last
  allocated, round the range, and the next search goes on behind it. Without a free port every port has
  been checked once, and the search will start where it did before.\<close>

theorem allocateHostPort_cyclic:
  assumes "port_state d"
  shows "case allocateHostPort (\<lambda>_. free) d of
    (Inr p, d') \<Rightarrow> port_state d' \<and> dm_cfg d' = dm_cfg d \<and> free p \<and>
      cf_WorkerPortStart (dm_cfg d) \<le> p \<and> p \<le> cf_WorkerPortEnd (dm_cfg d) \<and>
      (\<exists>k. p = cyclic_port d k \<and> dm_next d' = cyclic_port d (Suc k) \<and> (\<forall>j < k. \<not> free (cyclic_port d j)))
  | (Inl _, d') \<Rightarrow> d' = d \<and>
      (\<forall>p. cf_WorkerPortStart (dm_cfg d) \<le> p \<and> p \<le> cf_WorkerPortEnd (dm_cfg d) \<longrightarrow> \<not> free p)"
proof -
  let ?n = "nat (cf_WorkerPortEnd (dm_cfg d) - cf_WorkerPortStart (dm_cfg d) + 1)"
  obtain r d' where L: "alloc_loop (\<lambda>_. free) ?n 0 d = (r, d')" by (cases "alloc_loop (\<lambda>_. free) ?n 0 d")
  note S = alloc_loop_spec [OF assms, where free = "\<lambda>_. free" and n = ?n and i = 0, unfolded L prod.case]
  show ?thesis
  proof (cases r)
    case None
    then have "d' = d" using S cyclic_port_round [OF assms] by simp
    moreover have "\<not> free p" if "cf_WorkerPortStart (dm_cfg d) \<le> p" "p \<le> cf_WorkerPortEnd (dm_cfg d)" for p
      using cyclic_port_onto [OF assms that] S None by auto
    ultimately show ?thesis using L None by (simp add: allocateHostPort_def Let_def)
  next
    case (Some p)
    then obtain k where k: "p = cyclic_port d k" "free p" "\<forall>j < k. \<not> free (cyclic_port d j)"
      "dm_cfg d' = dm_cfg d" "dm_next d' = cyclic_port d (Suc k)"
      using S by auto
    have "port_state d'" using k cyclic_port_range [OF assms, of "Suc k"] by (simp add: port_state_def)
    then show ?thesis using L Some k cyclic_port_range [OF assms, of k]
      by (auto simp: allocateHostPort_def Let_def)
  qed
qed

section \<open>The wait ends\<close>

definition wait_pause :: "nat \<Rightarrow> duration" where
  "wait_pause i = (if i < 9 then (int i + 1) * (500 * millisecond) else 5 * second)"

lemma wait_pause_Suc:
  "wait_pause (Suc i) = (if wait_pause i < 5 * second then wait_pause i + 500 * millisecond else wait_pause i)"
  by (auto simp: wait_pause_def time_units algebra_simps)

lemma clock_sum:
  "\<forall>i. clock i + wait_pause i \<le> clock (Suc i) \<Longrightarrow> clock 0 + (\<Sum>j<i. wait_pause j) \<le> (clock i :: int)"
proof (induction i)
  case (Suc i)
  then have "clock 0 + (\<Sum>j<i. wait_pause j) \<le> clock i" "clock i + wait_pause i \<le> clock (Suc i)" by blast+
  then show ?case by simp
qed simp

lemma wait_loop_ends:
  assumes "deadline \<le> clock N"
  shows "i + m = N \<Longrightarrow> \<exists>b n. wait_loop clock dial deadline i (wait_pause i) = Some (b, n) \<and> i \<le> n \<and> n \<le> N \<and>
    (if b then i < n \<and> dial (n - 1) \<and> (\<forall>j. i \<le> j \<and> j < n - 1 \<longrightarrow> \<not> dial j)
     else deadline \<le> clock n \<and> (\<forall>j. i \<le> j \<and> j < n \<longrightarrow> \<not> dial j))"
proof (induction m arbitrary: i)
  case 0
  then show ?case using assms
    by (intro exI [of _ False] exI [of _ N]) (auto simp: wait_loop.simps [of clock dial deadline])
next
  case (Suc m)
  show ?case
  proof (cases "clock i < deadline \<and> \<not> dial i")
    case False
    show ?thesis
    proof (cases "clock i < deadline")
      case True
      then have "wait_loop clock dial deadline i (wait_pause i) = Some (True, Suc i)" "dial i"
        using False by (simp_all add: wait_loop.simps [of clock dial deadline i])
      then show ?thesis using Suc.prems by (intro exI [of _ True] exI [of _ "Suc i"]) auto
    next
      case late: False
      then have "wait_loop clock dial deadline i (wait_pause i) = Some (False, i)"
        by (simp add: wait_loop.simps [of clock dial deadline i])
      then show ?thesis using Suc.prems late by (intro exI [of _ False] exI [of _ i]) auto
    qed
  next
    case True
    then have "wait_loop clock dial deadline i (wait_pause i) = wait_loop clock dial deadline (Suc i) (wait_pause (Suc i))"
      by (simp add: wait_loop.simps [of clock dial deadline i] wait_pause_Suc)
    moreover obtain b n where "wait_loop clock dial deadline (Suc i) (wait_pause (Suc i)) = Some (b, n)"
      "Suc i \<le> n" "n \<le> N" "if b then Suc i < n \<and> dial (n - 1) \<and> (\<forall>j. Suc i \<le> j \<and> j < n - 1 \<longrightarrow> \<not> dial j)
       else deadline \<le> clock n \<and> (\<forall>j. Suc i \<le> j \<and> j < n \<longrightarrow> \<not> dial j)"
      using Suc.IH [of "Suc i"] Suc.prems by auto
    moreover have "(\<forall>j. i \<le> j \<and> j < k \<longrightarrow> \<not> dial j) \<longleftrightarrow> (\<forall>j. Suc i \<le> j \<and> j < k \<longrightarrow> \<not> dial j)" for k
      using True by (metis Suc_leD le_neq_implies_less Suc_leI)
    ultimately show ?thesis by (intro exI [of _ b] exI [of _ n]) (simp split: if_splits)
  qed
qed

text \<open>Waiting for a worker ends after at most 25 dials, as soon as one succeeds and otherwise not before the
  100 seconds are over, whatever the dials answer, if sleeping takes at least the time asked for.\<close>

theorem waitForPort_ends:
  assumes "now \<le> clock 0" and "\<forall>i. clock i + wait_pause i \<le> clock (Suc i)"
  shows "\<exists>b n. waitForPort clock dial now (100 * second) = Some (b, n) \<and> n \<le> 25 \<and>
    (if b then 0 < n \<and> dial (n - 1) \<and> (\<forall>j < n - 1. \<not> dial j)
     else now + 100 * second \<le> clock n \<and> (\<forall>j < n. \<not> dial j))"
proof -
  have "(\<Sum>j<25. wait_pause j) = 205 * (500 * millisecond)"
    by (simp add: wait_pause_def eval_nat_numeral lessThan_Suc time_units)
  then have "now + 100 * second \<le> clock 25"
    using clock_sum [OF assms(2), of 25] assms(1) by (simp add: time_units)
  from wait_loop_ends [where clock = clock and N = 25 and i = 0 and m = 25 and dial = dial, OF this]
  obtain b n where "wait_loop clock dial (now + 100 * second) 0 (wait_pause 0) = Some (b, n)" "n \<le> 25"
    "if b then 0 < n \<and> dial (n - 1) \<and> (\<forall>j. 0 \<le> j \<and> j < n - 1 \<longrightarrow> \<not> dial j)
     else now + 100 * second \<le> clock n \<and> (\<forall>j. 0 \<le> j \<and> j < n \<longrightarrow> \<not> dial j)" by auto
  then show ?thesis
    by (intro exI [of _ b] exI [of _ n]) (simp add: waitForPort_def wait_pause_def split: if_splits)
qed

theorem waitForPort_ends_witness:
  "\<exists>n. waitForPort (\<lambda>i. int i * (5 * second)) (\<lambda>_. False) 0 (100 * second) = Some (False, n) \<and> n \<le> 25"
proof -
  have "wait_pause i \<le> 5 * second" for i by (auto simp: wait_pause_def time_units)
  then have "\<forall>i. int i * (5 * second) + wait_pause i \<le> int (Suc i) * (5 * second)"
    by (simp add: algebra_simps)
  from waitForPort_ends [of 0 "\<lambda>i. int i * (5 * second)", OF _ this, of "\<lambda>_. False"] show ?thesis
    by (auto split: if_splits)
qed

section \<open>A worker's identity survives\<close>

lemma CreateWorker_response:
  assumes "CreateWorker env req d = (Inr resp, d', ops)"
  shows "\<exists>spec. ops = [DCreate spec, DStart (cr_ContainerID resp)] \<and> de_create env spec = Inr (cr_ContainerID resp) \<and>
    spec = worker_spec (dm_cfg d) req (cr_WorkerID resp) (cr_HostPort resp) \<and>
    cr_Address resp = cf_AdvertiseHost (dm_cfg d) @ '':'' @ itoa (cr_HostPort resp) \<and>
    cr_WorkerID resp = worker_name (dm_cfg d) (cr_HostPort resp) (de_now env)"
proof -
  obtain r d1 where A: "allocateHostPort (de_free env) d = (r, d1)" by (cases "allocateHostPort (de_free env) d")
  have "dm_cfg (snd (alloc_loop f n i e)) = dm_cfg e" for f n i e
    by (induction f n i e rule: alloc_loop.induct) (auto simp: Let_def)
  then have cfg: "dm_cfg d1 = dm_cfg d"
    using A by (auto simp: allocateHostPort_def Let_def split: prod.splits option.splits) (metis snd_conv)+
  show ?thesis using assms A cfg
    by (auto simp: CreateWorker_def Let_def split: sum.splits option.splits)
qed

text \<open>What Docker lists for a container that was created and started.\<close>

definition lists :: "container_spec \<Rightarrow> string \<Rightarrow> Container \<Rightarrow> bool" where
  "lists spec i c \<longleftrightarrow> ct_ID c = i \<and> ct_Image c = sp_Image spec \<and> ct_State c = ''running'' \<and>
     ct_Labels c = sp_Labels spec"

lemma itoa_nonempty: "itoa n \<noteq> ''''"
  using digits_Cons by (auto simp: itoa_def) (metis list.discI)

lemma running_workers_iff:
  "w \<in> set (running_workers cfg cs) \<longleftrightarrow> (\<exists>c \<in> set cs. ct_Image c = cf_WorkerImage cfg \<and>
     label c ''llm.cluster.role'' = ''worker'' \<and> ct_State c = ''running'' \<and>
     label c ''llm.cluster.worker_id'' \<noteq> '''' \<and> label c ''llm.cluster.host_port'' \<noteq> '''' \<and>
     w = \<lparr>ag_WorkerID = label c ''llm.cluster.worker_id'',
       ag_Address = cf_AdvertiseHost cfg @ '':'' @ label c ''llm.cluster.host_port'', ag_ContainerID = ct_ID c\<rparr>)"
  by (induction cs) (auto simp: Let_def)

lemma worker_spec_labels:
  "lists (worker_spec cfg req k p) i c \<Longrightarrow> label c ''llm.cluster.role'' = ''worker'' \<and>
     label c ''llm.cluster.worker_id'' = k \<and> label c ''llm.cluster.host_port'' = itoa p \<and>
     ct_Image c = cf_WorkerImage cfg \<and> ct_ID c = i \<and> ct_State c = ''running''"
  by (simp add: lists_def worker_spec_def label_def)

lemma first_reachable_unique:
  "w \<in> set ws \<Longrightarrow> \<forall>w' \<in> set ws. rw_WorkerID w' = rw_WorkerID w \<longrightarrow> w' = w \<Longrightarrow>
     \<forall>i. reachable_worker (dial i) \<Longrightarrow> first_reachable dial i ws (rw_WorkerID w) = Some (rw_Address w)"
  by (induction ws arbitrary: i) auto


section \<open>Cleaning\<close>

text \<open>Cleaning asks for the removal of every container of the worker image, whichever agent it belongs to and
  whatever its state, and counts those that were removed; it panics only on a short identifier.\<close>

lemma clean_loop_eq:
  "\<forall>c \<in> set cs. 12 \<le> length (ct_ID c) \<Longrightarrow> clean_loop remove cfg cs n ops =
     Some (n + int (length (filter (\<lambda>c. ct_Image c = cf_WorkerImage cfg \<and> remove (ct_ID c) = None) cs)),
       ops @ map (DRemove \<circ> ct_ID) (filter (\<lambda>c. ct_Image c = cf_WorkerImage cfg) cs))"
  by (induction cs arbitrary: n ops) (auto simp: Let_def split: option.split)

lemma CleanWorkers_all:
  "\<forall>c \<in> set cs. 12 \<le> length (ct_ID c) \<Longrightarrow> CleanWorkers remove cfg (Inr cs) =
     Some (Inr (int (length (filter (\<lambda>c. ct_Image c = cf_WorkerImage cfg \<and> remove (ct_ID c) = None) cs))),
       map (DRemove \<circ> ct_ID) (filter (\<lambda>c. ct_Image c = cf_WorkerImage cfg) cs))"
  by (simp add: CleanWorkers_def clean_loop_eq)

section \<open>Registration attempts\<close>

definition registered_ok :: "string + int \<Rightarrow> bool" where
  "registered_ok a = (case a of Inl _ \<Rightarrow> False | Inr code \<Rightarrow> 200 \<le> code \<and> code < 300)"

lemma register_attempts_Suc:
  "register_attempts ack (Suc n) i b s =
     (if registered_ok (ack i) then (None, Suc i, s)
      else if n = 0 then (Some (case ack i of Inl e \<Rightarrow> e | Inr code \<Rightarrow>
        ''master registration failed with status '' @ itoa code), Suc i, s)
      else register_attempts ack n (Suc i) (b * 2) (s + b))"
  by (auto simp: registered_ok_def Let_def split: sum.split)

text \<open>An agent gives up after six attempts and 31 seconds; otherwise the first accepted attempt ends it.\<close>

lemma register_gives_up:
  "\<forall>i < 6. \<not> registered_ok (ack (registration cfg (ListRunningWorkers cfg listing)) i) \<Longrightarrow>
     \<exists>e. RegisterWithMaster ack cfg listing = (Some e, 6, 31 * second)"
  by (simp add: RegisterWithMaster_def eval_nat_numeral register_attempts_Suc All_less_Suc del: register_attempts.simps)

lemma register_accepted:
  "k < 6 \<Longrightarrow> registered_ok (ack (registration cfg (ListRunningWorkers cfg listing)) k) \<Longrightarrow>
   \<forall>i < k. \<not> registered_ok (ack (registration cfg (ListRunningWorkers cfg listing)) i) \<Longrightarrow>
     RegisterWithMaster ack cfg listing = (None, Suc k, (2 ^ k - 1) * second)"
  by (auto simp: RegisterWithMaster_def eval_nat_numeral register_attempts_Suc less_Suc_eq
      simp del: register_attempts.simps)

section \<open>Examples\<close>

definition example_manager :: DockerManager where
  "example_manager = NewDockerManager example_config"

lemma example_port_state: "port_state example_manager"
  by (simp add: port_state_def example_manager_def NewDockerManager_def example_config_def example_flags_def)

theorem allocateHostPort_cyclic_witness:
  "\<exists>p d. allocateHostPort (\<lambda>_ p. p = 50099) example_manager = (Inr p, d) \<and> p = 50099 \<and> port_state d"
proof -
  have r: "cf_WorkerPortStart (dm_cfg example_manager) = 50051" "cf_WorkerPortEnd (dm_cfg example_manager) = 50150"
    by (simp_all add: example_manager_def NewDockerManager_def example_config_def example_flags_def)
  note A = allocateHostPort_cyclic [OF example_port_state, of "\<lambda>p. p = 50099"]
  obtain res d where R: "allocateHostPort (\<lambda>_ p. p = 50099) example_manager = (res, d)"
    by (cases "allocateHostPort (\<lambda>_ p. p = 50099) example_manager")
  show ?thesis
  proof (cases res)
    case (Inl e)
    then have "\<forall>p :: int. 50051 \<le> p \<and> p \<le> 50150 \<longrightarrow> p \<noteq> 50099" using A R r by simp
    from spec [OF this, of 50099] show ?thesis by simp
  next
    case (Inr p)
    then show ?thesis using A R by auto
  qed
qed

definition example_docker :: docker_env where
  "example_docker = \<lparr>de_free = \<lambda>_ _. True, de_now = 0, de_create = \<lambda>_. Inr ''0123456789ab'', de_start = \<lambda>_. None\<rparr>"

definition no_request :: CreateWorkerRequest where
  "no_request = \<lparr>cw_Env = [], cw_CallbackURL = '''', cw_AgentID = ''''\<rparr>"


end
