(* ===== verification/Go_Text.thy ===== *)
theory Go_Text
  imports Prelude
begin

text \<open>
  What the terminal interfaces use of Go's text libraries, on strings as lists of bytes: UTF-8 decoding
  as \<open>range\<close>, \<open>[]rune(s)\<close> and \<open>utf8.RuneCountInString\<close> do it (an ill-formed byte is a rune of its own, the
  replacement character), encoding, \<open>strings.Repeat\<close>, \<open>Join\<close>, \<open>Fields\<close> and \<open>TrimSpace\<close>. The lemmas say that decoding splits a
  string into the bytes of its runes, that these splits are stable under cutting and joining, and
  that encoding and decoding are inverse on valid runes.
\<close>

section \<open>UTF-8\<close>

definition byte :: "char \<Rightarrow> nat" where
  "byte c = of_char c"

definition RuneError :: nat where
  "RuneError = 65533"

definition cont :: "char \<Rightarrow> bool" where
  "cont c \<longleftrightarrow> 128 \<le> byte c \<and> byte c \<le> 191"

text \<open>The second byte's range depends on the first (no overlong forms, no surrogates, at most U+10FFFF).\<close>

definition second_byte :: "nat \<Rightarrow> char \<Rightarrow> bool" where
  "second_byte b c \<longleftrightarrow> (if b = 224 then 160 else if b = 240 then 144 else 128) \<le> byte c \<and>
     byte c \<le> (if b = 237 then 159 else if b = 244 then 143 else 191)"

text \<open>The rune that starts with a given byte, and how many more bytes it has.\<close>

definition decode_rune :: "char \<Rightarrow> string \<Rightarrow> nat \<times> nat" where
  "decode_rune c s =
     (let b = byte c in
      if b < 128 then (b, 0)
      else if 194 \<le> b \<and> b \<le> 223 \<and> 1 \<le> length s \<and> cont (s ! 0)
      then ((b - 192) * 64 + (byte (s ! 0) - 128), 1)
      else if 224 \<le> b \<and> b \<le> 239 \<and> 2 \<le> length s \<and> second_byte b (s ! 0) \<and> cont (s ! 1)
      then ((b - 224) * 4096 + (byte (s ! 0) - 128) * 64 + (byte (s ! 1) - 128), 2)
      else if 240 \<le> b \<and> b \<le> 244 \<and> 3 \<le> length s \<and> second_byte b (s ! 0) \<and> cont (s ! 1) \<and> cont (s ! 2)
      then ((b - 240) * 262144 + (byte (s ! 0) - 128) * 4096 + (byte (s ! 1) - 128) * 64 + (byte (s ! 2) - 128), 3)
      else (RuneError, 0))"

lemma decode_rune_extra: "snd (decode_rune c s) \<le> length s"
  by (simp add: decode_rune_def Let_def)

text \<open>The runes of a string with the bytes they come from.\<close>

function chunks :: "string \<Rightarrow> (nat \<times> string) list" where
  "chunks [] = []"
| "chunks (c # s) = (let (r, k) = decode_rune c s in (r, c # take k s) # chunks (drop k s))"
  by pat_completeness auto
termination by (relation "measure length") auto

definition runes :: "string \<Rightarrow> nat list" where
  "runes s = map fst (chunks s)"

definition RuneCount :: "string \<Rightarrow> nat" where
  "RuneCount s = length (chunks s)"

definition encode_rune :: "nat \<Rightarrow> string" where
  "encode_rune r = map char_of
     (if r < 128 then [r]
      else if r < 2048 then [192 + r div 64, 128 + r mod 64]
      else if r < 55296 \<or> 57344 \<le> r \<and> r < 65536 then [224 + r div 4096, 128 + r div 64 mod 64, 128 + r mod 64]
      else if 65536 \<le> r \<and> r < 1114112
      then [240 + r div 262144, 128 + r div 4096 mod 64, 128 + r div 64 mod 64, 128 + r mod 64]
      else [239, 191, 189 :: nat])"

definition from_runes :: "nat list \<Rightarrow> string" where
  "from_runes rs = concat (map encode_rune rs)"

definition scalar :: "nat \<Rightarrow> bool" where
  "scalar r \<longleftrightarrow> r < 55296 \<or> 57344 \<le> r \<and> r < 1114112"

lemma length_runes [simp]: "length (runes s) = RuneCount s"
  by (simp add: runes_def RuneCount_def)

lemma runes_Nil [simp]: "runes [] = []"
  by (simp add: runes_def)

lemma RuneCount_Nil [simp]: "RuneCount [] = 0"
  by (simp add: RuneCount_def)

subsection \<open>Chunks\<close>

lemma chunks_bytes [simp]: "concat (map snd (chunks s)) = s"
  by (induction s rule: chunks.induct) (simp_all split: prod.split)

lemma second_byte_cont: "second_byte b x \<Longrightarrow> cont x"
  by (auto simp: second_byte_def cont_def split: if_splits)

lemma decode_rune_append:
  assumes "t = [] \<or> \<not> cont (hd t)"
  shows "decode_rune c (s @ t) = decode_rune c s"
proof -
  have 1: "1 \<le> length (s @ t) \<and> cont ((s @ t) ! 0) \<longleftrightarrow> 1 \<le> length s \<and> cont (s ! 0)"
    using assms by (cases s; cases t) auto
  have 2: "2 \<le> length (s @ t) \<and> second_byte b ((s @ t) ! 0) \<and> cont ((s @ t) ! 1) \<longleftrightarrow>
      2 \<le> length s \<and> second_byte b (s ! 0) \<and> cont (s ! 1)" for b
  proof (cases "2 \<le> length s")
    case False
    then show ?thesis
      using assms second_byte_cont [of b "(s @ t) ! 0"]
      by (cases s; cases t) (auto simp: Suc_le_eq length_Suc_conv)
  qed (auto simp: nth_append)
  have 3: "3 \<le> length (s @ t) \<and> second_byte b ((s @ t) ! 0) \<and> cont ((s @ t) ! 1) \<and> cont ((s @ t) ! 2) \<longleftrightarrow>
      3 \<le> length s \<and> second_byte b (s ! 0) \<and> cont (s ! 1) \<and> cont (s ! 2)" for b
  proof (cases "3 \<le> length s")
    case False
    then have "length s = 0 \<or> length s = 1 \<or> length s = 2" by linarith
    then show ?thesis
      using assms second_byte_cont [of b "(s @ t) ! 0"] False
      by (cases t) (auto simp: nth_append)
  qed (auto simp: nth_append)
  show ?thesis
    unfolding decode_rune_def Let_def 1 2 3 by (auto simp: nth_append)
qed

lemma decode_rune_cut:
  assumes "snd (decode_rune c (s @ t)) \<le> length s"
  shows "decode_rune c s = decode_rune c (s @ t)"
proof -
  define C1 where "C1 u \<longleftrightarrow> 194 \<le> byte c \<and> byte c \<le> 223 \<and> 1 \<le> length u \<and> cont (u ! 0)" for u
  define C2 where "C2 u \<longleftrightarrow> 224 \<le> byte c \<and> byte c \<le> 239 \<and> 2 \<le> length u \<and> second_byte (byte c) (u ! 0) \<and> cont (u ! 1)" for u
  define C3 where "C3 u \<longleftrightarrow> 240 \<le> byte c \<and> byte c \<le> 244 \<and> 3 \<le> length u \<and> second_byte (byte c) (u ! 0) \<and>
    cont (u ! 1) \<and> cont (u ! 2)" for u
  define v1 where "v1 u = (byte c - 192) * 64 + (byte (u ! 0) - 128)" for u
  define v2 where "v2 u = (byte c - 224) * 4096 + (byte (u ! 0) - 128) * 64 + (byte (u ! 1) - 128)" for u
  define v3 where "v3 u = (byte c - 240) * 262144 + (byte (u ! 0) - 128) * 4096 + (byte (u ! 1) - 128) * 64 +
    (byte (u ! 2) - 128)" for u
  have D: "decode_rune c u = (if byte c < 128 then (byte c, 0) else if C1 u then (v1 u, 1)
      else if C2 u then (v2 u, 2) else if C3 u then (v3 u, 3) else (RuneError, 0))" for u
    by (simp add: decode_rune_def Let_def C1_def C2_def C3_def v1_def v2_def v3_def)
  have n: "(s @ t) ! 0 = s ! 0" if "1 \<le> length s"
    using that by (cases s) auto
  have m: "(s @ t) ! i = s ! i" if "i < length s" for i
    using that by (simp add: nth_append)
  have 1: "C1 (s @ t) = C1 s" "v1 (s @ t) = v1 s" if "1 \<le> length s"
    using that n by (simp_all add: C1_def v1_def)
  have 2: "C2 (s @ t) = C2 s" "v2 (s @ t) = v2 s" if "2 \<le> length s"
    using that n m [of 1] unfolding C2_def v2_def by simp_all
  have 3: "C3 (s @ t) = C3 s" "v3 (s @ t) = v3 s" if "3 \<le> length s"
    using that n m [of 1] m [of 2] unfolding C3_def v3_def by simp_all
  have short: "\<not> C1 s" if "\<not> 1 \<le> length s" using that by (simp add: C1_def)
  have short2: "\<not> C2 s" if "\<not> 2 \<le> length s" using that by (simp add: C2_def)
  have short3: "\<not> C3 s" if "\<not> 3 \<le> length s" using that by (simp add: C3_def)
  show ?thesis
    using assms 1 2 3 short short2 short3 unfolding D by (auto split: if_splits)
qed

lemma chunks_append:
  assumes "t = [] \<or> \<not> cont (hd t)"
  shows "chunks (s @ t) = chunks s @ chunks t"
proof (induction s rule: chunks.induct)
  case 1
  then show ?case by simp
next
  case (2 c s)
  obtain r k where d: "decode_rune c s = (r, k)" by (metis surj_pair)
  then have "k \<le> length s" using decode_rune_extra [of c s] by simp
  then show ?case
    using 2 d by (simp add: decode_rune_append [OF assms])
qed

lemma RuneCount_append: "t = [] \<or> \<not> cont (hd t) \<Longrightarrow> RuneCount (s @ t) = RuneCount s + RuneCount t"
  by (simp add: RuneCount_def chunks_append)

text \<open>Cutting between runes does not change the runes.\<close>

lemma chunks_take: "chunks (concat (map snd (take n (chunks s)))) = take n (chunks s)"
proof (induction s arbitrary: n rule: chunks.induct)
  case 1
  then show ?case by simp
next
  case (2 c s)
  obtain r k where d: "decode_rune c s = (r, k)" by (metis surj_pair)
  then have k: "k \<le> length s" using decode_rune_extra [of c s] by simp
  show ?case
  proof (cases n)
    case (Suc m)
    define u where "u = concat (map snd (take m (chunks (drop k s))))"
    obtain v where v: "drop k s = u @ v"
      using chunks_bytes [of "drop k s"] append_take_drop_id [of m "chunks (drop k s)"]
      by (metis concat_append map_append u_def)
    have "s = (take k s @ u) @ v" using v by (metis append.assoc append_take_drop_id)
    then have "decode_rune c (take k s @ u) = (r, k)"
      using decode_rune_cut [of c "take k s @ u" v] d k by simp
    moreover have "chunks u = take m (chunks (drop k s))"
      using 2 d by (simp add: u_def)
    ultimately show ?thesis
      using Suc d k by (simp add: u_def [symmetric])
  qed simp
qed


subsection \<open>Encoding\<close>

lemma byte_char_of: "n < 256 \<Longrightarrow> byte (char_of n) = n"
  by (simp add: byte_def)

lemma base64:
  fixes a y :: nat
  assumes "y < 64"
  shows "(a * 64 + y) div 64 = a" and "(a * 64 + y) mod 64 = y"
  using assms by simp_all

lemma tail_byte:
  fixes x :: nat
  assumes "x < 64"
  shows "byte (char_of (128 + x)) = 128 + x" and "cont (char_of (128 + x))"
  using assms by (simp_all add: byte_char_of cont_def)

lemma encode_decode_3:
  assumes "a < 16" and "x < 64" and "y < 64" and "a = 0 \<longrightarrow> 32 \<le> x" and "a = 13 \<longrightarrow> x < 32"
  shows "encode_rune ((a * 64 + x) * 64 + y) = map char_of [224 + a, 128 + x, 128 + y]"
    and "decode_rune (char_of (224 + a)) (map char_of [128 + x, 128 + y] @ t) = ((a * 64 + x) * 64 + y, 2)"
proof -
  let ?r = "(a * 64 + x) * 64 + y"
  have 1: "?r div 64 = a * 64 + x" "?r mod 64 = y" by (rule base64 [OF assms(3)])+
  have 2: "?r div 4096 = a" using base64(1) [OF assms(2), of a] 1(1) div_mult2_eq [of ?r 64 64] by simp
  have "a = 0 \<and> 32 \<le> x \<or> 1 \<le> a" "a \<le> 12 \<or> a = 13 \<and> x < 32 \<or> 14 \<le> a" using assms(4,5) by auto
  then have 3: "\<not> ?r < 2048" "?r < 55296 \<or> 57344 \<le> ?r \<and> ?r < 65536"
    using assms(1,2,3) by auto
  show "encode_rune ?r = map char_of [224 + a, 128 + x, 128 + y]"
    using 3 1 2 base64(2) [OF assms(2), of a] by (simp add: encode_rune_def)
  have "byte (char_of (224 + a)) = 224 + a" using assms(1) by (simp add: byte_char_of)
  moreover have "second_byte (224 + a) (char_of (128 + x))"
    using assms by (auto simp: second_byte_def tail_byte(1))
  ultimately show "decode_rune (char_of (224 + a)) (map char_of [128 + x, 128 + y] @ t) = (?r, 2)"
    using assms(1) tail_byte [OF assms(2)] tail_byte [OF assms(3)] by (simp add: decode_rune_def)
qed

lemma encode_decode_4:
  assumes "a < 5" and "x < 64" and "y < 64" and "z < 64" and "a = 0 \<longrightarrow> 16 \<le> x" and "a = 4 \<longrightarrow> x < 16"
  shows "encode_rune (((a * 64 + x) * 64 + y) * 64 + z) = map char_of [240 + a, 128 + x, 128 + y, 128 + z]"
    and "decode_rune (char_of (240 + a)) (map char_of [128 + x, 128 + y, 128 + z] @ t) =
      (((a * 64 + x) * 64 + y) * 64 + z, 3)"
proof -
  let ?r = "((a * 64 + x) * 64 + y) * 64 + z"
  have 1: "?r div 64 = (a * 64 + x) * 64 + y" "?r mod 64 = z" by (rule base64 [OF assms(4)])+
  have 2: "?r div 4096 = a * 64 + x"
    using base64(1) [OF assms(3), of "a * 64 + x"] 1(1) div_mult2_eq [of ?r 64 64] by simp
  have 3: "?r div 262144 = a"
    using base64(1) [OF assms(2), of a] 2 div_mult2_eq [of ?r 4096 64] by simp
  have ax: "a = 0 \<and> 16 \<le> x \<or> 1 \<le> a" "a \<le> 3 \<or> a = 4 \<and> x < 16" using assms(1,5,6) by auto
  have 4: "65536 \<le> ?r" "?r < 1114112" using ax assms(1-4) by auto
  then have 5: "\<not> ?r < 128" "\<not> ?r < 2048" "\<not> (?r < 55296 \<or> 57344 \<le> ?r \<and> ?r < 65536)" by linarith+
  show "encode_rune ?r = map char_of [240 + a, 128 + x, 128 + y, 128 + z]"
    unfolding encode_rune_def if_not_P [OF 5(1)] if_not_P [OF 5(2)] if_not_P [OF 5(3)] 1 2 3
    using 4 base64(2) [OF assms(2), of a] base64(2) [OF assms(3), of "a * 64 + x"] by simp
  have "byte (char_of (240 + a)) = 240 + a" using assms(1) by (simp add: byte_char_of)
  moreover have "second_byte (240 + a) (char_of (128 + x))"
    using assms by (auto simp: second_byte_def tail_byte(1))
  ultimately show "decode_rune (char_of (240 + a)) (map char_of [128 + x, 128 + y, 128 + z] @ t) = (?r, 3)"
    using assms(1) tail_byte [OF assms(2)] tail_byte [OF assms(3)] tail_byte [OF assms(4)]
    by (simp add: decode_rune_def)
qed

lemma encode_decode_rune:
  assumes "scalar r"
  obtains c s where "encode_rune r = c # s" and "\<And>t. decode_rune c (s @ t) = (r, length s)"
proof -
  define y x w where "y = r mod 64" and "x = r div 64 mod 64" and "w = r div 4096 mod 64"
  have d: "y < 64" "x < 64" "w < 64" by (simp_all add: y_def x_def w_def)
  have r2: "r = r div 64 * 64 + y" by (simp add: y_def)
  have "r div 64 = r div 4096 * 64 + x"
    using div_mult2_eq [of r 64 64] by (simp add: x_def)
  with r2 have r3: "r = (r div 4096 * 64 + x) * 64 + y" by simp
  have "r div 4096 = r div 262144 * 64 + w"
    using div_mult2_eq [of r 4096 64] by (simp add: w_def)
  with r3 have r4: "r = ((r div 262144 * 64 + w) * 64 + x) * 64 + y" by simp
  consider "r < 128" | "128 \<le> r" "r < 2048" | "2048 \<le> r" "r < 55296 \<or> 57344 \<le> r \<and> r < 65536" |
    "65536 \<le> r" "r < 1114112"
    using assms unfolding scalar_def by linarith
  then show ?thesis
  proof cases
    case 1
    then show ?thesis
      by (intro that [of "char_of r" "[]"]) (simp_all add: encode_rune_def decode_rune_def byte_char_of)
  next
    case 2
    then have q: "2 \<le> r div 64" "r div 64 \<le> 31"
      using div_le_mono [of 128 r 64] div_le_mono [of r 2047 64] by simp_all
    have "decode_rune (char_of (192 + r div 64)) ([char_of (128 + y)] @ t) = (r, 1)" for t
      using q r2 tail_byte [OF d(1)] by (simp add: decode_rune_def byte_char_of)
    then show ?thesis
      using 2 by (intro that [of "char_of (192 + r div 64)" "[char_of (128 + y)]"]) (simp_all add: encode_rune_def y_def)
  next
    case 3
    have a: "r div 4096 < 16" "r div 4096 = 0 \<longrightarrow> 32 \<le> x" "r div 4096 = 13 \<longrightarrow> x < 32"
      using 3 r3 d(1,2) by auto
    note e = encode_decode_3 [OF a(1) d(2,1) a(2,3), folded r3]
    show ?thesis using e by (intro that [of "char_of (224 + r div 4096)" "map char_of [128 + x, 128 + y]"]) simp_all
  next
    case 4
    have a: "r div 262144 < 5" "r div 262144 = 0 \<longrightarrow> 16 \<le> w" "r div 262144 = 4 \<longrightarrow> w < 16"
      using 4 r4 d by auto
    note e = encode_decode_4 [OF a(1) d(3,2,1) a(2,3), folded r4]
    show ?thesis
      using e by (intro that [of "char_of (240 + r div 262144)" "map char_of [128 + w, 128 + x, 128 + y]"]) simp_all
  qed
qed


lemma decode_rune_scalar: "scalar (fst (decode_rune c s))"
proof -
  have 2: "scalar ((b - 192) * 64 + (byte u - 128))" if "b \<le> 223" "cont u" for b u
    using that unfolding scalar_def cont_def by (intro disjI1) linarith
  have 3: "scalar ((b - 224) * 4096 + (byte u - 128) * 64 + (byte v - 128))"
    if "224 \<le> b" "b \<le> 239" "second_byte b u" "cont v" for b u v
  proof -
    have "128 \<le> byte u" "byte u \<le> 191" "byte v \<le> 191" "b \<le> 236 \<or> b = 237 \<and> byte u \<le> 159 \<or> 238 \<le> b"
      using that second_byte_cont [of b u] by (auto simp: second_byte_def cont_def split: if_splits)
    then show ?thesis using that(1,2) unfolding scalar_def by auto
  qed
  have 4: "scalar ((b - 240) * 262144 + (byte u - 128) * 4096 + (byte v - 128) * 64 + (byte w - 128))"
    if "240 \<le> b" "b \<le> 244" "second_byte b u" "cont v" "cont w" for b u v w
  proof -
    have "128 \<le> byte u" "byte u \<le> 191" "byte v \<le> 191" "byte w \<le> 191" "b \<le> 243 \<or> b = 244 \<and> byte u \<le> 143"
        "b = 240 \<and> 144 \<le> byte u \<or> 241 \<le> b"
      using that second_byte_cont [of b u] by (auto simp: second_byte_def cont_def split: if_splits)
    then show ?thesis using that(1,2) unfolding scalar_def by (intro disjI2) auto
  qed
  have 0: "scalar RuneError" by (simp add: scalar_def RuneError_def)
  have 1: "scalar b" if "b < 128" for b using that by (simp add: scalar_def)
  have split: "(A \<Longrightarrow> scalar x) \<Longrightarrow> (\<not> A \<Longrightarrow> scalar y) \<Longrightarrow> scalar (if A then x else y)" for A x y
    by simp
  show ?thesis
    unfolding decode_rune_def Let_def if_distrib [of fst] fst_conv
    by (intro split) (blast intro: 0 1 2 3 4)+
qed

lemma chunks_Cons: "chunks (c # s) = (fst (decode_rune c s), c # take (snd (decode_rune c s)) s) #
    chunks (drop (snd (decode_rune c s)) s)"
  by (simp add: split_beta Let_def)

lemma runes_encode: "scalar r \<Longrightarrow> runes (encode_rune r @ t) = r # runes t"
proof -
  assume "scalar r"
  then obtain c s where e: "encode_rune r = c # s" "decode_rune c (s @ t) = (r, length s)"
    by (metis encode_decode_rune)
  then show ?thesis by (simp add: runes_def)
qed

lemma runes_from_runes: "\<forall>r \<in> set rs. scalar r \<Longrightarrow> runes (from_runes rs @ t) = rs @ runes t"
  by (induction rs) (simp_all add: from_runes_def runes_encode)

lemma runes_scalar: "r \<in> set (runes s) \<Longrightarrow> scalar r"
proof (induction s rule: chunks.induct)
  case (2 c s)
  then show ?case
    using decode_rune_scalar [of c s] by (cases "decode_rune c s") (auto simp: runes_def)
qed simp

section \<open>Strings\<close>

definition Repeat :: "string \<Rightarrow> int \<Rightarrow> string option" where
  "Repeat s n = (if n < 0 then None else Some (concat (replicate (nat n) s)))"

fun Join :: "string \<Rightarrow> string list \<Rightarrow> string" where
  "Join sep [] = []"
| "Join sep [x] = x"
| "Join sep (x # y # xs) = x @ sep @ Join sep (y # xs)"

fun Split :: "char \<Rightarrow> string \<Rightarrow> string list" where
  "Split x [] = [[]]"
| "Split x (c # s) = (if c = x then [] # Split x s else
     case Split x s of [] \<Rightarrow> [[c]] | l # ls \<Rightarrow> (c # l) # ls)"

definition IsSpace :: "nat \<Rightarrow> bool" where
  "IsSpace r \<longleftrightarrow> 9 \<le> r \<and> r \<le> 13 \<or> r = 32 \<or> r = 133 \<or> r = 160 \<or> r = 5760 \<or> 8192 \<le> r \<and> r \<le> 8202 \<or>
     r = 8232 \<or> r = 8233 \<or> r = 8239 \<or> r = 8287 \<or> r = 12288"

definition space_chunk :: "nat \<times> string \<Rightarrow> bool" where
  "space_chunk c \<longleftrightarrow> IsSpace (fst c)"

definition chunk_bytes :: "(nat \<times> string) list \<Rightarrow> string" where
  "chunk_bytes cs = concat (map snd cs)"

function field_chunks :: "(nat \<times> string) list \<Rightarrow> (nat \<times> string) list list" where
  "field_chunks cs =
     (case dropWhile space_chunk cs of
        [] \<Rightarrow> []
      | c # cs' \<Rightarrow> (c # takeWhile (Not \<circ> space_chunk) cs') # field_chunks (dropWhile (Not \<circ> space_chunk) cs'))"
  by pat_completeness auto
termination
proof (relation "measure length")
  fix cs :: "(nat \<times> string) list" and c cs'
  assume "dropWhile space_chunk cs = c # cs'"
  then have "length (c # cs') \<le> length cs" by (metis length_dropWhile_le)
  then show "(dropWhile (Not \<circ> space_chunk) cs', cs) \<in> measure length"
    using length_dropWhile_le [of "Not \<circ> space_chunk" cs'] by simp
qed simp

declare field_chunks.simps [simp del]

definition Fields :: "string \<Rightarrow> string list" where
  "Fields s = map chunk_bytes (field_chunks (chunks s))"

definition TrimSpace :: "string \<Rightarrow> string" where
  "TrimSpace s = chunk_bytes (rev (dropWhile space_chunk (rev (dropWhile space_chunk (chunks s)))))"


subsection \<open>Words\<close>

lemma chunk_bytes_simps [simp]:
  "chunk_bytes [] = []" "chunk_bytes (c # cs) = snd c @ chunk_bytes cs"
  "chunk_bytes (cs @ ds) = chunk_bytes cs @ chunk_bytes ds" "chunk_bytes (chunks s) = s"
  by (simp_all add: chunk_bytes_def)

definition runs :: "(nat \<times> string) list \<Rightarrow> bool" where
  "runs cs \<longleftrightarrow> chunks (chunk_bytes cs) = cs"

lemma runs_chunks [simp]: "runs (chunks s)"
  by (simp add: runs_def)

lemma runs_take: "runs cs \<Longrightarrow> runs (take n cs)"
  using chunks_take [of n "chunk_bytes cs"] by (simp add: runs_def chunk_bytes_def)

lemma runs_tl: "runs (c # cs) \<Longrightarrow> runs cs"
proof -
  assume "runs (c # cs)"
  then have e: "chunks (snd c @ chunk_bytes cs) = c # cs" by (simp add: runs_def)
  then obtain x s where x: "snd c @ chunk_bytes cs = x # s" by (cases "snd c @ chunk_bytes cs") auto
  have "snd c = x # take (snd (decode_rune x s)) s" "chunks (drop (snd (decode_rune x s)) s) = cs"
    using e unfolding x chunks_Cons by auto
  moreover from this x have "chunk_bytes cs = drop (snd (decode_rune x s)) s"
    by (metis append_Cons append_take_drop_id list.inject same_append_eq)
  ultimately show ?thesis by (simp add: runs_def)
qed

lemma runs_drop: "runs cs \<Longrightarrow> runs (drop n cs)"
  by (induction n arbitrary: cs) (simp, metis drop_Suc_Cons drop_Nil neq_Nil_conv runs_tl)

lemma runs_takeWhile: "runs cs \<Longrightarrow> runs (takeWhile P cs)"
  by (metis runs_take takeWhile_eq_take)

lemma runs_dropWhile: "runs cs \<Longrightarrow> runs (dropWhile P cs)"
  by (metis runs_drop dropWhile_eq_drop)

text \<open>A word is a non-empty string without white space.\<close>

definition is_word :: "string \<Rightarrow> bool" where
  "is_word w \<longleftrightarrow> w \<noteq> [] \<and> (\<forall>c \<in> set (chunks w). \<not> space_chunk c)"

lemma field_chunks_none: "dropWhile space_chunk cs = [] \<Longrightarrow> field_chunks cs = []"
  by (simp only: field_chunks.simps [of cs] list.case)

lemma field_chunks_some: "dropWhile space_chunk cs = c # ds \<Longrightarrow>
    field_chunks cs = (c # takeWhile (Not \<circ> space_chunk) ds) # field_chunks (dropWhile (Not \<circ> space_chunk) ds)"
  by (simp only: field_chunks.simps [of cs] list.case)

lemma field_chunks_Nil [simp]: "field_chunks [] = []"
  by (simp add: field_chunks_none)

lemma field_chunks_words: "runs cs \<Longrightarrow> f \<in> set (field_chunks cs) \<Longrightarrow>
    f \<noteq> [] \<and> runs f \<and> (\<forall>c \<in> set f. \<not> space_chunk c)"
proof (induction cs rule: field_chunks.induct)
  case (1 cs)
  show ?case
  proof (cases "dropWhile space_chunk cs")
    case Nil
    then show ?thesis using 1(3) by (metis field_chunks_none empty_iff empty_set)
  next
    case (Cons c ds)
    have r: "runs (c # ds)" using runs_dropWhile [OF "1.prems"(1)] Cons by metis
    have c: "\<not> space_chunk c" using Cons hd_dropWhile [of space_chunk cs] by simp
    have "f = c # takeWhile (Not \<circ> space_chunk) ds \<or>
        f \<in> set (field_chunks (dropWhile (Not \<circ> space_chunk) ds))"
      using 1(3) unfolding field_chunks_some [OF Cons] by simp
    then show ?thesis
    proof
      assume f: "f = c # takeWhile (Not \<circ> space_chunk) ds"
      then have "f = takeWhile (Not \<circ> space_chunk) (c # ds)" using c by simp
      then have "runs f" using runs_takeWhile [OF r] by metis
      then show ?thesis using f c by (auto dest: set_takeWhileD)
    qed (use 1(1) Cons runs_dropWhile [OF runs_tl [OF r]] in blast)
  qed
qed

lemma Fields_words: "list_all is_word (Fields s)"
proof -
  have "is_word (chunk_bytes f)" if "f \<in> set (field_chunks (chunks s))" for f
    using field_chunks_words [OF runs_chunks that] by (auto simp: is_word_def runs_def)
  then show ?thesis by (simp add: Fields_def list_all_iff)
qed

lemma field_chunks_space: "space_chunk c \<Longrightarrow> field_chunks (c # cs) = field_chunks cs"
  by (cases "dropWhile space_chunk cs") (simp_all only: field_chunks.simps [of "c # cs"] field_chunks.simps [of cs] dropWhile.simps if_True)

lemma field_chunks_word:
  assumes "ws \<noteq> []" and "\<forall>c \<in> set ws. \<not> space_chunk c" and "cs = [] \<or> space_chunk (hd cs)"
  shows "field_chunks (ws @ cs) = ws # field_chunks cs"
proof -
  obtain w us where w: "ws = w # us" using assms(1) by (cases ws) auto
  have "takeWhile (Not \<circ> space_chunk) (us @ cs) = us" "dropWhile (Not \<circ> space_chunk) (us @ cs) = cs"
    using assms(2,3) w by (cases cs; auto)+
  moreover have "dropWhile space_chunk (ws @ cs) = w # us @ cs" using assms(2) w by simp
  ultimately show ?thesis using w by (simp add: field_chunks_some)
qed

text \<open>A separator is one of the white-space characters the wrappers write.\<close>

definition separator :: "char \<Rightarrow> bool" where
  "separator x \<longleftrightarrow> x = CHR '' '' \<or> x = CHR 0x0A"

lemma separator_chunk:
  assumes "separator x"
  shows "\<not> cont x" and "chunks (x # s) = (byte x, [x]) # chunks s" and "space_chunk (byte x, [x])"
proof -
  have "byte x = 32 \<or> byte x = 10" using assms by (auto simp: separator_def byte_def)
  then show "\<not> cont x" "chunks (x # s) = (byte x, [x]) # chunks s" "space_chunk (byte x, [x])"
    by (auto simp: cont_def decode_rune_def space_chunk_def IsSpace_def)
qed

lemma Fields_Nil [simp]: "Fields [] = []"
  by (simp add: Fields_def)

lemma Fields_word: "is_word w \<Longrightarrow> Fields w = [w]"
proof -
  assume w: "is_word w"
  then have "chunks w \<noteq> []" by (metis chunk_bytes_simps(1,4) is_word_def)
  then show ?thesis using field_chunks_word [of "chunks w" "[]"] w by (simp add: Fields_def is_word_def)
qed

lemma Fields_append:
  assumes "separator x"
  shows "Fields (s @ x # t) = Fields s @ Fields t"
proof -
  have "field_chunks (cs @ (byte x, [x]) # ds) = field_chunks cs @ field_chunks ds" for cs ds
  proof (induction cs rule: field_chunks.induct)
    case (1 cs)
    note x = separator_chunk(3) [OF assms]
    show ?case
    proof (cases "dropWhile space_chunk cs")
      case Nil
      then have "dropWhile space_chunk (cs @ (byte x, [x]) # ds) = dropWhile space_chunk ds"
        using x by (simp add: dropWhile_append)
      then have "field_chunks (cs @ (byte x, [x]) # ds) = field_chunks ds"
        by (cases "dropWhile space_chunk ds") (simp_all only: field_chunks_none field_chunks_some)
      then show ?thesis using field_chunks_none [OF Nil] by simp
    next
      case (Cons c es)
      have d: "dropWhile space_chunk (cs @ (byte x, [x]) # ds) = c # es @ (byte x, [x]) # ds"
        using Cons dropWhile_append1 [of c cs space_chunk] hd_dropWhile [of space_chunk cs] set_dropWhileD [of c space_chunk cs]
        by simp
      show ?thesis
      proof (cases "\<forall>e \<in> set es. \<not> space_chunk e")
        case True
        then have tw: "takeWhile (Not \<circ> space_chunk) (es @ (byte x, [x]) # ds) = es"
            "dropWhile (Not \<circ> space_chunk) (es @ (byte x, [x]) # ds) = (byte x, [x]) # ds"
            "takeWhile (Not \<circ> space_chunk) es = es" "dropWhile (Not \<circ> space_chunk) es = []"
          using x by (simp_all add: takeWhile_append2 dropWhile_append2)
        show ?thesis
          by (simp only: field_chunks_some [OF d] field_chunks_some [OF Cons] tw field_chunks_space [OF x]
              field_chunks_Nil append_Cons append_Nil)
      next
        case False
        then obtain e where e: "e \<in> set es" "space_chunk e" by auto
        then have "takeWhile (Not \<circ> space_chunk) (es @ (byte x, [x]) # ds) = takeWhile (Not \<circ> space_chunk) es"
            "dropWhile (Not \<circ> space_chunk) (es @ (byte x, [x]) # ds) =
             dropWhile (Not \<circ> space_chunk) es @ (byte x, [x]) # ds"
          using takeWhile_append1 [of e es "Not \<circ> space_chunk"] dropWhile_append1 [of e es "Not \<circ> space_chunk"] by auto
        then show ?thesis
          using 1 [OF Cons] by (simp add: field_chunks_some [OF d] field_chunks_some [OF Cons])
      qed
    qed
  qed
  then show ?thesis
    using separator_chunk [OF assms] by (simp add: Fields_def chunks_append)
qed

lemma RuneCount_sep:
  assumes "separator x"
  shows "RuneCount (s @ x # t) = RuneCount s + 1 + RuneCount t"
  using separator_chunk [OF assms] by (simp add: RuneCount_def chunks_append)

end
