(* ===== verification/Text_Layout.thy ===== *)
theory Text_Layout
  imports Go_Text Admin
begin

text \<open>
  The text helpers of the three terminal interfaces: cutting and padding to a width (\<open>truncate\<close> of
  \<open>client/tui/model.go\<close>, \<open>truncate\<close> and \<open>pad\<close> of \<open>client/loadtest/loadtui/model.go\<close>, \<open>trim\<close> of
  \<open>master/tui/helpers.go\<close>), wrapping at words (\<open>wordWrap\<close> of \<open>client/tui/model.go\<close> and of \<open>master/tui/views.go\<close>)
  and the format of durations. A slice with a negative bound panics: the value is then \<open>None\<close>.
\<close>

section \<open>Cutting and padding\<close>

definition ellipsis :: string where
  "ellipsis = [CHR 0xE2, CHR 0x80, CHR 0xA6]"

definition newline :: string where
  "newline = [CHR 0x0A]"

definition truncate :: "string \<Rightarrow> int \<Rightarrow> string option" where
  "truncate s n =
     (let rs = runes s in
      if int (length rs) \<le> n then Some s
      else if n \<le> 3 then (if n < 0 then None else Some (from_runes (take (nat n) rs)))
      else Some (from_runes (take (nat (n - 1)) rs) @ ellipsis))"

definition lt_truncate :: "string \<Rightarrow> int \<Rightarrow> string" where
  "lt_truncate s n =
     (if n \<le> 0 then ''''
      else
        let rs = runes s in
        if int (length rs) \<le> n then s
        else if n \<le> 1 then from_runes (take (nat n) rs)
        else from_runes (take (nat (n - 1)) rs) @ ellipsis)"

definition pad :: "string \<Rightarrow> int \<Rightarrow> string" where
  "pad s n =
     (if n \<le> int (RuneCount s) then lt_truncate s n
      else s @ concat (replicate (nat (n - int (RuneCount s))) '' ''))"

definition trim :: "string \<Rightarrow> int \<Rightarrow> string option" where
  "trim s n =
     (if int (length s) \<le> n then Some s
      else if n \<le> 3 then (if n < 0 then None else Some (take (nat n) s))
      else Some (take (nat (n - 1)) s @ ellipsis))"

section \<open>Wrapping\<close>

fun wrap_loop :: "int \<Rightarrow> string list \<Rightarrow> string \<Rightarrow> int \<Rightarrow> string" where
  "wrap_loop maxWidth [] b lineLen = b"
| "wrap_loop maxWidth (w # ws) b lineLen =
     (let wLen = int (RuneCount w) in
      if lineLen + 1 + wLen > maxWidth then wrap_loop maxWidth ws (b @ newline @ w) wLen
      else wrap_loop maxWidth ws (b @ '' '' @ w) (lineLen + (1 + wLen)))"

definition wordWrap :: "string \<Rightarrow> int \<Rightarrow> string" where
  "wordWrap s maxWidth =
     (if maxWidth \<le> 0 then s
      else case Fields s of
        [] \<Rightarrow> s
      | w # ws \<Rightarrow> wrap_loop maxWidth ws w (int (RuneCount w)))"

fun lines_loop :: "int \<Rightarrow> string list \<Rightarrow> string list \<Rightarrow> string \<Rightarrow> string list" where
  "lines_loop maxW [] ls current = (if current \<noteq> '''' then ls @ [current] else ls)"
| "lines_loop maxW (word # words) ls current =
     (if current = '''' then lines_loop maxW words ls word
      else if int (RuneCount current) + 1 + int (RuneCount word) \<le> maxW
      then lines_loop maxW words ls (current @ '' '' @ word)
      else lines_loop maxW words (ls @ [current]) word)"

definition wrap_words :: "string list \<Rightarrow> int \<Rightarrow> string list" where
  "wrap_words words maxW = (if words = [] then [''''] else lines_loop maxW words [] '''')"

section \<open>Durations\<close>

definition Minutes :: "duration \<Rightarrow> float64" where
  "Minutes d = fadd (float_of_int (d sdiv minute)) (fdiv (float_of_int (d smod minute)) 60000000000)"

text \<open>\<open>%.pf\<close>: the exact value rounded to \<open>p\<close> decimals, ties to even.\<close>

definition zeros :: "nat \<Rightarrow> string \<Rightarrow> string" where
  "zeros n s = replicate (n - length s) CHR ''0'' @ s"

definition fixed :: "nat \<Rightarrow> float64 \<Rightarrow> string" where
  "fixed p x =
     (let n = nat (round_even (\<bar>x\<bar> * 10 ^ p)); s = digits (n div 10 ^ p) in
      (if x < 0 then ''-'' else '''') @ (if p = 0 then s else s @ ''.'' @ zeros p (digits (n mod 10 ^ p))))"

definition fmtDuration :: "duration \<Rightarrow> string" where
  "fmtDuration d =
     (if d \<le> 0 then ''0ms''
      else if d < second then itoa (d sdiv millisecond) @ ''ms''
      else if d < minute then fixed 2 (Seconds d) @ ''s''
      else fixed 1 (Minutes d) @ ''m'')"

definition clampPct :: "int \<Rightarrow> int" where
  "clampPct v = (if v < 0 then 0 else if v > 100 then 100 else v)"

section \<open>Numbers\<close>

lemma digits_last: "last (digits n) = char_of (48 + n mod 10)" "digits n \<noteq> []"
  by (simp_all add: digits.simps [of n])

lemma digits_butlast: "butlast (digits n) = (if n < 10 then [] else digits (n div 10))"
  by (simp add: digits.simps [of n])

lemma digits_inj: "digits a = digits b \<Longrightarrow> a = b"
proof (induction a arbitrary: b rule: less_induct)
  case (less a)
  have "(of_char (last (digits a)) :: nat) = of_char (last (digits b))" using less.prems by simp
  then have m: "a mod 10 = b mod 10" by (simp add: digits_last)
  show ?case
  proof (cases "a < 10")
    case True
    then have "b < 10" using arg_cong [OF less.prems, of butlast] digits_last(2) [of "b div 10"]
      by (simp add: digits_butlast split: if_splits)
    then show ?thesis using True m by simp
  next
    case False
    then have "\<not> b < 10" "digits (a div 10) = digits (b div 10)"
      using arg_cong [OF less.prems, of butlast] digits_last(2) [of "a div 10"]
      by (auto simp: digits_butlast split: if_splits)
    then have "a div 10 = b div 10" using less.IH [of "a div 10"] False by simp
    then show ?thesis using m by (metis div_mult_mod_eq)
  qed
qed

lemma itoa_inj: "0 \<le> j \<Longrightarrow> 0 \<le> k \<Longrightarrow> itoa j = itoa k \<Longrightarrow> j = k"
  by (auto simp: itoa_def dest: digits_inj)

section \<open>Widths\<close>

lemma ellipsis_runes [simp]: "runes ellipsis = [8230]" "ellipsis \<noteq> []" "\<not> cont (hd ellipsis)"
  by (simp_all add: ellipsis_def runes_def decode_rune_def byte_def cont_def second_byte_def)

lemma RuneCount_ellipsis [simp]: "RuneCount ellipsis = 1"
  unfolding length_runes [symmetric] ellipsis_runes(1) by simp

lemma runes_cut: "runes (from_runes (take n (runes s)) @ t) = take n (runes s) @ runes t"
  by (rule runes_from_runes) (meson in_set_takeD runes_scalar)

lemma RuneCount_cut: "RuneCount (from_runes (take n (runes s)) @ t) = min (RuneCount s) n + RuneCount t"
  using arg_cong [OF runes_cut [of n s t], of length] by simp

lemma RuneCount_cut_ellipsis: "n < RuneCount s \<Longrightarrow> RuneCount (from_runes (take n (runes s)) @ ellipsis) = n + 1"
  using RuneCount_cut [of n s ellipsis] by simp

lemma RuneCount_cut_plain: "RuneCount (from_runes (take n (runes s))) = min (RuneCount s) n"
  using RuneCount_cut [of n s "[]"] by simp

text \<open>A cut text fits and starts like the text; a text that fits is not changed.\<close>

lemma truncate_fits:
  assumes "0 \<le> n"
  obtains t where "truncate s n = Some t" and "int (RuneCount t) \<le> n"
    and "t = s \<and> int (RuneCount s) \<le> n \<or> n < int (RuneCount s) \<and> int (RuneCount t) = n"
proof (cases "int (RuneCount s) \<le> n")
  case True
  then show ?thesis using that [of s] by (simp add: truncate_def)
next
  case False
  then show ?thesis
    using assms that [of "from_runes (take (nat n) (runes s))"] that [of "from_runes (take (nat (n - 1)) (runes s)) @ ellipsis"]
    by (cases "n \<le> 3") (simp_all add: truncate_def RuneCount_cut_plain RuneCount_cut_ellipsis)
qed

lemma truncate_panics: "truncate s n = None \<longleftrightarrow> n < 0"
  by (auto simp: truncate_def Let_def)

lemma lt_truncate_width: "int (RuneCount (lt_truncate s n)) = max 0 (min n (int (RuneCount s)))"
  by (auto simp: lt_truncate_def Let_def RuneCount_cut_plain RuneCount_cut_ellipsis)

lemma RuneCount_spaces: "RuneCount (s @ replicate n CHR '' '') = RuneCount s + n"
proof (induction n arbitrary: s)
  case (Suc n)
  have "s @ replicate (Suc n) CHR '' '' = (s @ '' '') @ replicate n CHR '' ''" by simp
  then show ?case using Suc [of "s @ '' ''"] RuneCount_sep [of "CHR '' ''" s "[]"]
    by (simp add: separator_def)
qed simp

text \<open>A padded cell has exactly its width, whatever the text: the columns of the log line up.\<close>

lemma pad_width: "0 \<le> n \<Longrightarrow> int (RuneCount (pad s n)) = n"
  using RuneCount_spaces [of s "nat (n - int (RuneCount s))"] by (auto simp: pad_def lt_truncate_width)

lemma trim_panics: "trim s n = None \<longleftrightarrow> n < 0"
  by (auto simp: trim_def)

text \<open>The master's \<open>trim\<close> cuts bytes: it can split a character, and the ellipsis makes the result two bytes longer
  than asked.\<close>

lemma trim_splits_runes:
  "trim [CHR 0xC3, CHR 0xA9, CHR 0xC3, CHR 0xA9] 3 = Some [CHR 0xC3, CHR 0xA9, CHR 0xC3]"
  "runes [CHR 0xC3, CHR 0xA9, CHR 0xC3] = [233, RuneError]"
  by (simp_all add: trim_def runes_def decode_rune_def byte_def cont_def)

lemma trim_length: "trim s n = Some t \<Longrightarrow> int (length t) \<le> max 3 (n + 2) \<or> t = s"
  by (auto simp: trim_def ellipsis_def split: if_splits)

lemma clampPct_range: "0 \<le> clampPct v \<and> clampPct v \<le> 100"
  by (simp add: clampPct_def)

section \<open>Lines\<close>

lemma nl_separator [simp]: "separator CHR '' ''" "separator CHR 0x0A"
  by (simp_all add: separator_def)

lemma is_word_nonempty: "is_word w \<Longrightarrow> w \<noteq> ''''"
  by (simp add: is_word_def)

text \<open>Both wrappers build the same lines: the state of the client's loop is the text so far and the width of
  its last line, the master's keeps finished lines and the current one.\<close>

lemma Join_snoc: "ls \<noteq> [] \<Longrightarrow> Join sep (ls @ [l]) = Join sep ls @ sep @ l"
  by (induction sep ls rule: Join.induct) auto

lemma wrap_loops_agree:
  assumes "list_all is_word ws" and "current \<noteq> ''''"
  shows "wrap_loop w ws (Join newline (ls @ [current])) (int (RuneCount current)) =
    Join newline (lines_loop w ws ls current)"
  using assms
proof (induction ws arbitrary: ls current)
  case (Cons v ws)
  have r: "int (RuneCount (current @ '' '' @ v)) = int (RuneCount current) + (1 + int (RuneCount v))"
    using RuneCount_sep [of "CHR '' ''" current v] by simp
  have break_line: "Join newline ((ls @ [current]) @ [v]) = Join newline (ls @ [current]) @ newline @ v"
    by (rule Join_snoc) simp
  have join_word: "Join newline (ls @ [current @ '' '' @ v]) = Join newline (ls @ [current]) @ '' '' @ v"
    by (cases "ls = []") (simp_all add: Join_snoc)
  have "wrap_loop w ws (Join newline ((ls @ [current]) @ [v])) (int (RuneCount v)) =
      Join newline (lines_loop w ws (ls @ [current]) v)"
    using Cons by (intro Cons.IH) (auto simp: is_word_def)
  moreover have "wrap_loop w ws (Join newline (ls @ [current @ '' '' @ v])) (int (RuneCount (current @ '' '' @ v))) =
      Join newline (lines_loop w ws ls (current @ '' '' @ v))"
    using Cons by (intro Cons.IH) auto
  ultimately show ?case
    using Cons.prems(2) unfolding break_line join_word r by simp
qed simp

definition fits :: "int \<Rightarrow> string \<Rightarrow> bool" where
  "fits w l \<longleftrightarrow> int (RuneCount l) \<le> w \<or> is_word l"

lemma lines_loop_fits:
  "list_all is_word ws \<Longrightarrow> current = '''' \<or> fits w current \<Longrightarrow> list_all (fits w) ls \<Longrightarrow>
     list_all (fits w) (lines_loop w ws ls current)"
proof (induction ws arbitrary: ls current)
  case (Cons v ws)
  have v: "fits w v" "list_all is_word ws" using Cons.prems by (simp_all add: fits_def)
  consider "current = ''''" | "current \<noteq> ''''" "int (RuneCount current) + 1 + int (RuneCount v) \<le> w"
    | "current \<noteq> ''''" "\<not> int (RuneCount current) + 1 + int (RuneCount v) \<le> w" by blast
  then show ?case
  proof cases
    case 1
    then show ?thesis using Cons.IH [OF v(2)] v(1) Cons.prems by simp
  next
    case 2
    then have "fits w (current @ '' '' @ v)"
      using RuneCount_sep [of "CHR '' ''" current v] by (simp add: fits_def)
    then show ?thesis using 2 Cons.IH [OF v(2)] Cons.prems by simp
  next
    case 3
    then show ?thesis using Cons.IH [OF v(2)] v(1) Cons.prems by simp
  qed
qed auto

lemma lines_loop_Fields:
  "list_all is_word ws \<Longrightarrow> concat (map Fields (lines_loop w ws ls current)) =
     concat (map Fields ls) @ Fields current @ ws"
proof (induction ws arbitrary: ls current)
  case (Cons v ws)
  then show ?case
    using Fields_append [of "CHR '' ''" current v] by (simp add: Fields_word)
qed simp

lemma Fields_Join: "Fields (Join newline ls) = concat (map Fields ls)"
  by (induction newline ls rule: Join.induct) (simp_all add: newline_def Fields_append)


lemma wordWrap_eq:
  assumes "0 < w" and "Fields s \<noteq> []"
  shows "wordWrap s w = Join newline (wrap_words (Fields s) w)"
proof -
  obtain v ws where f: "Fields s = v # ws" using assms(2) by (cases "Fields s") auto
  have v: "is_word v" "list_all is_word ws" using Fields_words [of s] unfolding f by simp_all
  show ?thesis
    using wrap_loops_agree [OF v(2) is_word_nonempty [OF v(1)], of w "[]"] assms(1)
    by (simp add: wordWrap_def wrap_words_def f)
qed

lemma wrap_words_Fields: "Fields s \<noteq> [] \<Longrightarrow> concat (map Fields (wrap_words (Fields s) w)) = Fields s"
  using lines_loop_Fields [OF Fields_words [of s], where w = w and ls = "[]" and current = "[]"] by (simp add: wrap_words_def)

lemma wordWrap_Fields: "Fields (wordWrap s w) = Fields s"
proof (cases "0 < w \<and> Fields s \<noteq> []")
  case True
  then show ?thesis using wordWrap_eq [of w s] wrap_words_Fields [of s w] by (simp add: Fields_Join)
next
  case False
  then show ?thesis by (auto simp: wordWrap_def)
qed

text \<open>C40. The two word wrappers of the terminal interfaces agree: the client's text is the master's lines joined
  by newlines. Wrapping keeps the words and their order, and a line is wider than the limit only if it is
  one word.\<close>

theorem wordWrap_lines:
  assumes "0 < w" and "Fields s \<noteq> []"
  shows "wordWrap s w = Join newline (wrap_words (Fields s) w) \<and> Fields (wordWrap s w) = Fields s \<and>
    list_all (fits w) (wrap_words (Fields s) w)"
proof -
  have "list_all (fits w) (wrap_words (Fields s) w)"
    using assms(2) lines_loop_fits [OF Fields_words [of s], where w = w and ls = "[]" and current = "[]"] by (simp add: wrap_words_def)
  then show ?thesis by (simp add: wordWrap_eq [OF assms] wordWrap_Fields [of s w, unfolded wordWrap_eq [OF assms]])
qed

theorem wordWrap_lines_witness:
  "wordWrap ''ab cd efghi'' 4 = Join newline (wrap_words (Fields ''ab cd efghi'') 4) \<and>
   Fields (wordWrap ''ab cd efghi'' 4) = [''ab'', ''cd'', ''efghi'']"
proof -
  have "is_word ''ab''" "is_word ''cd''" "is_word ''efghi''"
    by (simp_all add: is_word_def decode_rune_def byte_def space_chunk_def IsSpace_def)
  then have f: "Fields ''ab cd efghi'' = [''ab'', ''cd'', ''efghi'']"
    using Fields_append [of "CHR '' ''" "''ab''" "''cd efghi''"] Fields_append [of "CHR '' ''" "''cd''" "''efghi''"]
    by (simp add: Fields_word)
  have "wordWrap ''ab cd efghi'' 4 = Join newline (wrap_words (Fields ''ab cd efghi'') 4) \<and>
      Fields (wordWrap ''ab cd efghi'' 4) = Fields ''ab cd efghi''"
    using wordWrap_lines [of 4 "''ab cd efghi''", OF zero_less_numeral] f by (metis list.distinct(1))
  then show ?thesis using f by argo
qed

lemma those_total: "(\<And>x. x \<in> set xs \<Longrightarrow> f x \<noteq> None) \<Longrightarrow> those (map f xs) \<noteq> None"
  by (induction xs) (auto split: option.split)

end
