(* ===== verification/Agent_Start.thy ===== *)
theory Agent_Start
  imports Text_Layout Agent
begin

text \<open>
  The start of the agent (\<open>agent/server.go\<close>, \<open>ollama.go\<close>, \<open>chroma.go\<close>) and its report of the machine
  (\<open>handlers.go\<close>, \<open>SystemInfoHandler\<close>). The answers of the operating system, of the two services and of the
  readings are parameters; what the agent runs is part of the result. Trace output is left out.
\<close>

section \<open>Paths\<close>

text \<open>\<open>filepath.Join\<close> and \<open>filepath.Clean\<close> of Go's standard library on Unix.\<close>

fun clean_parts :: "bool \<Rightarrow> string list \<Rightarrow> string list \<Rightarrow> string list" where
  "clean_parts rooted [] stack = stack"
| "clean_parts rooted (p # ps) stack =
     (if p = '''' \<or> p = ''.'' then clean_parts rooted ps stack
      else if p = ''..'' then
        (if stack \<noteq> [] \<and> last stack \<noteq> ''..'' then clean_parts rooted ps (butlast stack)
         else if rooted then clean_parts rooted ps stack
         else clean_parts rooted ps (stack @ [p]))
      else clean_parts rooted ps (stack @ [p]))"

definition Clean :: "string \<Rightarrow> string" where
  "Clean path =
     (let rooted = HasPrefix ''/'' path;
          s = Join ''/'' (clean_parts rooted (Split CHR ''/'' path) [])
      in if rooted then ''/'' @ s else if s = '''' then ''.'' else s)"

definition path_Join :: "string list \<Rightarrow> string" where
  "path_Join elems = (let es = filter (\<lambda>e. e \<noteq> '''') elems in if es = [] then '''' else Clean (Join ''/'' es))"

section \<open>Environment\<close>

record start_env =
  st_lookup :: bool \<comment> \<open>\<open>docker\<close> is on the path\<close>
  st_getwd :: "string option"
  st_file :: "string \<Rightarrow> bool" \<comment> \<open>a file that is not a directory\<close>
  st_compose :: "string list \<Rightarrow> string \<Rightarrow> bool" \<comment> \<open>the command, run in a directory, succeeds\<close>
  st_host :: "string \<Rightarrow> string + string" \<comment> \<open>\<open>url.Parse\<close>: an error or the host\<close>
  st_mkdir :: "string option"
  st_open :: "string \<Rightarrow> string option"
  st_serve :: "string option"
  st_ollama :: "int option" \<comment> \<open>the answer to the first probe: a status, or none\<close>
  st_ollama_poll :: "nat \<Rightarrow> int option"
  st_ollama_clock :: "nat \<Rightarrow> time"
  st_ollama_now :: time
  st_chroma :: "int option"
  st_chroma_poll :: "nat \<Rightarrow> int option"
  st_chroma_clock :: "nat \<Rightarrow> time"
  st_chroma_now :: time
  st_docker :: "string option"

datatype start_op = Compose "string list" string | MkdirAll string | OpenLog string | OllamaServe "string list"

section \<open>Waiting for a service\<close>

definition isAlive :: "int option \<Rightarrow> bool" where
  "isAlive resp \<longleftrightarrow> resp = Some 200"

text \<open>The loops of \<open>startOllama\<close> and \<open>waitForChroma\<close>: the i-th check of the deadline and the i-th probe.\<close>

partial_function (option) poll_loop :: "(nat \<Rightarrow> time) \<Rightarrow> (nat \<Rightarrow> int option) \<Rightarrow> time \<Rightarrow> nat \<Rightarrow> bool option" where
  "poll_loop clock probe deadline i =
     (if clock i < deadline then
        if isAlive (probe i) then Some True else poll_loop clock probe deadline (Suc i)
      else Some False)"

definition waitForChroma :: "start_env \<Rightarrow> AgentConfig \<Rightarrow> string option option" where
  "waitForChroma env cfg =
     (case poll_loop (st_chroma_clock env) (st_chroma_poll env) (st_chroma_now env + 60 * second) 0 of
        None \<Rightarrow> None
      | Some ready \<Rightarrow> Some (if ready then None else Some (''chroma not ready at '' @ cf_ChromaURL cfg)))"

section \<open>Chroma\<close>

definition findVectorDBDir :: "start_env \<Rightarrow> string option" where
  "findVectorDBDir env =
     (case st_getwd env of
        None \<Rightarrow> None
      | Some wd \<Rightarrow> find (\<lambda>p. st_file env (path_Join [p, ''docker-compose.yaml'']))
          [path_Join [wd, ''vector-db''], path_Join [wd, ''..'', ''vector-db''],
           path_Join [wd, ''..'', ''..'', ''vector-db'']])"

fun compose_loop :: "start_env \<Rightarrow> string \<Rightarrow> string list list \<Rightarrow> bool \<times> start_op list" where
  "compose_loop env dir [] = (False, [])"
| "compose_loop env dir (args # cmds) =
     (if st_compose env args dir then (True, [Compose args dir])
      else let (ok, ops) = compose_loop env dir cmds in (ok, Compose args dir # ops))"

definition startChromaDocker :: "start_env \<Rightarrow> bool \<times> string option \<times> start_op list" where
  "startChromaDocker env =
     (case findVectorDBDir env of
        None \<Rightarrow> (False, None, [])
      | Some vectorDir \<Rightarrow>
          let (ok, ops) = compose_loop env vectorDir [[''docker'', ''compose'', ''up'', ''-d''], [''docker-compose'', ''up'', ''-d'']]
          in if ok then (True, None, ops) else (False, Some ''docker compose failed'', ops))"

definition startChroma :: "start_env \<Rightarrow> AgentConfig \<Rightarrow> (string option \<times> start_op list) option" where
  "startChroma env cfg =
     (if cf_ChromaURL cfg = '''' then Some (None, [])
      else if isAlive (st_chroma env) then Some (None, [])
      else if \<not> st_lookup env then Some (Some ''docker is required to start chroma'', [])
      else case startChromaDocker env of
          (up, Some err, ops) \<Rightarrow> Some (Some err, ops)
        | (up, None, ops) \<Rightarrow>
            if \<not> up then Some (Some ''vector-db docker compose not found'', ops)
            else map_option (\<lambda>err. (err, ops)) (waitForChroma env cfg))"

section \<open>Ollama\<close>

definition startOllama :: "start_env \<Rightarrow> AgentConfig \<Rightarrow> (string option \<times> start_op list) option" where
  "startOllama env cfg =
     (if cf_OllamaURL cfg = '''' then Some (None, [])
      else if isAlive (st_ollama env) then Some (None, [])
      else case st_host env (cf_OllamaURL cfg) of
          Inl err \<Rightarrow> Some (Some (''invalid ollama url: '' @ err), [])
        | Inr host \<Rightarrow>
            if host = '''' then Some (Some (''invalid ollama url host: '' @ cf_OllamaURL cfg), [])
            else case st_mkdir env of
                Some err \<Rightarrow> Some (Some err, [MkdirAll ''logs''])
              | None \<Rightarrow>
                  let logPath = path_Join [''logs'', ''ollama_'' @ cf_AgentID cfg @ ''.log''] in
                  case st_open env logPath of
                    Some err \<Rightarrow> Some (Some err, [MkdirAll ''logs'', OpenLog logPath])
                  | None \<Rightarrow>
                      let serve = OllamaServe [''OLLAMA_HOST='' @ host, ''OLLAMA_NUM_PARALLEL=32'', ''OLLAMA_MAX_LOADED_MODELS=1''];
                          ops = [MkdirAll ''logs'', OpenLog logPath, serve]
                      in case st_serve env of
                           Some err \<Rightarrow> Some (Some err, ops)
                         | None \<Rightarrow>
                             map_option (\<lambda>ready. (if ready then None else Some (''ollama not ready at '' @ cf_OllamaURL cfg), ops))
                               (poll_loop (st_ollama_clock env) (st_ollama_poll env) (st_ollama_now env + 60 * second) 0))"

section \<open>The agent's main\<close>

text \<open>A fatal error, or the configuration the agent serves with, its containers, the routes, and whether it
  registers with the master.\<close>

datatype agent_main = Fatal string | Serving AgentConfig DockerManager "string list" bool

definition agent_start :: "start_env \<Rightarrow> string + AgentConfig \<Rightarrow> (agent_main \<times> start_op list) option" where
  "agent_start env conf =
     (case conf of
        Inl err \<Rightarrow> Some (Fatal err, [])
      | Inr cfg \<Rightarrow>
          case startOllama env cfg of
            None \<Rightarrow> None
          | Some (Some err, ops) \<Rightarrow> Some (Fatal err, ops)
          | Some (None, ops1) \<Rightarrow>
              case startChroma env cfg of
                None \<Rightarrow> None
              | Some (Some err, ops) \<Rightarrow> Some (Fatal err, ops1 @ ops)
              | Some (None, ops2) \<Rightarrow>
                  case st_docker env of
                    Some err \<Rightarrow> Some (Fatal err, ops1 @ ops2)
                  | None \<Rightarrow> Some (Serving cfg (NewDockerManager cfg)
                      [''/system/info'', ''/workers/create'', ''/workers/destroy'', ''/workers/clean'']
                      (cf_MasterURL cfg \<noteq> ''''), ops1 @ ops2))"

section \<open>The report of the machine\<close>

text \<open>The errors of the readings are dropped: an empty list of loads and a missing memory reading panic.
  Memory is counted in 64-bit bytes.\<close>

definition SystemInfo :: "float64 list \<Rightarrow> (64 word \<times> 64 word) option \<Rightarrow> (string \<times> string) option" where
  "SystemInfo cpuPercent memInfo =
     (case memInfo of
        None \<Rightarrow> None
      | Some (all, available) \<Rightarrow>
          let totalMemMB = all div 1024 div 1024;
              usedMemMB = (all - available) div 1024 div 1024
          in case cpuPercent of
               [] \<Rightarrow> None
             | x # _ \<Rightarrow> Some (fixed 1 x @ ''/100'', itoa (uint usedMemMB) @ ''/'' @ itoa (uint totalMemMB)))"

section \<open>The services are up before the agent serves\<close>

lemma clock_bound: "now \<le> clock 0 \<Longrightarrow> \<forall>i. clock i + second \<le> clock (Suc i) \<Longrightarrow> now + int n * second \<le> clock n"
  for clock :: "nat \<Rightarrow> time"
proof (induction n)
  case (Suc n)
  then have "now + int n * second \<le> clock n" "clock n + second \<le> clock (Suc n)" by auto
  then show ?case by (simp add: algebra_simps)
qed simp

lemma poll_loop_ends:
  "deadline \<le> clock (i + n) \<Longrightarrow> \<exists>b. poll_loop clock probe deadline i = Some b \<and>
     (b \<longleftrightarrow> (\<exists>j < n. isAlive (probe (i + j)) \<and> (\<forall>k \<le> j. clock (i + k) < deadline)))"
proof (induction n arbitrary: i)
  case 0
  then show ?case by (intro exI [of _ False]) (simp add: poll_loop.simps [of clock probe deadline i])
next
  case (Suc n)
  consider "deadline \<le> clock i" | "clock i < deadline" "isAlive (probe i)" | "clock i < deadline" "\<not> isAlive (probe i)"
    by linarith
  then show ?case
  proof cases
    case 1
    then show ?thesis by (intro exI [of _ False]) (auto simp: poll_loop.simps [of clock probe deadline i] dest!: spec [of _ 0])
  next
    case 2
    then show ?thesis by (intro exI [of _ True]) (auto simp: poll_loop.simps [of clock probe deadline i] intro!: exI [of _ 0])
  next
    case 3
    obtain b where b: "poll_loop clock probe deadline (Suc i) = Some b"
      "b \<longleftrightarrow> (\<exists>j < n. isAlive (probe (Suc i + j)) \<and> (\<forall>k \<le> j. clock (Suc i + k) < deadline))"
      using Suc by fastforce
    have all: "(\<forall>k \<le> Suc j. clock (i + k) < deadline) \<longleftrightarrow> (\<forall>k \<le> j. clock (Suc i + k) < deadline)" for j
      using 3(1) by (simp add: less_Suc_eq_le [symmetric] All_less_Suc2 del: less_Suc_eq_le)
    have "b \<longleftrightarrow> (\<exists>j < Suc n. isAlive (probe (i + j)) \<and> (\<forall>k \<le> j. clock (i + k) < deadline))"
      unfolding b(2) Ex_less_Suc2 all using 3(2) by simp
    then show ?thesis using b(1) 3 by (simp add: poll_loop.simps [of clock probe deadline i])
  qed
qed

definition ticking :: "(nat \<Rightarrow> time) \<Rightarrow> time \<Rightarrow> bool" where
  "ticking clock now \<longleftrightarrow> now \<le> clock 0 \<and> (\<forall>i. clock i + second \<le> clock (Suc i))"

text \<open>At most 60 probes, each before the deadline.\<close>

lemma poll_minute:
  assumes "ticking clock now"
  shows "\<exists>b. poll_loop clock probe (now + 60 * second) 0 = Some b \<and> (b \<longrightarrow> (\<exists>j < 60. isAlive (probe j)))"
  using poll_loop_ends [of "now + 60 * second" clock 0 60 probe] clock_bound [of now clock 60] assms
  by (auto simp: ticking_def)

definition answered :: "int option \<Rightarrow> (nat \<Rightarrow> int option) \<Rightarrow> bool" where
  "answered first later \<longleftrightarrow> isAlive first \<or> (\<exists>j < 60. isAlive (later j))"

lemma startOllama_ends:
  assumes "ticking (st_ollama_clock env) (st_ollama_now env)"
  shows "\<exists>err ops. startOllama env cfg = Some (err, ops) \<and>
    (err = None \<longrightarrow> cf_OllamaURL cfg = '''' \<or> answered (st_ollama env) (st_ollama_poll env))"
proof -
  obtain b where "poll_loop (st_ollama_clock env) (st_ollama_poll env) (st_ollama_now env + 60 * second) 0 = Some b"
    "b \<longrightarrow> (\<exists>j < 60. isAlive (st_ollama_poll env j))" using poll_minute [OF assms] by blast
  then show ?thesis
    by (cases "cf_OllamaURL cfg = ''''"; cases "isAlive (st_ollama env)")
      (auto simp: startOllama_def Let_def answered_def split: sum.split option.split)
qed

lemma startChroma_ends:
  assumes "ticking (st_chroma_clock env) (st_chroma_now env)"
  shows "\<exists>err ops. startChroma env cfg = Some (err, ops) \<and>
    (err = None \<longrightarrow> cf_ChromaURL cfg = '''' \<or> answered (st_chroma env) (st_chroma_poll env))"
proof -
  obtain b where "poll_loop (st_chroma_clock env) (st_chroma_poll env) (st_chroma_now env + 60 * second) 0 = Some b"
    "b \<longrightarrow> (\<exists>j < 60. isAlive (st_chroma_poll env j))" using poll_minute [OF assms] by blast
  then show ?thesis
    by (cases "cf_ChromaURL cfg = ''''"; cases "isAlive (st_chroma env)"; cases b)
      (auto simp: startChroma_def waitForChroma_def answered_def split: option.split prod.split)
qed


definition example_start :: start_env where
  "example_start = \<lparr>st_lookup = True, st_getwd = Some ''/srv/agent'', st_file = (\<lambda>_. True), st_compose = (\<lambda>_ _. True),
     st_host = (\<lambda>_. Inr ''localhost:11434''), st_mkdir = None, st_open = (\<lambda>_. None), st_serve = None,
     st_ollama = Some 200, st_ollama_poll = (\<lambda>_. None), st_ollama_clock = (\<lambda>i. int i * second), st_ollama_now = 0,
     st_chroma = None, st_chroma_poll = (\<lambda>i. if i = 3 then Some 200 else None),
     st_chroma_clock = (\<lambda>i. int i * second), st_chroma_now = 0, st_docker = None\<rparr>"


section \<open>The report panics without readings\<close>

lemma SystemInfo_panics: "SystemInfo cpu mem = None \<longleftrightarrow> cpu = [] \<or> mem = None"
  by (auto simp: SystemInfo_def Let_def split: list.split option.split)

text \<open>Reading more available memory than there is wraps around.\<close>

lemma SystemInfo_wraps: "SystemInfo [x] (Some (0, 1)) = Some (fixed 1 x @ ''/100'', itoa 17592186044415 @ ''/'' @ itoa 0)"
  by (simp add: SystemInfo_def)

section \<open>Looking for the compose file\<close>

lemma findVectorDBDir_exists:
  "findVectorDBDir env = Some d \<Longrightarrow> st_file env (path_Join [d, ''docker-compose.yaml''])"
  by (auto simp del: find.simps simp: findVectorDBDir_def find_Some_iff split: option.splits)

lemma compose_paths:
  "path_Join [''/srv/agent'', ''vector-db''] = ''/srv/agent/vector-db''"
  "path_Join [''/srv/agent'', ''..'', ''vector-db''] = ''/srv/vector-db''"
  "path_Join [''/srv'', ''..'', ''..'', ''vector-db''] = ''/vector-db''"
  by code_simp+

text \<open>The old compose command is tried only after the new one failed.\<close>

lemma compose_fallback:
  "snd (compose_loop env dir [a, b]) = (if st_compose env a dir then [Compose a dir] else [Compose a dir, Compose b dir])"
  by simp

end
