(* ===== verification/Http_Retry.thy ===== *)
theory Http_Retry
  imports Text_Layout
begin

text \<open>
  How both clients talk to the master: \<open>sendChat\<close> of \<open>client/tui/api.go\<close>, of which
  \<open>client/loadtest/loadtui/api.go\<close> is a copy. A request is repeated up to 50 times with pauses that double
  from 200 ms until they exceed a second. What the server answers to each attempt, and whether the
  context ends during a pause, are parameters; the pauses made are part of the result.
\<close>

record chatRequest =
  cq_UserID :: string
  cq_Prompt :: string
  cq_Tier :: string

record chatResponse =
  cr_RequestID :: string
  cr_Reply :: string

text \<open>The outcome of one attempt: the request could not be built, the transport failed, or a status with a
  body, decoded if it can be.\<close>

datatype attempt =
    BuildFails string
  | TransportFails string
  | Status int string "string + chatResponse"

fun send_attempts :: "(nat \<Rightarrow> attempt) \<Rightarrow> (nat \<Rightarrow> bool) \<Rightarrow> nat \<Rightarrow> nat \<Rightarrow> duration \<Rightarrow> string option \<Rightarrow> duration list \<Rightarrow>
    (string option + chatResponse) \<times> duration list" where
  "send_attempts server cancelled 0 attempt backoff lastErr pauses = (Inl lastErr, pauses)"
| "send_attempts server cancelled (Suc n) attempt backoff lastErr pauses =
     (let retry = (\<lambda>lastErr.
            if cancelled attempt then (Inl lastErr, pauses)
            else send_attempts server cancelled n (Suc attempt)
              (if backoff < second then backoff * 2 else backoff) lastErr (pauses @ [backoff]))
      in case server attempt of
           BuildFails err \<Rightarrow> (Inl (Some (''build request: '' @ err)), pauses)
         | TransportFails err \<Rightarrow> retry (Some (''http: '' @ err))
         | Status code body decoded \<Rightarrow>
             if code = 200 then
               (case decoded of
                  Inl err \<Rightarrow> (Inl (Some (''decode: '' @ err)), pauses)
                | Inr cr \<Rightarrow> (Inr cr, pauses))
             else if 400 \<le> code \<and> code < 500 \<and> code \<noteq> 429 then
               (Inl (Some (''server error '' @ itoa code @ '': '' @ body)), pauses)
             else retry (Some (''server error '' @ itoa code @ '': '' @ body)))"

text \<open>Marshalling a request of three strings does not fail.\<close>

definition sendChat :: "(string \<Rightarrow> chatRequest \<Rightarrow> nat \<Rightarrow> attempt) \<Rightarrow> (nat \<Rightarrow> bool) \<Rightarrow> string \<Rightarrow> string \<Rightarrow> string \<Rightarrow> string \<Rightarrow>
    (string option + chatResponse) \<times> duration list" where
  "sendChat server cancelled masterURL userID tier prompt =
     send_attempts (server (masterURL @ ''/chat'') \<lparr>cq_UserID = userID, cq_Prompt = prompt, cq_Tier = tier\<rparr>)
       cancelled 50 0 (200 * millisecond) None []"

definition lt_sendChat :: "(string \<Rightarrow> chatRequest \<Rightarrow> nat \<Rightarrow> attempt) \<Rightarrow> (nat \<Rightarrow> bool) \<Rightarrow> string \<Rightarrow> string \<Rightarrow> string \<Rightarrow> string \<Rightarrow>
    (string option + chatResponse) \<times> duration list" where
  "lt_sendChat server cancelled masterURL userID tier prompt =
     send_attempts (server (masterURL @ ''/chat'') \<lparr>cq_UserID = userID, cq_Prompt = prompt, cq_Tier = tier\<rparr>)
       cancelled 50 0 (200 * millisecond) None []"

section \<open>Facts\<close>

fun retryable :: "attempt \<Rightarrow> bool" where
  "retryable (BuildFails err) = False"
| "retryable (TransportFails err) = True"
| "retryable (Status code body decoded) = (code \<noteq> 200 \<and> \<not> (400 \<le> code \<and> code < 500 \<and> code \<noteq> 429))"

fun attempt_result :: "attempt \<Rightarrow> string + chatResponse" where
  "attempt_result (BuildFails err) = Inl (''build request: '' @ err)"
| "attempt_result (TransportFails err) = Inl (''http: '' @ err)"
| "attempt_result (Status code body decoded) =
     (if code = 200 then (case decoded of Inl err \<Rightarrow> Inl (''decode: '' @ err) | Inr cr \<Rightarrow> Inr cr)
      else Inl (''server error '' @ itoa code @ '': '' @ body))"

definition pause :: "nat \<Rightarrow> duration" where
  "pause i = (200 * 2 ^ min i 3) * millisecond"

lemma pause_Suc: "(if pause i < second then pause i * 2 else pause i) = pause (Suc i)"
proof -
  consider "i = 0" | "i = 1" | "i = 2" | "3 \<le> i" by linarith
  then show ?thesis by cases (simp_all add: pause_def time_units)
qed

definition reply_of :: "attempt \<Rightarrow> string option + chatResponse" where
  "reply_of a = (case attempt_result a of Inl e \<Rightarrow> Inl (Some e) | Inr cr \<Rightarrow> Inr cr)"

definition error_of :: "attempt \<Rightarrow> string option" where
  "error_of a = (case attempt_result a of Inl e \<Rightarrow> Some e | Inr cr \<Rightarrow> None)"

lemma retryable_reply: "retryable a \<Longrightarrow> reply_of a = Inl (error_of a)"
  by (cases a) (simp_all add: reply_of_def error_of_def)

lemma send_attempts_Suc:
  "send_attempts server cancelled (Suc n) attempt (pause attempt) lastErr pauses =
     (if retryable (server attempt) \<and> \<not> cancelled attempt
      then send_attempts server cancelled n (Suc attempt) (pause (Suc attempt))
        (error_of (server attempt)) (pauses @ [pause attempt])
      else (reply_of (server attempt), pauses))"
  unfolding send_attempts.simps(2) Let_def pause_Suc
  by (cases "server attempt") (auto simp: reply_of_def error_of_def split: sum.split)

declare send_attempts.simps(2) [simp del]

lemma run_retries:
  "\<forall>i < k. retryable (server (a + i)) \<and> \<not> cancelled (a + i) \<Longrightarrow>
   send_attempts server cancelled (k + n) a (pause a) e ps =
   send_attempts server cancelled n (a + k) (pause (a + k))
     (if k = 0 then e else error_of (server (a + k - 1))) (ps @ map pause [a ..< a + k])"
proof (induction k arbitrary: n)
  case (Suc k)
  have "send_attempts server cancelled (k + Suc n) a (pause a) e ps =
      send_attempts server cancelled (Suc n) (a + k) (pause (a + k))
       (if k = 0 then e else error_of (server (a + k - 1))) (ps @ map pause [a ..< a + k])"
    using Suc.IH [of "Suc n"] Suc.prems by simp
  then show ?case
    using Suc.prems by (simp add: send_attempts_Suc)
qed simp

lemma sum_pauses: "k \<le> 50 \<Longrightarrow> sum_list (map pause [0 ..< k]) \<le> 76600 * millisecond"
proof -
  assume "k \<le> 50"
  then have "[0 ..< 50] = [0 ..< k] @ [k ..< 50]" using upt_add_eq_append [of 0 k "50 - k"] by simp
  moreover have "sum_list (map pause [0 ..< 50]) = 76600 * millisecond"
    by (simp add: pause_def time_units upt_rec)
  moreover have "0 \<le> sum_list (map pause [k ..< 50])"
    by (rule sum_list_nonneg) (auto simp: pause_def time_units)
  ultimately show ?thesis by simp
qed

lemma sendChat_outcome:
  "\<exists>k < 50. (\<forall>i < k. retryable (server (url @ ''/chat'') \<lparr>cq_UserID = u, cq_Prompt = p, cq_Tier = t\<rparr> i) \<and> \<not> cancelled i) \<and>
     fst (sendChat server cancelled url u t p) =
       reply_of (server (url @ ''/chat'') \<lparr>cq_UserID = u, cq_Prompt = p, cq_Tier = t\<rparr> k) \<and>
     (snd (sendChat server cancelled url u t p) = map pause [0 ..< k] \<and>
        (\<not> retryable (server (url @ ''/chat'') \<lparr>cq_UserID = u, cq_Prompt = p, cq_Tier = t\<rparr> k) \<or> cancelled k) \<or>
      k = 49 \<and> snd (sendChat server cancelled url u t p) = map pause [0 ..< 50]) \<and>
     fst (sendChat server cancelled url u t p) \<noteq> Inl None \<and>
     sum_list (snd (sendChat server cancelled url u t p)) \<le> 76600 * millisecond"
proof -
  let ?s = "server (url @ ''/chat'') \<lparr>cq_UserID = u, cq_Prompt = p, cq_Tier = t\<rparr>"
  have p0: "200 * millisecond = pause 0" by (simp add: pause_def)
  have S: "sendChat server cancelled url u t p = send_attempts ?s cancelled 50 0 (pause 0) None []"
    by (simp add: sendChat_def p0)
  have some: "reply_of a \<noteq> Inl None" for a by (simp add: reply_of_def split: sum.split)
  let ?P = "\<lambda>i. \<not> (retryable (?s i) \<and> \<not> cancelled i)"
  show ?thesis
  proof (cases "\<exists>k < 50. ?P k")
    case True
    define k where "k = (LEAST k. ?P k)"
    obtain j where j: "j < 50" "?P j" using True by blast
    have k1: "?P k" unfolding k_def by (rule LeastI [of ?P, OF j(2)])
    have k2: "k < 50" using Least_le [of ?P, OF j(2)] j(1) unfolding k_def by (rule le_less_trans)
    have k3: "\<forall>i < k. \<not> ?P i" unfolding k_def by (blast dest: not_less_Least)
    note k = k1 k2 k3
    obtain n where n: "50 = k + Suc n" using k(2) less_imp_Suc_add [of k 50] by auto
    have "sendChat server cancelled url u t p = (reply_of (?s k), map pause [0 ..< k])"
      using run_retries [of k ?s 0 cancelled "Suc n" None "[]"] k(1,3)
      by (auto simp: S n send_attempts_Suc)
    then show ?thesis using k some sum_pauses [of k] by (intro exI [of _ k]) auto
  next
    case False
    then have "sendChat server cancelled url u t p = (Inl (error_of (?s 49)), map pause [0 ..< 50])"
      using run_retries [of 50 ?s 0 cancelled 0 None "[]"] by (simp add: S del: upt_rec_numeral)
    moreover have "reply_of (?s 49) = Inl (error_of (?s 49))" using False retryable_reply [of "?s 49"] by auto
    ultimately show ?thesis
      using False some [of "?s 49"] sum_pauses [of 50] by (intro exI [of _ 49]) auto
  qed
qed

text \<open>C21. A client asks at most 50 times and never returns without an answer or an error. It stops at the first
  answer that is final (200, or 4xx except 429) or whose pause is cancelled; otherwise with the last error. The
  pauses between the attempts double from 200 ms to 1.6 s and stay below 77 seconds in total.\<close>

theorem sendChat_attempts:
  "\<exists>k < 50. (\<forall>i < k. retryable (server (url @ ''/chat'') \<lparr>cq_UserID = u, cq_Prompt = p, cq_Tier = t\<rparr> i) \<and> \<not> cancelled i) \<and>
     fst (sendChat server cancelled url u t p) =
       reply_of (server (url @ ''/chat'') \<lparr>cq_UserID = u, cq_Prompt = p, cq_Tier = t\<rparr> k) \<and>
     (snd (sendChat server cancelled url u t p) = map pause [0 ..< k] \<and>
        (\<not> retryable (server (url @ ''/chat'') \<lparr>cq_UserID = u, cq_Prompt = p, cq_Tier = t\<rparr> k) \<or> cancelled k) \<or>
      k = 49 \<and> snd (sendChat server cancelled url u t p) = map pause [0 ..< 50]) \<and>
     fst (sendChat server cancelled url u t p) \<noteq> Inl None \<and>
     sum_list (snd (sendChat server cancelled url u t p)) \<le> 76600 * millisecond"
  by (rule sendChat_outcome)

definition busy_server :: "string \<Rightarrow> chatRequest \<Rightarrow> nat \<Rightarrow> attempt" where
  "busy_server url req i =
     (if i < 2 then Status 503 '''' (Inl '''') else Status 200 '''' (Inr \<lparr>cr_RequestID = ''id'', cr_Reply = ''hi''\<rparr>))"

theorem sendChat_attempts_witness:
  "sendChat busy_server (\<lambda>_. False) ''url'' ''u'' ''free'' ''p'' =
     (Inr \<lparr>cr_RequestID = ''id'', cr_Reply = ''hi''\<rparr>, [200 * millisecond, 400 * millisecond])"
proof -
  define c where "c = sendChat busy_server (\<lambda>_. False) ''url'' ''u'' ''free'' ''p''"
  define s where "s = busy_server (''url'' @ ''/chat'') \<lparr>cq_UserID = ''u'', cq_Prompt = ''p'', cq_Tier = ''free''\<rparr>"
  have r: "retryable (s i) = (i < 2)" for i by (simp add: s_def busy_server_def)
  note T = sendChat_attempts [where server = busy_server and url = "''url''" and u = "''u''" and p = "''p''" and t = "''free''"
      and cancelled = "\<lambda>_. False", folded s_def c_def]
  obtain k where k: "\<forall>i < k. retryable (s i)" "fst c = reply_of (s k)"
      "snd c = map pause [0 ..< k] \<and> \<not> retryable (s k) \<or> k = 49"
    using T by blast
  have "\<not> 2 < k" using k(1) [rule_format, of 2] r [of 2] by blast
  moreover have "2 \<le> k"
  proof -
    have "\<not> k < 2 \<or> k = 49" using k(3) unfolding r by blast
    then show ?thesis by linarith
  qed
  ultimately have "k = 2" by simp
  then have "fst c = Inr \<lparr>cr_RequestID = ''id'', cr_Reply = ''hi''\<rparr>" "snd c = map pause [0 ..< 2]"
    using k(2,3) by (simp_all add: reply_of_def s_def busy_server_def)
  then show ?thesis unfolding c_def [symmetric] by (simp add: prod_eq_iff pause_def upt_rec)
qed


end
