(* ===== verification/End_To_End.thy ===== *)
theory End_To_End
  imports Http_Retry Interference
begin

text \<open>
  A client against the master: the requests of \<open>sendChat\<close> (\<open>client/tui/api.go\<close>) meet \<open>chatRequestHandler\<close>
  (\<open>master/lib/server.go\<close>). Between two attempts the master may change in any way; each attempt meets it at a
  moment of its own. The JSON fields of both programs have the same names, and \<open>http.Error\<close> ends a line.
\<close>

record moment =
  mo_call :: chat_call
  mo_router :: Router
  mo_metrics :: MetricsCollector

definition request_for :: "chatRequest \<Rightarrow> ChatRequest" where
  "request_for q = \<lparr>UserID = cq_UserID q, Prompt = cq_Prompt q, Tier = cq_Tier q\<rparr>"

definition as_attempt :: "http_reply \<Rightarrow> attempt" where
  "as_attempt rep = Status (hr_status rep) (hr_error rep @ newline)
     (Inr \<lparr>cr_RequestID = RequestID (hr_body rep), cr_Reply = Reply (hr_body rep)\<rparr>)"

text \<open>A handler that panics closes the connection.\<close>

definition meet :: "chatRequest \<Rightarrow> moment \<Rightarrow> attempt" where
  "meet q mo =
     (case chatRequestHandler ((mo_call mo)\<lparr>cc_method := ''POST'', cc_body := Some (request_for q)\<rparr>)
         (mo_router mo) (mo_metrics mo) of
        None \<Rightarrow> TransportFails ''EOF''
      | Some (rep, r, mc, gs, n) \<Rightarrow> as_attempt rep)"

definition master_server :: "(nat \<Rightarrow> moment) \<Rightarrow> string \<Rightarrow> chatRequest \<Rightarrow> nat \<Rightarrow> attempt" where
  "master_server ms url q k = meet q (ms k)"

definition moment_ok :: "moment \<Rightarrow> bool" where
  "moment_ok mo \<longleftrightarrow> wf_metrics (mo_metrics mo) \<and> wf_router (mo_router mo) \<and>
     (\<forall>i. cc_uuid (mo_call mo) = Inr i \<longrightarrow> handler_ready (mo_call mo) i (mo_router mo))"

definition turned_away :: "attempt \<Rightarrow> bool" where
  "turned_away a \<longleftrightarrow> (\<exists>code body d. a = Status code body d \<and> code \<in> {500, 502, 503, 504})"

definition answered_by_worker :: "chatRequest \<Rightarrow> moment \<Rightarrow> chatResponse \<Rightarrow> bool" where
  "answered_by_worker q mo resp \<longleftrightarrow>
     (let call = mo_call mo; i = cr_RequestID resp; rs = tries (cc_env call) (cc_pause call) i (request_for q) 10 0 (mo_router mo)
      in cc_uuid call = Inr i \<and> (\<exists>k < length rs. last_answer (cc_env call k) i (request_for q) (rs ! k) (Inr (cr_Reply resp))))"

text \<open>The master's answer to a client is a worker's or asks to try again: it never refuses for good.\<close>

lemma meet_outcome:
  assumes "moment_ok mo"
  shows "turned_away (meet q mo) \<or> (\<exists>body resp. meet q mo = Status 200 body (Inr resp) \<and> answered_by_worker q mo resp)"
proof -
  let ?call = "(mo_call mo)\<lparr>cc_method := ''POST'', cc_body := Some (request_for q)\<rparr>"
  have "\<forall>i. cc_uuid ?call = Inr i \<longrightarrow> handler_ready ?call i (mo_router mo)"
    and "wf_metrics (mo_metrics mo)" and "wf_router (mo_router mo)"
    using assms by (simp_all add: moment_ok_def handler_ready_def)
  note all = handler_among_others [OF this(2,1,3)]
  obtain rep s mc gs n where
    H: "chatRequestHandler ?call (mo_router mo) (mo_metrics mo) = Some (rep, s, mc, gs, n)" and
    S: "hr_status rep \<in> (if cc_admit ?call \<noteq> None then {503, 504} else {200, 500, 502, 503})" and
    A: "hr_status rep = 200 \<longrightarrow> (\<exists>req i k. cc_body ?call = Some req \<and> cc_uuid ?call = Inr i \<and> RequestID (hr_body rep) = i \<and>
      k < length (tries (cc_env ?call) (cc_pause ?call) i req 10 0 (mo_router mo)) \<and>
      last_answer (cc_env ?call k) i req (tries (cc_env ?call) (cc_pause ?call) i req 10 0 (mo_router mo) ! k) (Inr (Reply (hr_body rep))))"
    using all by (elim exE conjE) simp
  have m: "meet q mo = as_attempt rep" by (simp add: meet_def H)
  show ?thesis
  proof (cases "hr_status rep = 200")
    case True
    then show ?thesis using A by (auto simp: m as_attempt_def answered_by_worker_def Let_def)
  next
    case False
    then show ?thesis using S by (auto simp: m as_attempt_def turned_away_def split: if_splits)
  qed
qed

lemma turned_away_retry: "turned_away a \<Longrightarrow> retryable a \<and> (\<exists>e. reply_of a = Inl (Some e))"
  by (auto simp: turned_away_def reply_of_def)


definition example_moment :: moment where
  "example_moment = \<lparr>mo_call = meddled_call ''POST'', mo_router = example_router 1, mo_metrics = example_metrics 0\<rparr>"


end
