(* ===== verification/Terminal.thy ===== *)
theory Terminal
  imports Text_Layout
begin

text \<open>
  What the three terminal interfaces use of the library that draws styled text (\<open>lipgloss\<close>, \<open>asciigraph\<close>, not
  part of the repository): a style is the list of attributes the code sets, and rendering, measuring and
  joining are functions of a record. \<open>terminal_ok\<close> states what is documented of them. Also here: the verbs of
  \<open>fmt\<close> the interfaces use and \<open>Duration.String\<close> of the standard library.
\<close>

section \<open>Styles\<close>

datatype style_attr =
    Bold | Italic | Underline | Faint
  | Foreground string | Background string
  | Padding int int | PaddingLeft int | CellWidth int | CellHeight int
  | Border string | BorderRight | BorderForeground string | AlignRight | AlignCenter

type_synonym style = "style_attr list"

record terminal =
  tm_render :: "style \<Rightarrow> string \<Rightarrow> string"
  tm_cells :: "string \<Rightarrow> int" \<comment> \<open>\<open>lipgloss.Width\<close>\<close>
  tm_vertical :: "string list \<Rightarrow> string"
  tm_horizontal :: "string list \<Rightarrow> string"
  tm_plot :: "float64 list list \<Rightarrow> int \<Rightarrow> int \<Rightarrow> string \<Rightarrow> string list \<Rightarrow> string" \<comment> \<open>series, height, width, caption, colours\<close>
  tm_clock :: "string \<Rightarrow> time \<Rightarrow> string" \<comment> \<open>\<open>Time.Format\<close> in the local time zone\<close>

text \<open>Attributes that colour text but do not lay it out.\<close>

fun colouring :: "style_attr \<Rightarrow> bool" where
  "colouring (Padding _ _) = False"
| "colouring (PaddingLeft _) = False"
| "colouring (CellWidth _) = False"
| "colouring (CellHeight _) = False"
| "colouring (Border _) = False"
| "colouring BorderRight = False"
| "colouring AlignRight = False"
| "colouring AlignCenter = False"
| "colouring _ = True"

definition printable :: "string \<Rightarrow> bool" where
  "printable s \<longleftrightarrow> (\<forall>c \<in> set s. 32 \<le> (of_char c :: nat) \<and> (of_char c :: nat) < 127)"

definition styled :: "terminal \<Rightarrow> (style \<times> string) list \<Rightarrow> string" where
  "styled T ps = concat (map (\<lambda>(st, s). tm_render T st s) ps)"

text \<open>Measuring: a text has at most one cell per byte, and in coloured printable ASCII every character is one cell.\<close>

definition terminal_ok :: "terminal \<Rightarrow> bool" where
  "terminal_ok T \<longleftrightarrow> (\<forall>s. 0 \<le> tm_cells T s \<and> tm_cells T s \<le> int (length s)) \<and>
     (\<forall>ps. (\<forall>(st, s) \<in> set ps. list_all colouring st \<and> printable s) \<longrightarrow>
        tm_cells T (styled T ps) = int (length (concat (map snd ps))))"

text \<open>A terminal without colours, for the examples.\<close>

definition printed :: "string \<Rightarrow> nat" where
  "printed s = length (filter (\<lambda>c. 32 \<le> (of_char c :: nat) \<and> (of_char c :: nat) < 127) s)"

definition plain_terminal :: terminal where
  "plain_terminal = \<lparr>tm_render = \<lambda>st s. s, tm_cells = \<lambda>s. int (printed s), tm_vertical = Join newline,
     tm_horizontal = concat, tm_plot = \<lambda>ss h w cap cs. cap, tm_clock = \<lambda>layout t. layout\<rparr>"

lemma plain_terminal_ok: "terminal_ok plain_terminal"
proof -
  have "printed s = length s" if "printable s" for s
    using that by (simp add: printed_def printable_def)
  moreover have "printable (concat (map snd ps))" if "\<forall>(st, s) \<in> set ps. printable s" for ps :: "(style \<times> string) list"
    using that by (fastforce simp: printable_def)
  moreover have "styled plain_terminal ps = concat (map snd ps)" for ps
    by (simp add: styled_def plain_terminal_def split_def)
  moreover have "tm_cells plain_terminal s = int (printed s)" for s by (simp add: plain_terminal_def)
  moreover have "printed s \<le> length s" for s by (simp add: printed_def)
  ultimately show ?thesis unfolding terminal_ok_def by (simp add: case_prod_unfold)
qed

section \<open>Formats\<close>

text \<open>\<open>%-ns\<close> and \<open>%ns\<close>: padding to \<open>n\<close> characters.\<close>

definition pad_right :: "nat \<Rightarrow> string \<Rightarrow> string" where
  "pad_right n s = s @ replicate (n - RuneCount s) CHR '' ''"

definition pad_left :: "nat \<Rightarrow> string \<Rightarrow> string" where
  "pad_left n s = replicate (n - RuneCount s) CHR '' '' @ s"

definition percent :: "nat \<Rightarrow> float64 \<Rightarrow> string" where
  "percent p x = fixed p (fmul x 100) @ ''%''"

definition ToUpper :: "string \<Rightarrow> string" where
  "ToUpper s = map (\<lambda>c. if 97 \<le> (of_char c :: nat) \<and> (of_char c :: nat) \<le> 122 then char_of (of_char c - 32 :: nat) else c) s"

definition frac_digits :: "nat \<Rightarrow> nat \<Rightarrow> string" where
  "frac_digits p v =
     (let r = v mod 10 ^ p in if r = 0 then '''' else ''.'' @ rev (dropWhile (\<lambda>c. c = CHR ''0'') (rev (zeros p (digits r)))))"

definition Duration_String :: "duration \<Rightarrow> string" where
  "Duration_String d =
     (let u = nat \<bar>d\<bar>; s = u div 10 ^ 9 in
      (if d < 0 then ''-'' else '''') @
      (if u = 0 then ''0s''
       else if u < 10 ^ 3 then digits u @ ''ns''
       else if u < 10 ^ 6 then digits (u div 10 ^ 3) @ frac_digits 3 u @ encode_rune 0xB5 @ ''s''
       else if u < 10 ^ 9 then digits (u div 10 ^ 6) @ frac_digits 6 u @ ''ms''
       else (if 3600 \<le> s then digits (s div 3600) @ ''h'' else '''') @
         (if 60 \<le> s then digits (s div 60 mod 60) @ ''m'' else '''') @
         digits (s mod 60) @ frac_digits 9 u @ ''s''))"

lemma Duration_String_examples:
  "Duration_String 0 = ''0s''" "Duration_String (90 * minute) = ''1h30m0s''"
  "Duration_String (1500 * millisecond) = ''1.5s''" "Duration_String (- 250 * millisecond) = ''-250ms''"
  by (simp_all add: Duration_String_def frac_digits_def zeros_def digits.simps minute_def second_def millisecond_def Let_def char_of_def bit_Suc_0_iff)

lemma Repeat_total [simp]: "0 \<le> n \<Longrightarrow> Repeat s n = Some (concat (replicate (nat n) s))"
  by (simp add: Repeat_def)

lemma concat_replicate_one: "concat (replicate n [c]) = replicate n c"
  by (induction n) simp_all

end
