(* ===== verification/Console_Views.thy ===== *)
theory Console_Views
  imports Text_Layout Cluster Monitoring "HOL-Library.Monad_Syntax"
begin

text \<open>
  The state of the master's terminal interface (\<open>master/tui/model.go\<close>) and what its views compute before they
  are styled (\<open>views.go\<close>, \<open>autoscaling.go\<close>, \<open>helpers.go\<close>, \<open>chrome.go\<close>): the rows of each tab, the workers listed
  under their agents, the wrapped log, the statistics of the recent requests, bars and bands, the part
  of the history the graphs show. Colours, styles and the graphs themselves are left out. \<open>None\<close> is a panic.
\<close>

section \<open>State\<close>

datatype console_tab = WorkersTab | AgentsTab | InflightTab | LogsTab | StatsTab | AutoscalingTab | EventsTab

record histPoint =
  hp_queueDepth :: float64
  hp_utilization :: float64
  hp_latency :: float64
  hp_rps :: float64
  hp_time :: time

definition maxHistory :: nat where
  "maxHistory = 180"

record snapshot =
  sn_workers :: "WorkerSnapshot list"
  sn_agents :: "AgentSnapshot list"
  sn_inflight :: "InFlight list"
  sn_logs :: "LogEntry list"
  sn_events :: "LogEntry list"
  sn_recent :: "CompletedFlight list"
  sn_strategy :: string
  sn_autoscaling :: AutoscalerSnapshot
  sn_startupStats :: StartupStats
  sn_uptime :: duration

text \<open>The zero values of Go: what a console shows before the first refresh, or without an autoscaler.\<close>

definition zero_config :: AutoscalerConfig where
  "zero_config = \<lparr>ScaleUpCooldown = 0, ScaleDownCooldown = 0, ScaleUpThreshold = 0, ScaleDownThreshold = 0,
     ScaleUpSustained = 0, ScaleDownSustained = 0, TargetUtilization = 0, MaxScaleUpStep = 0, MaxScaleDownStep = 0,
     MinWorkers = 0, MaxWorkers = 0, RPSTrendThreshold = 0, PrewarmWorkers = 0, ErrorRateCeiling = 0,
     P95LatencyCeiling = 0, TickInterval = 0, SpawnMaxRetries = 0, SpawnRetryBackoff = 0,
     AgentFailurePenalty = 0, CallbackBaseURL = ''''\<rparr>"

definition zero_autoscaling :: AutoscalerSnapshot where
  "zero_autoscaling = \<lparr>snap_Config = zero_config, snap_Metrics = zero_metrics, snap_ScalingInOp = False,
     snap_LastScaleUp = zero_time, snap_LastScaleDown = zero_time, snap_HighLoadSince = zero_time,
     snap_LowLoadSince = zero_time, snap_HighLoadSet = False, snap_LowLoadSet = False, snap_AgentHealth = [],
     snap_ScalingDecision = '''', snap_DecisionReason = Text '''', snap_DesiredWorkers = 0,
     snap_CooldownRemaining = 0, snap_RecentActions = []\<rparr>"

definition empty_snapshot :: snapshot where
  "empty_snapshot = \<lparr>sn_workers = [], sn_agents = [], sn_inflight = [], sn_logs = [], sn_events = [], sn_recent = [],
     sn_strategy = '''', sn_autoscaling = zero_autoscaling,
     sn_startupStats = \<lparr>AvgDuration = 0, P95Duration = 0, FailedStartups = 0, TotalStartups = 0\<rparr>, sn_uptime = 0\<rparr>"

record console =
  co_start :: time
  co_activeTab :: console_tab
  co_selected :: int
  co_inputMode :: string
  co_inputValue :: string
  co_status :: string
  co_lastError :: string
  co_snap :: snapshot
  co_width :: int
  co_height :: int
  co_tickEvery :: duration
  co_vpReady :: bool
  co_vpWidth :: int
  co_vpHeight :: int
  co_hist :: "histPoint list"
  co_zoomStart :: int

definition NewModel :: "time \<Rightarrow> console" where
  "NewModel now = \<lparr>co_start = now, co_activeTab = WorkersTab, co_selected = 0, co_inputMode = '''', co_inputValue = '''',
     co_status = ''ready'', co_lastError = '''', co_snap = empty_snapshot, co_width = 0, co_height = 0,
     co_tickEvery = 700 * millisecond, co_vpReady = False, co_vpWidth = 0, co_vpHeight = 0, co_hist = [],
     co_zoomStart = -1\<rparr>"

datatype console_msg = Resize int int | ConsoleTick | Refresh snapshot | ConsoleKey string | Mouse

datatype console_cmd = Fetch | TickAfter duration | Quit

text \<open>The outcomes of what one call may ask for: the clock, dials, closing a connection, the text of a reason.\<close>

record console_env =
  ke_now :: time
  ke_dial :: "nat \<Rightarrow> string option"
  ke_close :: "string option"
  ke_text :: "reason \<Rightarrow> string"

section \<open>Widths, bars and warnings\<close>

definition usableWidth :: "console \<Rightarrow> int" where
  "usableWidth m = (let w = co_width m in if w \<le> 0 then 80 else w)"

definition graphWidth :: "console \<Rightarrow> int" where
  "graphWidth m = (let w = usableWidth m - 6 in if w < 30 then 30 else w)"

definition vpHeight :: "console \<Rightarrow> int" where
  "vpHeight m = (let h = co_height m - 4 in if h < 5 then 5 else h)"

text \<open>The last entries, as the views cut their lists.\<close>

definition newest :: "nat \<Rightarrow> 'a list \<Rightarrow> 'a list" where
  "newest n xs = drop (if n < length xs then length xs - n else 0) xs"

definition recent_actions :: "console \<Rightarrow> ScalingAction list" where
  "recent_actions m = snap_RecentActions (sn_autoscaling (co_snap m))"

text \<open>The rows of recent actions, each reason cut to \<open>gw - 32\<close>.\<close>

fun action_rows :: "(reason \<Rightarrow> string) \<Rightarrow> int \<Rightarrow> ScalingAction list \<Rightarrow> (time \<times> string \<times> int \<times> string) list option" where
  "action_rows txt n [] = Some []"
| "action_rows txt n (a # as) =
     do { s \<leftarrow> trim (txt (sa_Reason a)) n; rows \<leftarrow> action_rows txt n as;
          Some ((sa_Time a, sa_Action a, sa_Count a, s) # rows) }"

definition renderRecentActions :: "(reason \<Rightarrow> string) \<Rightarrow> console \<Rightarrow> int \<Rightarrow> (time \<times> string \<times> int \<times> string) list option" where
  "renderRecentActions txt m gw =
     action_rows txt (gw - 32) (newest 10 (recent_actions m))"

text \<open>\<open>View\<close> pads or cuts the composed text to the terminal's height.\<close>

definition fit_height :: "int \<Rightarrow> int \<Rightarrow> string \<Rightarrow> string option" where
  "fit_height width height content =
     (let ls = Split CHR 0x0A content in
      if int (length ls) < height then
        map_option (\<lambda>blank. Join newline (ls @ replicate (nat height - length ls) blank)) (Repeat '' '' width)
      else if height < int (length ls) then
        (if height < 0 then None else Some (Join newline (take (nat height) ls)))
      else Some content)"

definition progressBar :: "float64 \<Rightarrow> int \<Rightarrow> int \<times> int" where
  "progressBar ratio width =
     (let width = (if width < 10 then 10 else width);
          ratio = (if ratio < 0 then 0 else ratio);
          ratio = (if 1 < ratio then 1 else ratio);
          inner = width - 2;
          filled = int_of_float (fmul ratio (float_of_int inner));
          filled = (if inner < filled then inner else filled);
          unfilled = inner - filled
      in (filled, unfilled))"

definition detectOscillation :: "ScalingAction list \<Rightarrow> bool" where
  "detectOscillation acts =
     (if length acts < 6 then False
      else
        let last = (if 12 < length acts then drop (length acts - 12) acts else acts);
            altCount = length (filter (\<lambda>i. sa_Action (last ! i) \<noteq> sa_Action (last ! (i - 1))) [1 ..< length last])
        in fl (7/10) < fdiv (float_of_int (int altCount)) (float_of_int (int (length last) - 1)) \<and> 6 \<le> length last)"

definition detectOverscaling :: "ScalingAction list \<Rightarrow> bool" where
  "detectOverscaling acts =
     (if length acts < 4 then False
      else
        let last = drop (length acts - 4) acts
        in list_ex (\<lambda>i. sa_Action (last ! i) = ''down'' \<and> sa_Action (last ! (i - 1)) = ''up'' \<and>
             time_sub (sa_Time (last ! i)) (sa_Time (last ! (i - 1))) < 2 * minute) [1 ..< length last])"

text \<open>The counts of the header and of the statistics tab compare the names of the states.\<close>

definition header_healthy :: "snapshot \<Rightarrow> int" where
  "header_healthy s = int (length (filter (\<lambda>w. lifecycle_string (ws_Lifecycle w) = ''healthy'') (sn_workers s)))"

fun count_states :: "WorkerSnapshot list \<Rightarrow> int \<Rightarrow> int \<Rightarrow> int \<Rightarrow> int \<times> int \<times> int" where
  "count_states [] healthy draining starting = (healthy, draining, starting)"
| "count_states (w # ws) healthy draining starting =
     (let s = lifecycle_string (ws_Lifecycle w) in
      if s = ''healthy'' then count_states ws (healthy + 1) draining starting
      else if s = ''draining'' then count_states ws healthy (draining + 1) starting
      else if s = ''starting'' \<or> s = ''warming'' then count_states ws healthy draining (starting + 1)
      else count_states ws healthy draining starting)"

section \<open>Workers tab\<close>

definition lifecycleStyle :: "string \<Rightarrow> string" where
  "lifecycleStyle state =
     (if state = ''healthy'' then [CHR 0xE2, CHR 0x97, CHR 0x8F] @ '' healthy''
      else if state = ''starting'' then [CHR 0xE2, CHR 0x97, CHR 0x8C] @ '' starting''
      else if state = ''warming'' then [CHR 0xE2, CHR 0x97, CHR 0x91] @ '' warming''
      else if state = ''draining'' then [CHR 0xE2, CHR 0x97, CHR 0x90] @ '' draining''
      else if state = ''stopping'' \<or> state = ''dead'' then [CHR 0xE2, CHR 0x9C, CHR 0x97, CHR '' ''] @ state
      else state)"

text \<open>A row: whether it is selected, identifier, address, state, active requests, agent.\<close>

definition worker_row :: "bool \<Rightarrow> WorkerSnapshot \<Rightarrow> (bool \<times> string \<times> string \<times> string \<times> int \<times> string) option" where
  "worker_row selected w =
     do { agent \<leftarrow> trim (ws_AgentID w) 20; i \<leftarrow> trim (ws_ID w) 24; addr \<leftarrow> trim (ws_Addr w) 20;
          Some (selected, i, addr, lifecycleStyle (lifecycle_string (ws_Lifecycle w)), ws_ActiveRequests w,
            if agent = '''' then ''(manual)'' else agent) }"

definition renderWorkers :: "console \<Rightarrow> (bool \<times> string \<times> string \<times> string \<times> int \<times> string) list option" where
  "renderWorkers m =
     those (map (\<lambda>(i, w). worker_row (int i = co_selected m) w) (enumerate 0 (sn_workers (co_snap m))))"

section \<open>Agents tab\<close>

definition owner :: "WorkerSnapshot \<Rightarrow> string" where
  "owner w = (let aid = ws_AgentID w in if aid = '''' then ''(manual)'' else aid)"

text \<open>The loop that fills the map \<open>agentWorkers\<close>; a missing key reads as the empty slice.\<close>

fun agentWorkers :: "WorkerSnapshot list \<Rightarrow> (string \<rightharpoonup> WorkerSnapshot list) \<Rightarrow> (string \<rightharpoonup> WorkerSnapshot list)" where
  "agentWorkers [] m = m"
| "agentWorkers (w # ws) m =
     agentWorkers ws (m(owner w \<mapsto> (case m (owner w) of None \<Rightarrow> [] | Some vs \<Rightarrow> vs) @ [w]))"

definition group_of :: "(string \<rightharpoonup> WorkerSnapshot list) \<Rightarrow> string \<Rightarrow> WorkerSnapshot list" where
  "group_of m k = (case m k of None \<Rightarrow> [] | Some ws \<Rightarrow> ws)"

definition agent_groups :: "snapshot \<Rightarrow> (string \<times> WorkerSnapshot list) list" where
  "agent_groups s =
     (let m = agentWorkers (sn_workers s) Map.empty in
      map (\<lambda>a. (as_AgentID a, group_of m (as_AgentID a))) (sn_agents s) @
      (case m ''(manual)'' of None \<Rightarrow> [] | Some ws \<Rightarrow> [(''(manual)'', ws)]))"

text \<open>\<open>Duration.Round\<close> of the standard library: half away from zero, saturating.\<close>

definition Round :: "duration \<Rightarrow> duration \<Rightarrow> duration" where
  "Round d m =
     (if m \<le> 0 then d
      else
        let r = \<bar>d\<bar> mod m;
            q = (if 2 * r < m then \<bar>d\<bar> - r else \<bar>d\<bar> + m - r)
        in if d < 0 then max min_duration (- q) else min max_duration q)"

definition agent_row :: "time \<Rightarrow> AgentSnapshot \<Rightarrow> (string \<times> string \<times> int \<times> duration) option" where
  "agent_row now a =
     do { i \<leftarrow> trim (as_AgentID a) 30; addr \<leftarrow> trim (as_Host a @ '':'' @ itoa (as_Port a)) 24;
          Some (i, addr, as_WorkerCount a, Round (time_sub now (as_AddedAt a)) second) }"

definition group_row :: "string \<times> WorkerSnapshot list \<Rightarrow> (string \<times> (string \<times> string \<times> int) list) option" where
  "group_row g =
     do { label \<leftarrow> trim (fst g) 40;
          rows \<leftarrow> those (map (\<lambda>w. do { addr \<leftarrow> trim (ws_Addr w) 26;
            Some (addr, lifecycleStyle (lifecycle_string (ws_Lifecycle w)), ws_ActiveRequests w) }) (snd g));
          Some (label, rows) }"

definition renderAgents :: "time \<Rightarrow> snapshot \<Rightarrow>
    ((string \<times> string \<times> int \<times> duration) list \<times> (string \<times> (string \<times> string \<times> int) list) list) option" where
  "renderAgents now s =
     do { as \<leftarrow> those (map (agent_row now) (sn_agents s)); gs \<leftarrow> those (map group_row (agent_groups s)); Some (as, gs) }"

section \<open>In-flight and log tabs\<close>

datatype speed = Slow | Noticeable | Fast

definition elapsed_speed :: "duration \<Rightarrow> speed" where
  "elapsed_speed e = (if 10 * second < e then Slow else if 3 * second < e then Noticeable else Fast)"

definition inflight_row :: "time \<Rightarrow> InFlight \<Rightarrow> (string \<times> string \<times> duration \<times> speed) option" where
  "inflight_row now req =
     (let elapsed = Round (time_sub now (if_StartedAt req)) millisecond
      in do { i \<leftarrow> trim (if_RequestID req) 36; w \<leftarrow> trim (if_Worker req) 22; Some (i, w, elapsed, elapsed_speed elapsed) })"

definition recent_row :: "CompletedFlight \<Rightarrow> (string \<times> string \<times> duration) option" where
  "recent_row req =
     do { i \<leftarrow> trim (cf_RequestID req) 36; w \<leftarrow> trim (cf_Worker req) 22; Some (i, w, Round (cf_Duration req) millisecond) }"

definition renderInflight :: "time \<Rightarrow> snapshot \<Rightarrow>
    ((string \<times> string \<times> duration \<times> speed) list \<times> (string \<times> string \<times> duration) list) option" where
  "renderInflight now s =
     do { active \<leftarrow> those (map (inflight_row now) (sn_inflight s));
          completed \<leftarrow> those (map recent_row (newest 25 (sn_recent s)));
          Some (active, completed) }"

definition wrap_width :: "console \<Rightarrow> int" where
  "wrap_width m = (let wrapW = usableWidth m - 28 in if wrapW < 20 then 20 else wrapW)"

text \<open>A row of the log: the first line of an entry carries its time and its place (cut to 14 bytes, 12 in the
  notifications), the others are indented.\<close>

datatype log_row = Entry time string string | Continued string

fun rows_of :: "time \<Rightarrow> string \<Rightarrow> string list \<Rightarrow> log_row list" where
  "rows_of t place [] = []"
| "rows_of t place (l # ls) = Entry t place l # map Continued ls"

fun log_rows :: "int \<Rightarrow> int \<Rightarrow> LogEntry list \<Rightarrow> log_row list option" where
  "log_rows n wrapW [] = Some []"
| "log_rows n wrapW (e # es) =
     do { place \<leftarrow> trim (le_Place e) n; rows \<leftarrow> log_rows n wrapW es;
          Some (rows_of (le_Time e) place (wrap_words (Fields (le_Msg e)) wrapW) @ rows) }"

definition renderLogs :: "console \<Rightarrow> log_row list option" where
  "renderLogs m = log_rows 14 (wrap_width m) (newest 500 (sn_logs (co_snap m)))"

definition renderEvents :: "console \<Rightarrow> log_row list option" where
  "renderEvents m = log_rows 12 (wrap_width m) (newest 500 (sn_events (co_snap m)))"

section \<open>Statistics tab\<close>

record latency_box =
  lb_avg :: float64
  lb_p95 :: float64
  lb_samples :: int

fun sum_durations :: "CompletedFlight list \<Rightarrow> float64 \<Rightarrow> float64 list \<Rightarrow> float64 \<times> float64 list" where
  "sum_durations [] acc durs = (acc, durs)"
| "sum_durations (r # rs) acc durs =
     (let d = Seconds (cf_Duration r) in sum_durations rs (fadd acc d) (durs @ [d]))"

text \<open>\<open>Some None\<close>: no recent request; the outer \<open>None\<close> would be a panic at the index of the percentile.\<close>

definition recent_latency :: "snapshot \<Rightarrow> latency_box option option" where
  "recent_latency s =
     (if 0 < length (sn_recent s) then
        let (acc, durs) = sum_durations (sn_recent s) 0 [];
            durs = sort durs;
            n = int (length durs);
            i = min (int_of_float (fmul (float_of_int n) (fl (95/100)))) (n - 1)
        in if 0 \<le> i \<and> i < n
           then Some (Some \<lparr>lb_avg = fdiv acc (float_of_int n), lb_p95 = durs ! nat i, lb_samples = n\<rparr>)
           else None
      else Some None)"

fun worker_totals :: "WorkerSnapshot list \<Rightarrow> int \<Rightarrow> int \<Rightarrow> int \<Rightarrow> int \<times> int \<times> int" where
  "worker_totals [] active fails success = (active, fails, success)"
| "worker_totals (w # ws) active fails success =
     worker_totals ws (active + ws_ActiveRequests w) (fails + ws_Failures w) (success + ws_Successes w)"

record stats_view =
  sv_workers :: int
  sv_states :: "int \<times> int \<times> int" \<comment> \<open>healthy, draining, starting\<close>
  sv_totals :: "int \<times> int \<times> int" \<comment> \<open>active, failures, successes\<close>
  sv_inflight :: int
  sv_latency :: "latency_box option"
  sv_agents :: "(string \<times> string \<times> int) list"

definition renderStats :: "snapshot \<Rightarrow> stats_view option" where
  "renderStats s =
     do { lat \<leftarrow> recent_latency s;
          as \<leftarrow> those (map (\<lambda>a. do { i \<leftarrow> trim (as_AgentID a) 32;
            addr \<leftarrow> trim (as_Host a @ '':'' @ itoa (as_Port a)) 24; Some (i, addr, as_WorkerCount a) }) (sn_agents s));
          Some \<lparr>sv_workers = int (length (sn_workers s)), sv_states = count_states (sn_workers s) 0 0 0,
            sv_totals = worker_totals (sn_workers s) 0 0 0, sv_inflight = int (length (sn_inflight s)),
            sv_latency = lat, sv_agents = as\<rparr> }"

section \<open>AutoScale tab\<close>

definition graph_window :: "console \<Rightarrow> histPoint list" where
  "graph_window m =
     (if 0 \<le> co_zoomStart m \<and> co_zoomStart m < int (length (co_hist m))
      then drop (nat (co_zoomStart m)) (co_hist m) else co_hist m)"

definition utilization_series :: "histPoint list \<Rightarrow> AutoscalerConfig \<Rightarrow> float64 list \<times> float64 list \<times> float64 list \<times> float64 list" where
  "utilization_series window cfg =
     (map (\<lambda>p. fmul (hp_utilization p) 100) window, map (\<lambda>_. fmul (ScaleUpThreshold cfg) 100) window,
      map (\<lambda>_. fmul (ScaleDownThreshold cfg) 100) window, map (\<lambda>_. fmul (TargetUtilization cfg) 100) window)"

definition queue_series :: "histPoint list \<Rightarrow> float64 list \<times> float64 list" where
  "queue_series window =
     (map (\<lambda>p. let v = hp_queueDepth p in if v < 0 then 0 else v) window, map hp_rps window)"

definition latency_series :: "histPoint list \<Rightarrow> float64 list" where
  "latency_series window = map (\<lambda>p. let v = hp_latency p in if v < 0 then 0 else v) window"

datatype band_cell = Marker | BelowDown | Between | AboveUp

definition clip :: "int \<Rightarrow> int \<Rightarrow> int" where
  "clip width x = (if width < x then width else x)"

definition hysteresisBand :: "AutoscalerConfig \<Rightarrow> float64 \<Rightarrow> int \<Rightarrow> band_cell list" where
  "hysteresisBand cfg currentUtil width =
     (let width = (if width < 20 then 20 else width);
          downAt = clip width (int_of_float (fmul (ScaleDownThreshold cfg) (float_of_int width)));
          upAt = clip width (int_of_float (fmul (ScaleUpThreshold cfg) (float_of_int width)));
          currAt = clip width (int_of_float (fmul currentUtil (float_of_int width)))
      in map (\<lambda>i. if i = currAt then Marker else if i < downAt then BelowDown else if i < upAt then Between else AboveUp)
           [0..width - 1])"

datatype agent_status = AgentOk | Penalized duration | Failing int bool \<comment> \<open>the flag: shown in red\<close>

definition agentStatus :: "time \<Rightarrow> agentHealth \<Rightarrow> agent_status" where
  "agentStatus now h =
     (if now < penalizedUntil h then Penalized (Round (time_sub (penalizedUntil h) now) second)
      else if 0 < consecutiveFailures h then Failing (consecutiveFailures h) (3 \<le> consecutiveFailures h)
      else AgentOk)"

definition renderAgentHealth :: "time \<Rightarrow> AutoscalerSnapshot \<Rightarrow> (string \<times> agent_status) list option" where
  "renderAgentHealth now a =
     those (map (\<lambda>(i, h). map_option (\<lambda>i. (i, agentStatus now h)) (trim i 40)) (snap_AgentHealth a))"

text \<open>The decision panel: bars, all of one width, for the utilisation, the configuration and a sustained load,
  the band, the rest of the cooldown, the desired and the healthy workers.\<close>

record panel_view =
  pv_bars :: "(int \<times> int) list"
  pv_band :: "band_cell list"
  pv_cooldown :: "duration option"
  pv_desired :: int
  pv_healthy :: int

definition renderDecisionPanel :: "time \<Rightarrow> int \<Rightarrow> AutoscalerSnapshot \<Rightarrow> panel_view" where
  "renderDecisionPanel now gw a =
     (let cfg = snap_Config a;
          util = WorkerUtilization (snap_Metrics a);
          barW = gw - 30;
          barW = (if barW < 20 then 20 else barW);
          sustained = (\<lambda>since limit. progressBar
            (fdiv (float_of_int (Round (time_sub now since) second)) (float_of_int limit)) barW);
          cd = snap_CooldownRemaining a
      in \<lparr>pv_bars = map (\<lambda>x. progressBar x barW) [util, TargetUtilization cfg, ScaleUpThreshold cfg, ScaleDownThreshold cfg] @
            (if snap_HighLoadSet a then [sustained (snap_HighLoadSince a) (ScaleUpSustained cfg)] else []) @
            (if snap_LowLoadSet a then [sustained (snap_LowLoadSince a) (ScaleDownSustained cfg)] else []),
          pv_band = hysteresisBand cfg util (barW + 12),
          pv_cooldown = (if 0 < cd then Some (Round cd second) else None),
          pv_desired = snap_DesiredWorkers a, pv_healthy = HealthyWorkers (snap_Metrics a)\<rparr>)"

definition renderStartupStats :: "StartupStats \<Rightarrow> (duration \<times> duration \<times> int \<times> int) option" where
  "renderStartupStats stats =
     (if TotalStartups stats = 0 then None
      else Some (Round (AvgDuration stats) second, Round (P95Duration stats) second, FailedStartups stats, TotalStartups stats))"

record graphs_view =
  gr_utilization :: "float64 list \<times> float64 list \<times> float64 list \<times> float64 list"
  gr_queue :: "float64 list \<times> float64 list"
  gr_latency :: "float64 list"

record scale_view =
  av_oscillating :: bool
  av_overscaling :: bool
  av_graphs :: "graphs_view option" \<comment> \<open>\<open>None\<close>: less than two points\<close>
  av_panel :: panel_view
  av_startup :: "(duration \<times> duration \<times> int \<times> int) option"
  av_actions :: "(time \<times> string \<times> int \<times> string) list"
  av_health :: "(string \<times> agent_status) list"

definition renderAutoscaling :: "console_env \<Rightarrow> console \<Rightarrow> scale_view option" where
  "renderAutoscaling env m =
     (let a = sn_autoscaling (co_snap m);
          gw = graphWidth m;
          window = graph_window m;
          graphs = (if length window < 2 then None
            else Some \<lparr>gr_utilization = utilization_series window (snap_Config a), gr_queue = queue_series window,
                   gr_latency = latency_series window\<rparr>)
      in do { rows \<leftarrow> (if 0 < length (snap_RecentActions a) then renderRecentActions (ke_text env) m gw else Some []);
              health \<leftarrow> renderAgentHealth (ke_now env) a;
              Some \<lparr>av_oscillating = detectOscillation (snap_RecentActions a),
                av_overscaling = detectOverscaling (snap_RecentActions a), av_graphs = graphs,
                av_panel = renderDecisionPanel (ke_now env) gw a,
                av_startup = renderStartupStats (sn_startupStats (co_snap m)), av_actions = rows, av_health = health\<rparr> })"

section \<open>The active tab\<close>

text \<open>Whether rendering the active tab returns.\<close>

definition renderBody :: "console_env \<Rightarrow> console \<Rightarrow> bool" where
  "renderBody env m \<longleftrightarrow>
     (let s = co_snap m; now = ke_now env in
      case co_activeTab m of
        WorkersTab \<Rightarrow> renderWorkers m \<noteq> None
      | AgentsTab \<Rightarrow> renderAgents now s \<noteq> None
      | InflightTab \<Rightarrow> renderInflight now s \<noteq> None
      | LogsTab \<Rightarrow> renderLogs m \<noteq> None
      | StatsTab \<Rightarrow> renderStats s \<noteq> None
      | AutoscalingTab \<Rightarrow> renderAutoscaling env m \<noteq> None
      | EventsTab \<Rightarrow> renderEvents m \<noteq> None)"

section \<open>When a view panics\<close>

lemma trim_total [simp]: "trim s (numeral n) \<noteq> None"
  using trim_panics [of s "numeral n"] by simp

lemma bind_total: "x \<noteq> None \<Longrightarrow> (\<And>y. f y \<noteq> None) \<Longrightarrow> Option.bind x f \<noteq> None"
  by (cases x) auto

lemma action_rows_total: "0 \<le> n \<Longrightarrow> action_rows txt n as \<noteq> None"
proof (induction as)
  case (Cons a as)
  then show ?case using trim_panics [of "txt (sa_Reason a)" n] by (auto intro!: bind_total)
qed simp

lemma action_rows_negative: "n < 0 \<Longrightarrow> as \<noteq> [] \<Longrightarrow> action_rows txt n as = None"
  by (cases as) (simp_all add: trim_panics [THEN iffD2])

lemma log_rows_total: "0 \<le> n \<Longrightarrow> log_rows n w es \<noteq> None"
proof (induction es)
  case (Cons e es)
  then show ?case using trim_panics [of "le_Place e" n] by (auto intro!: bind_total)
qed simp

section \<open>What is shown\<close>

text \<open>The groups are the workers with that owner, in the order of the snapshot.\<close>

lemma agentWorkers_group: "group_of (agentWorkers ws m) k = group_of m k @ filter (\<lambda>w. owner w = k) ws"
  by (induction ws arbitrary: m) (simp_all add: group_of_def)

lemma agentWorkers_dom: "agentWorkers ws m k = None \<longleftrightarrow> m k = None \<and> (\<forall>w \<in> set ws. owner w \<noteq> k)"
  by (induction ws arbitrary: m) auto

lemma agent_groups_filter:
  "agent_groups s =
     map (\<lambda>a. (as_AgentID a, filter (\<lambda>w. owner w = as_AgentID a) (sn_workers s))) (sn_agents s) @
     (let ws = filter (\<lambda>w. owner w = ''(manual)'') (sn_workers s) in if ws = [] then [] else [(''(manual)'', ws)])"
proof -
  let ?m = "agentWorkers (sn_workers s) Map.empty" and ?ws = "filter (\<lambda>w. owner w = ''(manual)'') (sn_workers s)"
  have g: "group_of ?m k = filter (\<lambda>w. owner w = k) (sn_workers s)" for k
    by (simp add: agentWorkers_group) (simp add: group_of_def)
  have "(case ?m ''(manual)'' of None \<Rightarrow> [] | Some ws \<Rightarrow> [(''(manual)'', ws)]) = (if ?ws = [] then [] else [(''(manual)'', ?ws)])"
    using g [of "''(manual)''"] agentWorkers_dom [of "sn_workers s" Map.empty "''(manual)''"]
    by (cases "?m ''(manual)''") (auto simp: group_of_def filter_empty_conv)
  then show ?thesis by (simp add: agent_groups_def g Let_def)
qed

text \<open>The agents tab lists a worker under its agent if that agent is registered, under \<open>(manual)\<close> if it
  has none, and not at all when its agent is unknown to the master; when the agents have distinct names other
  than \<open>(manual)\<close> every listed worker appears as often as in the snapshot.\<close>

theorem agent_groups_listed:
  assumes "distinct (map as_AgentID (sn_agents s))" and "''(manual)'' \<notin> as_AgentID ` set (sn_agents s)"
  shows "count_list (concat (map snd (agent_groups s))) w =
    (if owner w = ''(manual)'' \<or> owner w \<in> as_AgentID ` set (sn_agents s) then count_list (sn_workers s) w else 0)"
proof -
  let ?ws = "sn_workers s"
  have f: "count_list (filter (\<lambda>v. owner v = k) vs) w = (if owner w = k then count_list vs w else 0)" for k vs
    by (induction vs) auto
  have agents: "count_list (concat (map (\<lambda>a. filter (\<lambda>v. owner v = as_AgentID a) ?ws) as)) w =
      (if owner w \<in> as_AgentID ` set as then count_list ?ws w else 0)" if "distinct (map as_AgentID as)" for as
    using that by (induction as) (auto simp: f count_list_append)
  have "count_list (concat (map snd (agent_groups s))) w =
      count_list (concat (map (\<lambda>a. filter (\<lambda>v. owner v = as_AgentID a) ?ws) (sn_agents s))) w +
      count_list (filter (\<lambda>v. owner v = ''(manual)'') ?ws) w"
    by (simp add: agent_groups_filter Let_def comp_def count_list_append)
  then show ?thesis using assms agents [OF assms(1)] f by auto
qed

theorem agent_groups_listed_witness:
  "count_list (concat (map snd (agent_groups (empty_snapshot
     \<lparr>sn_workers := [\<lparr>ws_ID = ''w'', ws_Addr = ''h:1'', ws_Status = WorkerHealthy, ws_Lifecycle = StateHealthy,
        ws_Failures = 0, ws_Successes = 3, ws_ActiveRequests = 1, ws_AgentID = ''lost''\<rparr>],
      sn_agents := [\<lparr>as_AgentID = ''a'', as_Host = ''h'', as_Port = 1, as_WorkerCount = 0, as_AddedAt = 0\<rparr>]\<rparr>))))
     \<lparr>ws_ID = ''w'', ws_Addr = ''h:1'', ws_Status = WorkerHealthy, ws_Lifecycle = StateHealthy,
        ws_Failures = 0, ws_Successes = 3, ws_ActiveRequests = 1, ws_AgentID = ''lost''\<rparr> = 0"
  by (subst agent_groups_listed) (simp_all add: owner_def)

section \<open>Rows of the log\<close>

lemma lines_loop_length:
  "ws \<noteq> [] \<or> current \<noteq> '''' \<Longrightarrow> list_all is_word ws \<Longrightarrow> length ls < length (lines_loop w ws ls current)"
proof (induction ws arbitrary: ls current)
  case (Cons v ws)
  have v: "v \<noteq> ''''" "list_all is_word ws" using Cons.prems is_word_nonempty [of v] by simp_all
  show ?case
    using Cons.IH [OF disjI2 v(2), of v ls] Cons.IH [OF disjI2 v(2), of "current @ CHR '' '' # v" ls]
      Cons.IH [OF disjI2 v(2), of v "ls @ [current]"] v(1) by auto
qed auto

lemma wrap_words_nonempty: "wrap_words (Fields s) w \<noteq> []"
  using lines_loop_length [of "Fields s" "''''" "[]" w] Fields_words [of s] by (auto simp: wrap_words_def)

definition is_entry :: "log_row \<Rightarrow> bool" where
  "is_entry r \<longleftrightarrow> (case r of Entry _ _ _ \<Rightarrow> True | Continued _ \<Rightarrow> False)"

lemma rows_of_entry: "ls \<noteq> [] \<Longrightarrow> length (filter is_entry (rows_of t p ls)) = 1"
  by (cases ls) (simp_all add: is_entry_def)

text \<open>Every entry of the log has one row with its time and place, whatever its message.\<close>

lemma log_rows_entries:
  "0 \<le> n \<Longrightarrow> \<exists>rows. log_rows n w es = Some rows \<and> length (filter is_entry rows) = length es"
proof (induction es)
  case (Cons e es)
  then obtain rows where "log_rows n w es = Some rows" "length (filter is_entry rows) = length es" by auto
  moreover obtain p where "trim (le_Place e) n = Some p" using trim_panics [of "le_Place e" n] Cons.prems by force
  ultimately show ?case by (simp add: rows_of_entry wrap_words_nonempty)
qed simp

section \<open>Statistics and bars\<close>

lemma sum_durations_length: "length (snd (sum_durations rs x durs)) = length durs + length rs"
  by (induction rs arbitrary: x durs) (simp_all add: Let_def)

text \<open>The percentile's index is always inside the samples.\<close>

lemma recent_latency_total: "recent_latency s \<noteq> None"
proof -
  let ?n = "int (length (sn_recent s))"
  have "0 \<le> int_of_float (fmul (float_of_int ?n) (fl (95/100)))"
    unfolding fmul_def by (intro int_of_float_nonneg fl_nonneg mult_nonneg_nonneg float_of_int_nonneg) simp_all
  moreover have "length (sort (snd (sum_durations (sn_recent s) 0 []))) = length (sn_recent s)"
    by (simp add: sum_durations_length)
  ultimately show ?thesis unfolding recent_latency_def Let_def split_beta by simp
qed

lemma worker_totals_sum:
  "worker_totals ws a f s = (a + sum_list (map ws_ActiveRequests ws), f + sum_list (map ws_Failures ws), s + sum_list (map ws_Successes ws))"
  by (induction ws arbitrary: a f s) simp_all

lemma marked_cells:
  "count_list (map (\<lambda>i. if i = k then Marker else if i < a then BelowDown else if i < b then Between else AboveUp) xs) Marker =
     count_list xs (k :: int)"
  by (induction xs) auto

lemma count_distinct: "distinct xs \<Longrightarrow> count_list xs k = (if k \<in> set xs then 1 else 0)"
  by (induction xs) auto

text \<open>The band has one cell per column. The marker of the current utilisation is drawn exactly once when the
  utilisation is below its right end, and not at all at full utilisation or above: its position is then
  clipped to the width, one past the last cell.\<close>

theorem band_marker:
  assumes "20 \<le> n" and "n < 1000" and "0 \<le> u"
  shows "int (length (hysteresisBand cfg u n)) = n \<and>
    count_list (hysteresisBand cfg u n) Marker = (if int_of_float (fmul u (float_of_int n)) < n then 1 else 0) \<and>
    (1 \<le> u \<longrightarrow> Marker \<notin> set (hysteresisBand cfg u n))"
proof -
  define X where "X = int_of_float (fmul u (float_of_int n))"
  define down up where "down = clip n (int_of_float (fmul (ScaleDownThreshold cfg) (float_of_int n)))"
    and "up = clip n (int_of_float (fmul (ScaleUpThreshold cfg) (float_of_int n)))"
  have "0 \<le> X"
    unfolding X_def fmul_def using assms by (intro int_of_float_nonneg fl_nonneg mult_nonneg_nonneg float_of_int_nonneg) auto
  have b: "hysteresisBand cfg u n =
      map (\<lambda>i. if i = clip n X then Marker else if i < down then BelowDown else if i < up then Between else AboveUp) [0..n - 1]"
    using assms(1) by (simp add: hysteresisBand_def Let_def X_def down_def up_def)
  have c: "count_list (hysteresisBand cfg u n) Marker = (if X < n then 1 else 0)"
    unfolding b marked_cells count_distinct [OF distinct_upto] using \<open>0 \<le> X\<close> by (auto simp: clip_def)
  have full: "n \<le> X" if "1 \<le> u"
  proof -
    have "(of_int n :: rat) \<le> u * of_int n" using that assms(1) by (simp add: mult_le_cancel_right1)
    then have "of_int n \<le> fmul u (float_of_int n)" unfolding fmul_def using assms by (simp add: fl_ge)
    from int_of_float_mono [OF this] show ?thesis by (simp add: X_def)
  qed
  have "1 \<le> u \<longrightarrow> count_list (hysteresisBand cfg u n) Marker = 0" using c full by auto
  then show ?thesis using c assms(1) by (simp add: b X_def count_list_0_iff)
qed

theorem band_marker_witness:
  "length (hysteresisBand (as_cfg example_scaler) 1 20) = 20 \<and> Marker \<notin> set (hysteresisBand (as_cfg example_scaler) 1 20)"
  using band_marker [of 20 1 "as_cfg example_scaler"] by simp

lemma newest_nonempty: "0 < n \<Longrightarrow> xs \<noteq> [] \<Longrightarrow> newest n xs \<noteq> []"
  by (auto simp: newest_def)

lemma rows_total:
  "worker_row b w \<noteq> None" "agent_row now a \<noteq> None" "inflight_row now q \<noteq> None" "recent_row c \<noteq> None"
  by (simp_all add: worker_row_def agent_row_def inflight_row_def recent_row_def Let_def bind_eq_None_conv del: not_None_eq)

lemma tabs_total:
  "renderWorkers m \<noteq> None" "renderAgents now s \<noteq> None" "renderInflight now s \<noteq> None" "renderLogs m \<noteq> None"
  "renderStats s \<noteq> None" "renderEvents m \<noteq> None"
proof -
  show "renderWorkers m \<noteq> None"
    unfolding renderWorkers_def by (intro those_total) (simp add: rows_total split_beta del: not_None_eq)
  have "group_row g \<noteq> None" for g
    unfolding group_row_def by (intro bind_total those_total) (simp_all add: bind_eq_None_conv del: not_None_eq)
  then show "renderAgents now s \<noteq> None"
    unfolding renderAgents_def by (intro bind_total those_total) (simp_all add: rows_total del: not_None_eq)
  show "renderInflight now s \<noteq> None"
    unfolding renderInflight_def by (intro bind_total those_total) (simp_all add: rows_total del: not_None_eq)
  show "renderLogs m \<noteq> None" "renderEvents m \<noteq> None"
    unfolding renderLogs_def renderEvents_def by (rule log_rows_total; simp)+
  show "renderStats s \<noteq> None"
    unfolding renderStats_def
    by (intro bind_total those_total recent_latency_total) (simp_all add: bind_eq_None_conv del: not_None_eq)
qed

text \<open>The only cut whose length depends on the terminal is that of the reasons: every other view returns.\<close>

lemma renderBody_or_actions:
  "renderBody env m \<longleftrightarrow> co_activeTab m \<noteq> AutoscalingTab \<or> recent_actions m = [] \<or>
     action_rows (ke_text env) (graphWidth m - 32) (newest 10 (recent_actions m)) \<noteq> None"
proof (cases "co_activeTab m = AutoscalingTab")
  case True
  have "renderAgentHealth (ke_now env) a \<noteq> None" for a
    unfolding renderAgentHealth_def by (intro those_total) (simp add: split_beta del: not_None_eq)
  then show ?thesis using True
    by (auto simp: renderBody_def renderAutoscaling_def renderRecentActions_def recent_actions_def Let_def bind_eq_None_conv)
next
  case False
  then show ?thesis
    by (cases "co_activeTab m") (simp_all add: renderBody_def tabs_total)
qed

end
