(* ===== verification/Console.thy ===== *)
theory Console
  imports Console_Views
begin

text \<open>
  The master's terminal interface (\<open>master/tui/model.go\<close>): the handler \<open>Update\<close>, which polls snapshots of the
  cluster and lets the operator add, drain and remove workers and switch the strategy, on the router of
  the master. The viewport is a third-party component of which the size is kept. A panic is \<open>None\<close>; the
  properties say exactly when the views panic, that nothing else does, and what every session keeps.
\<close>

section \<open>Operations\<close>

definition setVPContent :: "console_env \<Rightarrow> console \<Rightarrow> console option" where
  "setVPContent env m = (if co_vpReady m \<longrightarrow> renderBody env m then Some m else None)"

definition arrow :: string where
  "arrow = [CHR 0xE2, CHR 0x86, CHR 0x92]"

definition push_hist :: "histPoint \<Rightarrow> console \<Rightarrow> console" where
  "push_hist p m =
     (let m = m\<lparr>co_hist := co_hist m @ [p]\<rparr> in
      if maxHistory < length (co_hist m) then m\<lparr>co_hist := drop (length (co_hist m) - maxHistory) (co_hist m)\<rparr> else m)"

definition metrics_of :: "snapshot \<Rightarrow> ClusterMetrics" where
  "metrics_of s = snap_Metrics (sn_autoscaling s)"

definition refresh :: "console_env \<Rightarrow> snapshot \<Rightarrow> console \<Rightarrow> console option" where
  "refresh env s m =
     (let m = m\<lparr>co_snap := s\<rparr>;
          n = int (length (sn_workers (co_snap m)));
          m = (if n \<le> co_selected m then m\<lparr>co_selected := max 0 (n - 1)\<rparr> else m);
          mets = metrics_of (co_snap m);
          m = push_hist \<lparr>hp_queueDepth = QueueDepth mets, hp_utilization = WorkerUtilization mets,
                hp_latency = P95Latency mets, hp_rps = RequestsPerSec mets, hp_time = ke_now env\<rparr> m;
          h = int (length (co_hist m));
          m = (if 0 \<le> co_zoomStart m \<and> h \<le> co_zoomStart m then m\<lparr>co_zoomStart := max 0 (h - 1)\<rparr> else m)
      in setVPContent env m)"

definition resize :: "console_env \<Rightarrow> int \<Rightarrow> int \<Rightarrow> console \<Rightarrow> console option" where
  "resize env w h m =
     (let m = m\<lparr>co_width := w, co_height := h\<rparr>;
          m = m\<lparr>co_vpReady := True, co_vpWidth := w, co_vpHeight := vpHeight m\<rparr>
      in if renderBody env m then Some m else None)"

definition switchTab :: "console_env \<Rightarrow> console_tab \<Rightarrow> console \<Rightarrow> console option" where
  "switchTab env t m =
     (let m = m\<lparr>co_activeTab := t\<rparr> in if renderBody env m then Some m else None)"

definition cycleStrategy :: "console \<Rightarrow> Router \<Rightarrow> console \<times> Router" where
  "cycleStrategy m r =
     (let s = get_Strategy r in
      if s = StrategyLeastConnections then
        (m\<lparr>co_status := ''strategy '' @ arrow @ '' round_robin''\<rparr>, SetStrategy StrategyRoundRobin r)
      else if s = StrategyRoundRobin then
        (m\<lparr>co_status := ''strategy '' @ arrow @ '' random''\<rparr>, SetStrategy StrategyRandom r)
      else if s = StrategyRandom then
        (m\<lparr>co_status := ''strategy '' @ arrow @ '' least_connections''\<rparr>, SetStrategy StrategyLeastConnections r)
      else (m, r))"

type_synonym console_result = "(console \<times> Router \<times> goroutine list \<times> console_cmd list) option"

definition unchanged :: "Router \<Rightarrow> console option \<Rightarrow> console_result" where
  "unchanged r = map_option (\<lambda>m. (m, r, [], []))"

definition reported :: "go_error option \<Rightarrow> string \<Rightarrow> console \<Rightarrow> console" where
  "reported err done m =
     (case err of Some e \<Rightarrow> m\<lparr>co_lastError := error_text e\<rparr> | None \<Rightarrow> m\<lparr>co_status := done\<rparr>)"

text \<open>\<open>m.snap.workers[m.selected]\<close> panics when the selection is out of range.\<close>

definition selected_worker :: "console \<Rightarrow> WorkerSnapshot option" where
  "selected_worker m =
     (if 0 \<le> co_selected m \<and> co_selected m < int (length (sn_workers (co_snap m)))
      then Some (sn_workers (co_snap m) ! nat (co_selected m)) else None)"


definition drain_selected :: "console \<Rightarrow> Router \<Rightarrow> console_result" where
  "drain_selected m r =
     (if 0 < length (sn_workers (co_snap m)) then
        case selected_worker m of
          None \<Rightarrow> None
        | Some w \<Rightarrow>
            let (err, gs) = DrainWorker (ws_ID w) r
            in Some (reported err (''draining '' @ ws_ID w) m, r, gs, [Fetch])
      else Some (m, r, [], []))"

definition remove_selected :: "console_env \<Rightarrow> console \<Rightarrow> Router \<Rightarrow> console_result" where
  "remove_selected env m r =
     (if 0 < length (sn_workers (co_snap m)) then
        case selected_worker m of
          None \<Rightarrow> None
        | Some w \<Rightarrow>
            let (err, r, gs) = RemoveWorker (ke_close env) (ws_ID w) r
            in Some (reported err (''removed '' @ ws_ID w) m, r, gs, [Fetch])
      else Some (m, r, [], []))"

definition handleKey :: "console_env \<Rightarrow> string \<Rightarrow> console \<Rightarrow> Router \<Rightarrow> console_result" where
  "handleKey env s m r =
     (if s = ''ctrl+c'' \<or> s = ''q'' then Some (m, r, [], [Quit])
      else if s = ''1'' then unchanged r (switchTab env WorkersTab m)
      else if s = ''2'' then unchanged r (switchTab env AgentsTab m)
      else if s = ''3'' then unchanged r (switchTab env InflightTab m)
      else if s = ''4'' then unchanged r (switchTab env LogsTab m)
      else if s = ''5'' then unchanged r (switchTab env StatsTab m)
      else if s = ''6'' then unchanged r (switchTab env AutoscalingTab m)
      else if s = ''7'' then unchanged r (switchTab env EventsTab m)
      else if s = ''up'' \<or> s = ''k'' then
        (if co_activeTab m = WorkersTab \<and> 0 < co_selected m
         then unchanged r (setVPContent env (m\<lparr>co_selected := co_selected m - 1\<rparr>))
         else Some (m, r, [], []))
      else if s = ''down'' \<or> s = ''j'' then
        (if co_activeTab m = WorkersTab \<and> co_selected m < int (length (sn_workers (co_snap m))) - 1
         then unchanged r (setVPContent env (m\<lparr>co_selected := co_selected m + 1\<rparr>))
         else Some (m, r, [], []))
      else if s = ''z'' then
        (if co_activeTab m = AutoscalingTab then
           unchanged r (setVPContent env
             (if co_zoomStart m < 0
              then m\<lparr>co_zoomStart := max 0 (int (length (co_hist m)) - 60), co_status := ''zoom: 60s window''\<rparr>
              else m\<lparr>co_zoomStart := -1, co_status := ''zoom: all''\<rparr>))
         else Some (m, r, [], []))
      else if s = ''left'' \<or> s = ''h'' then
        (if co_activeTab m = AutoscalingTab \<and> 0 < co_zoomStart m
         then unchanged r (setVPContent env (m\<lparr>co_zoomStart := max 0 (co_zoomStart m - 10)\<rparr>))
         else Some (m, r, [], []))
      else if s = ''right'' \<or> s = ''l'' then
        (if co_activeTab m = AutoscalingTab \<and> 0 \<le> co_zoomStart m
         then unchanged r (setVPContent env
           (m\<lparr>co_zoomStart := min (co_zoomStart m + 10) (max 0 (int (length (co_hist m)) - 1))\<rparr>))
         else Some (m, r, [], []))
      else if s = ''r'' then Some (m\<lparr>co_status := ''refreshing'' @ ellipsis\<rparr>, r, [], [Fetch])
      else if s = ''a'' then
        Some (m\<lparr>co_inputMode := ''add'', co_inputValue := '''',
          co_status := ''enter worker address (host:port), then Enter''\<rparr>, r, [], [])
      else if s = ''d'' then drain_selected m r
      else if s = ''x'' then remove_selected env m r
      else if s = ''s'' then (let (m, r) = cycleStrategy m r in Some (m, r, [], [Fetch]))
      else Some (m, r, [], []))"

definition confirm_input :: "console_env \<Rightarrow> console \<Rightarrow> Router \<Rightarrow> console_result" where
  "confirm_input env m r =
     (if co_inputMode m = ''add'' then
        let addr = TrimSpace (co_inputValue m) in
        if addr = '''' then Some (m\<lparr>co_lastError := ''address cannot be empty''\<rparr>, r, [], [])
        else
          let (err, r) = AddWorker (ke_dial env) addr r;
              m = (case err of
                     Some e \<Rightarrow> m\<lparr>co_lastError := error_text e\<rparr>
                   | None \<Rightarrow> m\<lparr>co_status := ''added '' @ addr, co_lastError := ''''\<rparr>)
          in Some (m\<lparr>co_inputMode := '''', co_inputValue := ''''\<rparr>, r, [], [Fetch])
      else Some (m\<lparr>co_inputMode := '''', co_inputValue := ''''\<rparr>, r, [], [Fetch]))"

definition handleInputMode :: "console_env \<Rightarrow> string \<Rightarrow> console \<Rightarrow> Router \<Rightarrow> console_result" where
  "handleInputMode env s m r =
     (if s = ''esc'' then Some (m\<lparr>co_inputMode := '''', co_inputValue := '''', co_status := ''cancelled''\<rparr>, r, [], [])
      else if s = ''enter'' then confirm_input env m r
      else if s = ''backspace'' then
        Some (if 0 < length (co_inputValue m) then m\<lparr>co_inputValue := butlast (co_inputValue m)\<rparr> else m, r, [], [])
      else if length s = 1 then Some (m\<lparr>co_inputValue := co_inputValue m @ s\<rparr>, r, [], [])
      else Some (m, r, [], []))"

fun console_Update :: "console_env \<Rightarrow> console_msg \<Rightarrow> console \<Rightarrow> Router \<Rightarrow> console_result" where
  "console_Update env (Resize w h) m r = unchanged r (resize env w h m)"
| "console_Update env ConsoleTick m r = Some (m, r, [], [Fetch, TickAfter (co_tickEvery m)])"
| "console_Update env (Refresh s) m r = unchanged r (refresh env s m)"
| "console_Update env (ConsoleKey s) m r =
     (if co_inputMode m \<noteq> '''' then handleInputMode env s m r else handleKey env s m r)"
| "console_Update env Mouse m r = Some (m, r, [], [])"

text \<open>What \<open>Fetch\<close> reads, the registries' iteration order given by \<open>ks\<close>.\<close>

definition fetchSnapshot :: "string list \<Rightarrow> time \<Rightarrow> world \<Rightarrow> Monitor \<Rightarrow> console \<Rightarrow> Autoscaler \<Rightarrow> snapshot \<times> Autoscaler" where
  "fetchSnapshot ks now wd mon m s =
     (let (ws, r) = WorkersSnapshot ks (as_router s);
          s = s\<lparr>as_router := r\<rparr>;
          (auto, s) = (if has_autoscaler r then AS_Snapshot wd s else (zero_autoscaling, s))
      in (\<lparr>sn_workers = ws, sn_agents = sort_key as_AgentID (AgentsSnapshot r),
           sn_inflight = sort_key if_StartedAt (GetAll (inflight r)), sn_logs = LogSnapshot 500 mon,
           sn_events = EventsSnapshot 500 mon, sn_recent = Recent 300 (inflight r), sn_strategy = get_Strategy r,
           sn_autoscaling = auto, sn_startupStats = GetStartupStats r, sn_uptime = time_sub now (co_start m)\<rparr>, s))"


section \<open>The frame\<close>

lemma Split_nonempty [simp]: "Split x s \<noteq> []"
  by (induction s) (auto split: list.split)

lemma Split_parts: "l \<in> set (Split x s) \<Longrightarrow> x \<notin> set l"
proof (induction s arbitrary: l)
  case (Cons c s)
  then show ?case by (cases "Split x s") (auto split: if_splits)
qed simp

lemma Split_append: "x \<notin> set l \<Longrightarrow> Split x (l @ x # s) = l # Split x s"
  by (induction l) (auto split: list.split)

lemma Split_part: "x \<notin> set l \<Longrightarrow> Split x l = [l]"
  by (induction l) (auto split: list.split)

lemma Split_Join: "ls \<noteq> [] \<Longrightarrow> \<forall>l \<in> set ls. CHR 0x0A \<notin> set l \<Longrightarrow> Split CHR 0x0A (Join newline ls) = ls"
  by (induction newline ls rule: Join.induct) (auto simp: newline_def Split_append Split_part)

text \<open>A frame of the master's interface has exactly as many lines as the terminal, whatever the views
  compose: shorter content is padded with blank lines, longer content is cut and keeps its first lines.\<close>

theorem frame_height:
  assumes "0 < h" and "0 \<le> w"
  shows "\<exists>t. fit_height w h content = Some t \<and> int (length (Split CHR 0x0A t)) = h \<and>
    take (length (Split CHR 0x0A content)) (Split CHR 0x0A t) = take (nat h) (Split CHR 0x0A content)"
proof -
  let ?ls = "Split CHR 0x0A content"
  have nl: "\<forall>l \<in> set ?ls. CHR 0x0A \<notin> set l" using Split_parts by blast
  consider "int (length ?ls) < h" | "h < int (length ?ls)" | "int (length ?ls) = h" by linarith
  then show ?thesis
  proof cases
    case 1
    define b where "b = concat (replicate (nat w) '' '')"
    have b: "Repeat '' '' w = Some b" "CHR 0x0A \<notin> set b" using assms(2) by (simp_all add: Repeat_def b_def)
    have "Split CHR 0x0A (Join newline (?ls @ replicate (nat h - length ?ls) b)) = ?ls @ replicate (nat h - length ?ls) b"
      using nl b(2) by (intro Split_Join) auto
    then show ?thesis using 1 assms(1) by (simp add: fit_height_def Let_def b(1))
  next
    case 2
    have "Split CHR 0x0A (Join newline (take (nat h) ?ls)) = take (nat h) ?ls"
      using nl assms(1) by (intro Split_Join) (auto dest: in_set_takeD)
    then show ?thesis using 2 assms(1) by (simp add: fit_height_def Let_def)
  next
    case 3
    then show ?thesis by (auto simp: fit_height_def)
  qed
qed

theorem frame_height_witness:
  "\<exists>t. fit_height 80 24 (''header'' @ newline @ ''body'') = Some t \<and> length (Split CHR 0x0A t) = 24"
  using frame_height [of 24 80 "''header'' @ newline @ ''body''"] by auto

section \<open>No panics on a terminal that is wide enough\<close>

interpretation console_log: sliding_log push_hist co_hist "\<lambda>_. True" 180 180
  by unfold_locales (simp_all add: push_hist_def push_trim_def lastn_def maxHistory_def Let_def)

definition wide :: "console \<Rightarrow> bool" where
  "wide m \<longleftrightarrow> co_width m \<le> 0 \<or> 38 \<le> co_width m"

definition console_ok :: "console \<Rightarrow> bool" where
  "console_ok m \<longleftrightarrow> 0 \<le> co_selected m \<and> co_selected m \<le> max 0 (int (length (sn_workers (co_snap m))) - 1) \<and>
     length (co_hist m) \<le> 180 \<and> -1 \<le> co_zoomStart m \<and> co_zoomStart m \<le> max 0 (int (length (co_hist m)) - 1)"

lemma wide_gap: "wide m \<Longrightarrow> 0 \<le> graphWidth m - 32"
  by (auto simp: wide_def graphWidth_def usableWidth_def Let_def)

lemma wide_renders: "wide m \<Longrightarrow> renderBody env m"
  using renderBody_or_actions [of env m] action_rows_total [OF wide_gap] by blast

lemma wide_setVPContent: "wide m \<Longrightarrow> setVPContent env m = Some m"
  by (simp add: setVPContent_def wide_renders)

lemma push_hist_fields [simp]:
  "co_selected (push_hist p m) = co_selected m" "co_snap (push_hist p m) = co_snap m"
  "co_zoomStart (push_hist p m) = co_zoomStart m" "co_width (push_hist p m) = co_width m"
  by (simp_all add: push_hist_def Let_def)

lemma push_hist_length: "length (co_hist m) \<le> 180 \<Longrightarrow> length (co_hist (push_hist p m)) = min 180 (length (co_hist m) + 1)"
  by (simp add: push_hist_def maxHistory_def Let_def)

lemma refresh_ok:
  assumes "wide m" and "console_ok m"
  shows "\<exists>m'. refresh env s m = Some m' \<and> console_ok m' \<and> wide m'"
proof -
  let ?m1 = "m\<lparr>co_snap := s\<rparr>"
  define m2 where "m2 = (if int (length (sn_workers s)) \<le> co_selected m
    then ?m1\<lparr>co_selected := max 0 (int (length (sn_workers s)) - 1)\<rparr> else ?m1)"
  define p where "p = \<lparr>hp_queueDepth = QueueDepth (metrics_of s), hp_utilization = WorkerUtilization (metrics_of s),
    hp_latency = P95Latency (metrics_of s), hp_rps = RequestsPerSec (metrics_of s), hp_time = ke_now env\<rparr>"
  define m3 where "m3 = push_hist p m2"
  define m4 where "m4 = (if 0 \<le> co_zoomStart m3 \<and> int (length (co_hist m3)) \<le> co_zoomStart m3
    then m3\<lparr>co_zoomStart := max 0 (int (length (co_hist m3)) - 1)\<rparr> else m3)"
  have 2: "co_snap m2 = s" "co_hist m2 = co_hist m" "co_zoomStart m2 = co_zoomStart m" "co_width m2 = co_width m"
      "0 \<le> co_selected m2" "co_selected m2 \<le> max 0 (int (length (sn_workers s)) - 1)"
    using assms(2) by (auto simp: m2_def console_ok_def)
  have h: "length (co_hist m3) \<le> 180" using assms(2) by (simp add: m3_def push_hist_length 2 console_ok_def)
  have ok: "console_ok m4" "wide m4"
    using assms 2 h by (auto simp: m4_def m3_def console_ok_def wide_def)
  have e: "(if int (length (sn_workers (co_snap ?m1))) \<le> co_selected ?m1
    then ?m1\<lparr>co_selected := max 0 (int (length (sn_workers (co_snap ?m1))) - 1)\<rparr> else ?m1) = m2"
    by (simp add: m2_def)
  have "refresh env s m = setVPContent env m4"
    unfolding refresh_def Let_def e m4_def m3_def p_def 2(1) by (rule refl)
  then show ?thesis using ok wide_setVPContent by simp
qed

text \<open>The session of an operator: any messages, any outcomes of the calls they make, on any well-formed
  router, which the rest of the cluster may have changed in between. The window is never one or two
  characters wide only: its size is unknown, or it has at least 38 columns.\<close>

definition wide_msg :: "console_msg \<Rightarrow> bool" where
  "wide_msg e \<longleftrightarrow> (case e of Resize w _ \<Rightarrow> w \<le> 0 \<or> 38 \<le> w | _ \<Rightarrow> True)"

text \<open>What one message may do to the master: nothing, or one operator's command.\<close>

inductive operator_step :: "Router \<Rightarrow> Router \<Rightarrow> goroutine list \<Rightarrow> bool" where
  nothing: "operator_step r r []"
| add: "AddWorker dial addr r = (err, s) \<Longrightarrow> operator_step r s []"
| remove: "RemoveWorker e k r = (err, s, gs) \<Longrightarrow> operator_step r s gs"
| drain: "DrainWorker k r = (err, gs) \<Longrightarrow> operator_step r r gs"
| strategy: "x \<in> {StrategyLeastConnections, StrategyRoundRobin, StrategyRandom} \<Longrightarrow> operator_step r (SetStrategy x r) []"

lemma operator_cluster: "operator_step (router c) s gs \<Longrightarrow> upd s gs c = c \<or> cluster_step c (upd s gs c)"
  by (cases rule: operator_step.cases) (auto simp: upd_same intro: cluster_step.intros)

definition safe_result :: "Router \<Rightarrow> console_result \<Rightarrow> bool" where
  "safe_result r out \<longleftrightarrow>
     (case out of None \<Rightarrow> False | Some (m, s, gs, cs) \<Rightarrow> console_ok m \<and> wide m \<and> operator_step r s gs)"

lemma safe_Some [simp]:
  "safe_result r (Some (m, s, gs, cs)) \<longleftrightarrow> console_ok m \<and> wide m \<and> operator_step r s gs"
  by (simp add: safe_result_def)

lemma same_router [simp]: "operator_step r r []"
  by (rule operator_step.nothing)

lemma safe_unchanged [simp]: "safe_result r (unchanged r (Some m)) \<longleftrightarrow> console_ok m \<and> wide m"
  by (simp add: unchanged_def)

lemma wide_update [simp]:
  "wide (m\<lparr>co_status := x\<rparr>) = wide m" "wide (m\<lparr>co_lastError := x\<rparr>) = wide m" "wide (m\<lparr>co_inputMode := x\<rparr>) = wide m"
  "wide (m\<lparr>co_inputValue := x\<rparr>) = wide m" "wide (m\<lparr>co_activeTab := t\<rparr>) = wide m" "wide (m\<lparr>co_selected := i\<rparr>) = wide m"
  "wide (m\<lparr>co_zoomStart := i\<rparr>) = wide m"
  by (simp_all add: wide_def)

lemma ok_update [simp]:
  "console_ok (m\<lparr>co_status := x\<rparr>) = console_ok m" "console_ok (m\<lparr>co_lastError := x\<rparr>) = console_ok m"
  "console_ok (m\<lparr>co_inputMode := x\<rparr>) = console_ok m" "console_ok (m\<lparr>co_inputValue := x\<rparr>) = console_ok m"
  "console_ok (m\<lparr>co_activeTab := t\<rparr>) = console_ok m"
  by (simp_all add: console_ok_def)

lemma reported_ok [simp]: "console_ok (reported e x m) = console_ok m" "wide (reported e x m) = wide m"
  by (simp_all add: reported_def split: option.split)

lemma cycle_safe:
  assumes "console_ok m" and "wide m" and "cycleStrategy m r = (m', r')"
  shows "console_ok m' \<and> wide m' \<and> operator_step r r' []"
  using assms operator_step.strategy by (auto simp: cycleStrategy_def Let_def split: if_splits)

lemma selected_Some: "console_ok m \<Longrightarrow> 0 < length (sn_workers (co_snap m)) \<Longrightarrow> \<exists>w. selected_worker m = Some w"
  by (auto simp: selected_worker_def console_ok_def)

lemma drain_selected_safe: "console_ok m \<Longrightarrow> wide m \<Longrightarrow> safe_result r (drain_selected m r)"
  using selected_Some [of m] operator_step.drain by (auto simp: drain_selected_def split: prod.split)

lemma remove_selected_safe: "console_ok m \<Longrightarrow> wide m \<Longrightarrow> safe_result r (remove_selected env m r)"
  using selected_Some [of m] operator_step.remove [of "ke_close env" _ r]
  by (auto simp: remove_selected_def split: prod.split)

lemma confirm_safe: "console_ok m \<Longrightarrow> wide m \<Longrightarrow> safe_result r (confirm_input env m r)"
  by (auto simp: confirm_input_def Let_def split: prod.split option.split intro: operator_step.add)

lemma input_safe: "console_ok m \<Longrightarrow> wide m \<Longrightarrow> safe_result r (handleInputMode env s m r)"
  by (simp add: handleInputMode_def confirm_safe)

lemma safe_if:
  "(c \<Longrightarrow> safe_result r a) \<Longrightarrow> (\<not> c \<Longrightarrow> safe_result r b) \<Longrightarrow> safe_result r (if c then a else b)"
  by simp

lemma switchTab_safe: "console_ok m \<Longrightarrow> wide m \<Longrightarrow> safe_result r (unchanged r (switchTab env t m))"
  by (simp add: switchTab_def Let_def wide_renders)

lemma select_safe:
  "console_ok m \<Longrightarrow> wide m \<Longrightarrow> 0 < co_selected m \<Longrightarrow>
     safe_result r (unchanged r (setVPContent env (m\<lparr>co_selected := co_selected m - 1\<rparr>)))"
  "console_ok m \<Longrightarrow> wide m \<Longrightarrow> co_selected m < int (length (sn_workers (co_snap m))) - 1 \<Longrightarrow>
     safe_result r (unchanged r (setVPContent env (m\<lparr>co_selected := co_selected m + 1\<rparr>)))"
  by (simp_all add: wide_setVPContent console_ok_def)

lemma zoom_safe:
  assumes "console_ok m" and "wide m" and "-1 \<le> z" and "z \<le> max 0 (int (length (co_hist m)) - 1)"
  shows "safe_result r (unchanged r (setVPContent env (m\<lparr>co_zoomStart := z, co_status := t\<rparr>)))"
    and "safe_result r (unchanged r (setVPContent env (m\<lparr>co_zoomStart := z\<rparr>)))"
  using assms by (simp_all add: wide_setVPContent) (simp_all add: console_ok_def)

lemma zoom_key_safe: "console_ok m \<Longrightarrow> wide m \<Longrightarrow> safe_result r (unchanged r (setVPContent env
    (if co_zoomStart m < 0 then m\<lparr>co_zoomStart := max 0 (int (length (co_hist m)) - 60), co_status := t\<rparr>
     else m\<lparr>co_zoomStart := -1, co_status := u\<rparr>)))"
  by (simp add: zoom_safe)

lemma scroll_safe:
  assumes "console_ok m" and "wide m"
  shows "0 < co_zoomStart m \<Longrightarrow>
      safe_result r (unchanged r (setVPContent env (m\<lparr>co_zoomStart := max 0 (co_zoomStart m - 10)\<rparr>)))"
    and "0 \<le> co_zoomStart m \<Longrightarrow> safe_result r (unchanged r (setVPContent env
      (m\<lparr>co_zoomStart := min (co_zoomStart m + 10) (max 0 (int (length (co_hist m)) - 1))\<rparr>)))"
  using assms by (auto intro!: zoom_safe simp: console_ok_def)

lemma same_safe: "console_ok m \<Longrightarrow> wide m \<Longrightarrow> safe_result r (Some (m, r, [], cs))"
  by simp

lemma message_safe:
  assumes "console_ok m" and "wide m"
  shows "safe_result r (Some (m\<lparr>co_status := t\<rparr>, r, [], cs))"
    and "safe_result r (Some (m\<lparr>co_inputMode := i, co_inputValue := v, co_status := t\<rparr>, r, [], cs))"
    and "safe_result r (let (m, r) = cycleStrategy m r in Some (m, r, [], cs))"
  using assms cycle_safe [of m r] by (simp_all split: prod.split)

lemma handleKey_safe:
  assumes "console_ok m" and "wide m"
  shows "safe_result r (handleKey env s m r)"
proof -
  note leaf = same_safe [OF assms] message_safe [OF assms] switchTab_safe [OF assms] select_safe [OF assms]
    zoom_key_safe [OF assms] scroll_safe [OF assms] drain_selected_safe [OF assms] remove_selected_safe [OF assms]
  show ?thesis unfolding handleKey_def
    by (intro safe_if) (rule leaf; (elim conjE)?; assumption?)+
qed

lemma resize_safe: "console_ok m \<Longrightarrow> w \<le> 0 \<or> 38 \<le> w \<Longrightarrow> safe_result r (unchanged r (resize env w h m))"
proof -
  assume a: "console_ok m" "w \<le> 0 \<or> 38 \<le> w"
  let ?m = "m\<lparr>co_width := w, co_height := h, co_vpReady := True, co_vpWidth := w, co_vpHeight := vpHeight (m\<lparr>co_width := w, co_height := h\<rparr>)\<rparr>"
  have "wide ?m" using a(2) by (simp add: wide_def)
  moreover have "console_ok ?m" using a(1) by (simp add: console_ok_def)
  ultimately show ?thesis by (simp add: resize_def Let_def wide_renders)
qed

lemma Update_safe:
  assumes "console_ok m" and "wide m" and "wide_msg e"
  shows "safe_result r (console_Update env e m r)"
proof (cases e)
  case (Refresh s)
  then show ?thesis using refresh_ok [OF assms(2,1), of env s] by auto
qed (use assms in \<open>simp_all add: resize_safe wide_msg_def input_safe handleKey_safe\<close>)

inductive console_reach :: "console \<Rightarrow> bool" where
  start: "console_reach (NewModel t)"
| step: "console_reach m \<Longrightarrow> wide_msg e \<Longrightarrow> console_Update env e m r = Some (m', r', gs, cs) \<Longrightarrow> console_reach m'"

lemma console_reach_ok: "console_reach m \<Longrightarrow> console_ok m \<and> wide m"
proof (induction rule: console_reach.induct)
  case (start t)
  show ?case by (simp add: NewModel_def console_ok_def wide_def)
next
  case (step m e env r m' r' gs cs)
  then show ?case using Update_safe [of m e r env] by simp
qed

text \<open>C16. No session of the master's interface panics while the terminal has at least 38 columns (or an unknown
  width): whatever keys are pressed, whatever snapshots arrive and whatever the calls to the workers give,
  the handler returns, and what it does to the running master is nothing or one operator's command of the
  cluster model, so everything proved there holds under an operator. The selected row exists, the history
  has at most 180 points and the zoom starts inside it.\<close>

theorem console_safe:
  assumes "console_reach m" and "wide_msg e"
  shows "\<exists>m' r' gs cs. console_Update env e m (router c) = Some (m', r', gs, cs) \<and>
    (upd r' gs c = c \<or> cluster_step c (upd r' gs c)) \<and>
    0 \<le> co_selected m' \<and> co_selected m' \<le> max 0 (int (length (sn_workers (co_snap m'))) - 1) \<and>
    length (co_hist m') \<le> 180 \<and> -1 \<le> co_zoomStart m' \<and> co_zoomStart m' \<le> max 0 (int (length (co_hist m')) - 1)"
proof -
  have "safe_result (router c) (console_Update env e m (router c))"
    using console_reach_ok [OF assms(1)] assms(2) Update_safe by blast
  then obtain m' r' gs cs where u: "console_Update env e m (router c) = Some (m', r', gs, cs)" and
    ok: "console_ok m'" "operator_step (router c) r' gs"
    by (auto simp: safe_result_def split: option.splits)
  then show ?thesis using operator_cluster [OF ok(2)] by (simp add: console_ok_def)
qed

theorem console_safe_witness:
  "let c = boot example_scaler; r = SetStrategy StrategyRoundRobin (router c) in
   console_Update \<lparr>ke_now = 5, ke_dial = (\<lambda>_. None), ke_close = None, ke_text = (\<lambda>_. [])\<rparr> (ConsoleKey ''s'') (NewModel 0)
     (router c) = Some ((NewModel 0)\<lparr>co_status := ''strategy '' @ arrow @ '' round_robin''\<rparr>, r, [], [Fetch]) \<and>
   cluster_step c (upd r [] c)"
proof -
  let ?env = "\<lparr>ke_now = 5, ke_dial = (\<lambda>_. None), ke_close = None, ke_text = (\<lambda>_. [])\<rparr>" and ?c = "boot example_scaler"
  have s: "strategy (router ?c) = StrategyLeastConnections"
    by (simp add: boot_def router_def example_scaler_def NewAutoscaler_def example_router_def NewRouter_def)
  let ?r = "SetStrategy StrategyRoundRobin (router ?c)"
  have u: "console_Update ?env (ConsoleKey ''s'') (NewModel 0) (router ?c) =
      Some ((NewModel 0)\<lparr>co_status := ''strategy '' @ arrow @ '' round_robin''\<rparr>, ?r, [], [Fetch])"
    using s by (simp add: NewModel_def handleKey_def cycleStrategy_def get_Strategy_def)
  have "router (upd ?r [] ?c) \<noteq> router ?c"
    using s by (auto simp: SetStrategy_def StrategyLeastConnections_def StrategyRoundRobin_def dest: arg_cong [of _ _ strategy])
  then have "upd ?r [] ?c \<noteq> ?c" by metis
  moreover have "wide_msg (ConsoleKey ''s'')" by (simp add: wide_msg_def)
  ultimately show ?thesis using console_safe [OF start [of 0], of "ConsoleKey ''s''" ?env ?c] u by simp
qed

lemma renderBody_iff:
  "renderBody env m \<longleftrightarrow> \<not> (co_activeTab m = AutoscalingTab \<and> recent_actions m \<noteq> [] \<and> 0 < co_width m \<and> co_width m < 38)"
proof (cases "wide m")
  case True
  then show ?thesis by (auto simp: wide_renders wide_def)
next
  case False
  then have "graphWidth m - 32 < 0" by (auto simp: wide_def graphWidth_def usableWidth_def Let_def)
  from action_rows_negative [OF this newest_nonempty [of 10 "recent_actions m"]]
  show ?thesis using False renderBody_or_actions [of env m] by (cases "recent_actions m = []") (auto simp: wide_def)
qed

text \<open>C20. Resizing the window panics in exactly one situation: the AutoScale tab is shown, the autoscaler has
  acted at least once, and the terminal has fewer than 38 columns. The reasons of the recent actions are then
  cut to a negative length.\<close>

theorem resize_panics:
  "console_Update env (Resize w h) m r = None \<longleftrightarrow>
     co_activeTab m = AutoscalingTab \<and> recent_actions m \<noteq> [] \<and> 0 < w \<and> w < 38"
  by (simp add: unchanged_def resize_def Let_def renderBody_iff recent_actions_def)

section \<open>The zoom, the strategy, the counts and the bars\<close>

text \<open>A console never leaves the zoom outside its history, so the graphs show the history from there on.\<close>

lemma graph_window_zoomed:
  "console_ok m \<Longrightarrow> 0 \<le> co_zoomStart m \<Longrightarrow> graph_window m = drop (nat (co_zoomStart m)) (co_hist m)"
  by (cases "co_hist m") (auto simp: console_ok_def graph_window_def)



text \<open>Three presses of \<open>s\<close> bring back the strategy, whichever of the three it was.\<close>

lemma cycle_thrice:
  assumes "known_strategy r"
  shows "snd (cycleStrategy m3 (snd (cycleStrategy m2 (snd (cycleStrategy m1 r))))) = r"
  using assms
  by (auto simp: known_strategy_def cycleStrategy_def get_Strategy_def SetStrategy_def StrategyLeastConnections_def
      StrategyRoundRobin_def StrategyRandom_def)

text \<open>The names of the states are in upper case: the header and the statistics count no worker at all.\<close>

lemma never_healthy: "header_healthy s = 0"
  by (simp add: header_healthy_def lifecycle_string_def filter_empty_conv split: LifecycleState.split)

lemma never_counted: "count_states ws a b c = (a, b, c)"
  by (induction ws arbitrary: a b c) (simp_all add: lifecycle_string_def split: LifecycleState.split)

text \<open>A bar always has its width, whatever the ratio: neither run of characters is negative.\<close>

lemma progressBar_fits:
  assumes "progressBar x n = (filled, unfilled)"
  shows "0 \<le> filled \<and> 0 \<le> unfilled \<and> filled + unfilled = max 10 n - 2"
proof -
  define k where "k = max 10 n - 2"
  define ratio where "ratio = (let y = (if x < 0 then 0 else x) in if 1 < y then 1 else y)"
  define cells where "cells = int_of_float (fmul ratio (float_of_int k))"
  have k: "(if n < 10 then 10 else n) - 2 = k" "0 \<le> k" by (simp_all add: k_def)
  have "0 \<le> ratio" by (simp add: ratio_def)
  then have "0 \<le> cells"
    unfolding cells_def fmul_def using k(2) by (intro int_of_float_nonneg fl_nonneg mult_nonneg_nonneg float_of_int_nonneg)
  moreover have "progressBar x n = (if k < cells then k else cells, k - (if k < cells then k else cells))"
    unfolding progressBar_def Let_def k(1) cells_def ratio_def by (rule refl)
  ultimately show ?thesis using assms k(2) by (auto simp: k_def split: if_splits)
qed

end
