(* ===== verification/Console_Text.thy ===== *)
theory Console_Text
  imports Terminal Console
begin

text \<open>
  The text of the master's terminal interface: the sections and tables of each tab (\<open>views.go\<close>, \<open>autoscaling.go\<close>,
  \<open>helpers.go\<close>) built from the rows of \<open>Console_Views\<close>, and the header, tab bar and footer around them
  (\<open>chrome.go\<close>), up to the frame that \<open>View\<close> of \<open>model.go\<close> returns. \<open>None\<close> is a panic.
\<close>

section \<open>Design tokens\<close>

definition clrBg :: string where "clrBg = ''#0d1117''"
definition clrSurface :: string where "clrSurface = ''#161b22''"
definition clrBorder :: string where "clrBorder = ''#30363d''"
definition clrAccent :: string where "clrAccent = ''#58a6ff''"
definition clrMuted :: string where "clrMuted = ''#8b949e''"
definition clrText :: string where "clrText = ''#e6edf3''"
definition clrGreen :: string where "clrGreen = ''#3fb950''"
definition clrYellow :: string where "clrYellow = ''#e3b341''"
definition clrRed :: string where "clrRed = ''#f85149''"
definition clrOrange :: string where "clrOrange = ''#db6d28''"
definition clrCyan :: string where "clrCyan = ''#79c0ff''"
definition clrPurple :: string where "clrPurple = ''#bc8cff''"

abbreviation fg :: "terminal \<Rightarrow> string \<Rightarrow> string \<Rightarrow> string" where
  "fg T clr \<equiv> tm_render T [Foreground clr]"

abbreviation blanks :: "nat \<Rightarrow> string" where
  "blanks n \<equiv> replicate n CHR '' ''"

section \<open>Sections\<close>

definition rule_line :: "terminal \<Rightarrow> int \<Rightarrow> string option" where
  "rule_line T width =
     (let width = (if width \<le> 0 then 80 else width)
      in do { d \<leftarrow> Repeat (encode_rune 0x2500) width; Some (fg T clrBorder d @ newline) })"

definition sectionTitle :: "terminal \<Rightarrow> string \<Rightarrow> string \<Rightarrow> int \<Rightarrow> string option" where
  "sectionTitle T title meta width =
     (let t = tm_render T [Bold, Foreground clrAccent] title;
          m = (if meta \<noteq> '''' then ''  '' @ fg T clrMuted meta else '''')
      in do { r \<leftarrow> rule_line T width; Some (newline @ ''  '' @ t @ m @ newline @ r) })"

definition empty_note :: "terminal \<Rightarrow> string \<Rightarrow> string" where
  "empty_note T msg = ''  '' @ tm_render T [Foreground clrMuted, Italic] msg @ newline"

definition kv :: "terminal \<Rightarrow> string \<Rightarrow> string \<Rightarrow> string \<Rightarrow> string" where
  "kv T label val clr = fg T clrMuted (pad_right 24 label) @ tm_render T [Foreground clr, Bold] val"

definition lifecycle_colour :: "string \<Rightarrow> string" where
  "lifecycle_colour state =
     (if state = ''healthy'' then clrGreen else if state = ''starting'' then clrYellow
      else if state = ''warming'' then clrCyan else if state = ''draining'' then clrOrange
      else if state = ''stopping'' \<or> state = ''dead'' then clrRed else clrMuted)"

section \<open>Workers and agents\<close>

definition worker_line :: "terminal \<Rightarrow> WorkerSnapshot \<Rightarrow> (bool \<times> string \<times> string \<times> string \<times> int \<times> string) \<Rightarrow> string" where
  "worker_line T w row =
     (case row of (selected, i, addr, state, n, agent) \<Rightarrow>
        let cursor = (if selected then encode_rune 0x25B6 @ '' '' else ''  '');
            bg = (if selected then [Background ''#1c2431''] else []);
            state = tm_render T [Foreground (lifecycle_colour (lifecycle_string (ws_Lifecycle w))), Bold, CellWidth 10] state;
            active = fg T clrYellow (pad_left 7 (itoa n));
            agent = (if ws_AgentID w = '''' then tm_render T [Foreground clrMuted, Italic] agent else agent)
        in tm_render T bg (''  '' @ cursor @ pad_right 24 i @ ''  '' @ pad_right 20 addr @ ''  '' @ state @ ''  '' @
             active @ ''  '' @ agent) @ newline)"

definition workers_text :: "terminal \<Rightarrow> console \<Rightarrow> string option" where
  "workers_text T m =
     (let w = usableWidth m; ws = sn_workers (co_snap m);
          hdr = ''  '' @ pad_right 2 '''' @ ''  '' @ pad_right 24 ''ID'' @ ''  '' @ pad_right 20 ''Address'' @ ''  '' @
            pad_right 10 ''State'' @ ''  '' @ pad_left 7 ''Active'' @ ''  Agent''
      in do { t \<leftarrow> sectionTitle T ''Workers'' (itoa (int (length ws)) @ '' total'') w; r \<leftarrow> rule_line T w;
              rows \<leftarrow> renderWorkers m;
              Some (t @ fg T clrMuted hdr @ newline @ r @ concat (map2 (worker_line T) ws rows) @
                (if length ws = 0 then empty_note T ''No workers registered'' else '''')) })"

definition agent_line :: "string \<times> string \<times> int \<times> duration \<Rightarrow> string" where
  "agent_line row = (case row of (i, addr, n, uptime) \<Rightarrow>
     ''  '' @ pad_right 30 i @ ''  '' @ pad_right 24 addr @ ''  '' @ pad_left 8 (itoa n) @ ''  '' @ Duration_String uptime @ newline)"

definition member_line :: "terminal \<Rightarrow> bool \<Rightarrow> WorkerSnapshot \<Rightarrow> (string \<times> string \<times> int) \<Rightarrow> string" where
  "member_line T final w row = (case row of (addr, state, n) \<Rightarrow>
     let con = (if final then encode_rune 0x2514 else encode_rune 0x251C) @ encode_rune 0x2500;
         state = fg T (lifecycle_colour (lifecycle_string (ws_Lifecycle w))) state
     in ''    '' @ con @ '' '' @ pad_right 26 addr @ ''  '' @ pad_right 12 state @ ''  active='' @ itoa n @ newline)"

definition group_text :: "terminal \<Rightarrow> WorkerSnapshot list \<Rightarrow> string \<times> (string \<times> string \<times> int) list \<Rightarrow> string" where
  "group_text T ws g = (case g of (label, rows) \<Rightarrow>
     ''  '' @ tm_render T [Foreground clrCyan, Bold] label @ ''  '' @ encode_rune 0x2014 @ ''  '' @ itoa (int (length ws)) @
       '' worker(s)'' @ newline @
     concat (map (\<lambda>(j, w, row). member_line T (int j = int (length ws) - 1) w row) (enumerate 0 (zip ws rows))))"

definition agents_text :: "terminal \<Rightarrow> time \<Rightarrow> console \<Rightarrow> string option" where
  "agents_text T now m =
     (let w = usableWidth m; s = co_snap m; as = sn_agents s;
          hdr = ''  '' @ pad_right 30 ''Agent ID'' @ ''  '' @ pad_right 24 ''Address'' @ ''  '' @ pad_left 8 ''Workers'' @
            ''  Uptime'' @ newline
      in do { t \<leftarrow> sectionTitle T ''Agents'' (itoa (int (length as)) @ '' registered'') w; r \<leftarrow> rule_line T w;
              t2 \<leftarrow> sectionTitle T ''Workers by Agent'' '''' w; (rows, groups) \<leftarrow> renderAgents now s;
              Some (t @ fg T clrMuted hdr @ r @ concat (map agent_line rows) @
                (if length as = 0 then empty_note T ''No agents registered'' else '''') @ newline @ t2 @
                concat (map2 (group_text T) (map snd (agent_groups s)) groups) @
                (if length (sn_workers s) = 0 \<and> length as = 0 then empty_note T ''No workers or agents'' else '''')) })"

section \<open>Requests and logs\<close>

definition speed_colour :: "speed \<Rightarrow> string" where
  "speed_colour v = (case v of Slow \<Rightarrow> clrRed | Noticeable \<Rightarrow> clrYellow | Fast \<Rightarrow> clrGreen)"

definition request_header :: "string \<Rightarrow> string" where
  "request_header column = ''  '' @ pad_right 36 ''Request ID'' @ ''  '' @ pad_right 22 ''Worker'' @ ''  '' @ pad_left 10 column @ newline"

definition inflight_text :: "terminal \<Rightarrow> time \<Rightarrow> console \<Rightarrow> string option" where
  "inflight_text T now m =
     (let w = usableWidth m; s = co_snap m
      in do { t \<leftarrow> sectionTitle T ''In-Flight Requests'' (itoa (int (length (sn_inflight s))) @ '' active'') w;
              r \<leftarrow> rule_line T w;
              t2 \<leftarrow> sectionTitle T ''Recent Completed'' (''last '' @ itoa (min 25 (int (length (sn_recent s))))) w;
              (active, completed) \<leftarrow> renderInflight now s;
              Some (t @ fg T clrMuted (request_header ''Elapsed'') @ r @
                concat (map (\<lambda>(i, wk, el, v). ''  '' @ pad_right 36 i @ ''  '' @ pad_right 22 wk @ ''  '' @
                  fg T (speed_colour v) (pad_left 10 (Duration_String el)) @ newline) active) @
                (if length (sn_inflight s) = 0 then empty_note T ''No requests in flight'' else '''') @ newline @ t2 @
                fg T clrMuted (request_header ''Duration'') @ r @
                concat (map (\<lambda>(i, wk, d). ''  '' @ pad_right 36 i @ ''  '' @ pad_right 22 wk @ ''  '' @
                  pad_left 10 (Duration_String d) @ newline) completed) @
                (if length (sn_recent s) = 0 then empty_note T ''No completed requests yet'' else '''')) })"

definition log_line_text :: "terminal \<Rightarrow> (string \<Rightarrow> string) \<Rightarrow> (string \<Rightarrow> string) \<Rightarrow> log_row \<Rightarrow> string" where
  "log_line_text T place body row = (case row of
     Entry t p l \<Rightarrow> ''  '' @ fg T clrMuted (tm_clock T ''15:04:05'' t) @ ''  '' @ place p @ ''  '' @ body l @ newline
   | Continued l \<Rightarrow> ''  '' @ blanks 8 @ ''  '' @ blanks 14 @ ''  '' @ body l @ newline)"

definition logs_text :: "terminal \<Rightarrow> console \<Rightarrow> string option" where
  "logs_text T m =
     (let n = int (length (sn_logs (co_snap m)))
      in do { t \<leftarrow> sectionTitle T ''System Logs'' (itoa n @ '' entries (scroll '' @ encode_rune 0x2191 @ encode_rune 0x2193 @ '')'') (usableWidth m);
              rows \<leftarrow> renderLogs m;
              Some (t @ concat (map (log_line_text T (\<lambda>p. tm_render T [Foreground clrCyan, CellWidth 14] p) (\<lambda>l. l)) rows) @
                (if n = 0 then empty_note T ''No logs yet'' else '''')) })"

definition events_text :: "terminal \<Rightarrow> console \<Rightarrow> string option" where
  "events_text T m =
     (let n = int (length (sn_events (co_snap m)))
      in do { t \<leftarrow> sectionTitle T ''System Notifications'' (itoa n @ '' events (scroll '' @ encode_rune 0x2191 @ encode_rune 0x2193 @ '')'') (usableWidth m);
              rows \<leftarrow> renderEvents m;
              Some (t @ concat (map (log_line_text T
                  (\<lambda>p. tm_render T [Foreground clrPurple, Bold, CellWidth 14] (''['' @ p @ '']'')) (fg T clrText)) rows) @
                (if n = 0 then empty_note T ''No system notifications yet'' else '''')) })"

section \<open>Statistics\<close>

definition tree_label :: "bool \<Rightarrow> string \<Rightarrow> string" where
  "tree_label final l = ''  '' @ encode_rune (if final then 0x2514 else 0x251C) @ '' '' @ l"

definition stats_left :: "terminal \<Rightarrow> snapshot \<Rightarrow> stats_view \<Rightarrow> string list" where
  "stats_left T s v =
     (case (sv_states v, sv_totals v) of ((healthy, draining, starting), (active, fails, success)) \<Rightarrow>
       [kv T ''Total Workers'' (itoa (sv_workers v)) clrText,
        kv T (tree_label False ''Healthy'') (itoa healthy) clrGreen,
        kv T (tree_label False ''Starting/Warming'') (itoa starting) clrYellow,
        kv T (tree_label True ''Draining'') (itoa draining) clrOrange,
        '''',
        kv T ''Agents'' (itoa (int (length (sn_agents s)))) clrText,
        kv T ''In-Flight'' (itoa (sv_inflight v)) clrText,
        kv T ''Active Requests'' (itoa active) clrYellow,
        kv T ''Strategy'' (sn_strategy s) clrPurple,
        kv T ''Uptime'' (Duration_String (Round (sn_uptime s) second)) clrMuted])"

definition stats_right :: "terminal \<Rightarrow> stats_view \<Rightarrow> string list" where
  "stats_right T v =
     (case sv_totals v of (active, fails, success) \<Rightarrow>
       [kv T ''Successes'' (itoa success) clrGreen, kv T ''Failures'' (itoa fails) clrRed] @
       (case sv_latency v of None \<Rightarrow> []
        | Some b \<Rightarrow> ['''', kv T ''Avg Latency'' (fixed 3 (lb_avg b) @ ''s'') clrText,
            kv T ''P95 Latency'' (fixed 3 (lb_p95 b) @ ''s'') clrText, kv T ''Samples'' (itoa (lb_samples b)) clrMuted]))"

definition nth_or_empty :: "string list \<Rightarrow> nat \<Rightarrow> string" where
  "nth_or_empty xs i = (if i < length xs then xs ! i else '''')"

definition stats_text :: "terminal \<Rightarrow> console \<Rightarrow> string option" where
  "stats_text T m =
     (let w = usableWidth m; s = co_snap m; col = (w - 4) sdiv 2
      in do { t \<leftarrow> sectionTitle T ''Cluster Overview'' '''' w; t2 \<leftarrow> sectionTitle T ''Agents'' '''' w; v \<leftarrow> renderStats s;
              let left = stats_left T s v; right = stats_right T v
              in Some (t @ concat (map (\<lambda>i. ''  '' @ tm_render T [CellWidth col] (nth_or_empty left i) @ ''  '' @ nth_or_empty right i @ newline)
                    [0 ..< max (length left) (length right)]) @ newline @ t2 @
                  concat (map (\<lambda>(i, addr, n). ''  '' @ pad_right 32 i @ ''  '' @ pad_right 24 addr @ ''  workers='' @ itoa n @ newline) (sv_agents v)) @
                  (if length (sn_agents s) = 0 then empty_note T ''No agents'' else '''')) })"

section \<open>AutoScale tab\<close>

text \<open>The strings of a bar and of the band, from their cells.\<close>

definition bar_text :: "terminal \<Rightarrow> float64 \<Rightarrow> int \<Rightarrow> string option" where
  "bar_text T ratio width =
     (let (filled, unfilled) = progressBar ratio width;
          ratio = (if ratio < 0 then 0 else ratio);
          ratio = (if 1 < ratio then 1 else ratio);
          clr = (if fl (8/10) < ratio then clrRed else if fl (5/10) < ratio then clrYellow else clrGreen)
      in do { f \<leftarrow> Repeat (encode_rune 0x2588) filled; e \<leftarrow> Repeat (encode_rune 0x2591) unfilled;
              Some (fg T clrBorder ''['' @ fg T clr f @ fg T clrBorder e @ fg T clrBorder '']'') })"

definition cell_text :: "terminal \<Rightarrow> band_cell \<Rightarrow> string" where
  "cell_text T c = (case c of
     Marker \<Rightarrow> tm_render T [Foreground clrText, Bold] (encode_rune 0x25C6)
   | BelowDown \<Rightarrow> fg T ''#58a6ff'' (encode_rune 0xB7)
   | Between \<Rightarrow> fg T clrYellow (encode_rune 0x2592)
   | AboveUp \<Rightarrow> fg T clrRed (encode_rune 0x2593))"

definition band_text :: "terminal \<Rightarrow> AutoscalerConfig \<Rightarrow> float64 \<Rightarrow> int \<Rightarrow> string" where
  "band_text T cfg util width =
     fg T clrBorder ''['' @ concat (map (cell_text T) (hysteresisBand cfg util width)) @ fg T clrBorder '']'' @
     fg T clrMuted (''  '' @ encode_rune 0x2193 @ percent 0 (ScaleDownThreshold cfg) @ ''  tgt'' @
       percent 0 (TargetUtilization cfg) @ ''  '' @ encode_rune 0x2191 @ percent 0 (ScaleUpThreshold cfg))"

definition metricPill :: "terminal \<Rightarrow> string \<Rightarrow> string \<Rightarrow> string \<Rightarrow> string" where
  "metricPill T label val clr = fg T clrMuted (label @ '':'') @ '' '' @ tm_render T [Foreground clr, Bold] val"

definition renderStatusBar :: "terminal \<Rightarrow> (reason \<Rightarrow> string) \<Rightarrow> AutoscalerSnapshot \<Rightarrow> string" where
  "renderStatusBar T txt a =
     (let mets = snap_Metrics a; d = snap_ScalingDecision a;
          decisionBg = (if d = ''scale_up'' then clrRed else if d = ''scale_down'' then clrYellow else clrGreen);
          decision = tm_render T [Bold, Foreground ''#0d1117'', Background decisionBg, Padding 0 2] ('' '' @ ToUpper d @ '' '');
          warnings = (if detectOscillation (snap_RecentActions a)
              then '' '' @ tm_render T [Bold, Foreground clrRed] (encode_rune 0x26A0 @ '' OSCILLATING'') else '''') @
            (if detectOverscaling (snap_RecentActions a)
              then '' '' @ tm_render T [Bold, Foreground clrYellow] (encode_rune 0x26A0 @ '' OVERSCALING'') else '''');
          pillRow = Join ''  ''
            [metricPill T ''Workers'' (itoa (HealthyWorkers mets) @ ''/'' @ itoa (TotalWorkers mets)) clrGreen,
             metricPill T ''In-Flight'' (itoa (m_InFlight mets)) clrYellow,
             metricPill T ''Queue'' (fixed 0 (QueueDepth mets)) clrCyan,
             metricPill T ''RPS'' (fixed 1 (RequestsPerSec mets)) clrPurple,
             metricPill T ''P95'' (fixed 2 (P95Latency mets) @ ''s'') clrOrange,
             metricPill T ''Util'' (percent 0 (WorkerUtilization mets)) clrAccent];
          reasonClr = (if d = ''scale_up'' then clrRed else if d = ''scale_down'' then clrYellow else clrText);
          reason = ''  '' @ tm_render T [Foreground reasonClr, Italic] (txt (snap_DecisionReason a))
      in ''  '' @ decision @ warnings @ newline @ ''  '' @ pillRow @ reason @ newline)"

definition decisionRow :: "terminal \<Rightarrow> string \<Rightarrow> string \<Rightarrow> string \<Rightarrow> string" where
  "decisionRow T label bar val = ''  '' @ fg T clrMuted label @ ''  '' @ bar @ ''  '' @ fg T clrText val @ newline"

definition inactive_row :: "terminal \<Rightarrow> string \<Rightarrow> string" where
  "inactive_row T label = ''  '' @ fg T clrMuted label @ ''  '' @ fg T clrMuted ''inactive'' @ newline"

definition sustained_row :: "terminal \<Rightarrow> string \<Rightarrow> bool \<Rightarrow> time \<Rightarrow> time \<Rightarrow> duration \<Rightarrow> int \<Rightarrow> string option" where
  "sustained_row T label active now since limit barW =
     (if active then
        let elapsed = Round (time_sub now since) second
        in do { bar \<leftarrow> bar_text T (fdiv (float_of_int elapsed) (float_of_int limit)) barW;
                Some (decisionRow T label bar (Duration_String elapsed @ '' / '' @ Duration_String limit)) }
      else Some (inactive_row T label))"

definition panel_text :: "terminal \<Rightarrow> time \<Rightarrow> AutoscalerSnapshot \<Rightarrow> int \<Rightarrow> string option" where
  "panel_text T now a gw =
     (let cfg = snap_Config a; mets = snap_Metrics a; util = WorkerUtilization mets;
          barW = gw - 30; barW = (if barW < 20 then 20 else barW); cd = snap_CooldownRemaining a
      in do { b1 \<leftarrow> bar_text T util barW; b2 \<leftarrow> bar_text T (TargetUtilization cfg) barW;
              b3 \<leftarrow> bar_text T (ScaleUpThreshold cfg) barW; b4 \<leftarrow> bar_text T (ScaleDownThreshold cfg) barW;
              high \<leftarrow> sustained_row T (''High Load '' @ encode_rune 0x2191 @ ''  '') (snap_HighLoadSet a) now (snap_HighLoadSince a) (ScaleUpSustained cfg) barW;
              low \<leftarrow> sustained_row T (''Low Load '' @ encode_rune 0x2193 @ ''   '') (snap_LowLoadSet a) now (snap_LowLoadSince a) (ScaleDownSustained cfg) barW;
              Some (decisionRow T ''Current Util '' b1 (percent 1 util) @
                decisionRow T ''Target Util  '' b2 (percent 0 (TargetUtilization cfg)) @
                decisionRow T (''Scale-Up '' @ encode_rune 0x2191 @ ''   '') b3 (percent 0 (ScaleUpThreshold cfg)) @
                decisionRow T (''Scale-Down '' @ encode_rune 0x2193 @ '' '') b4 (percent 0 (ScaleDownThreshold cfg)) @
                ''  '' @ fg T clrMuted ''Hysteresis   '' @ ''  '' @ band_text T cfg util (barW + 12) @ newline @
                ''  '' @ fg T clrMuted ''Cooldown     '' @ ''  '' @
                (if 0 < cd then fg T clrRed (Duration_String (Round cd second) @ '' remaining'') else fg T clrGreen ''none (ready)'') @ newline @
                high @ low @
                ''  '' @ fg T clrMuted ''Workers      '' @ ''  '' @ tm_render T [Foreground clrText, Bold] (''desired='' @ itoa (snap_DesiredWorkers a)) @
                ''  '' @ fg T clrGreen (''healthy='' @ itoa (HealthyWorkers mets)) @ newline) })"

definition startup_text :: "terminal \<Rightarrow> StartupStats \<Rightarrow> string" where
  "startup_text T stats = (case renderStartupStats stats of
     None \<Rightarrow> empty_note T ''No startup data yet''
   | Some (avg, p95, failed, n) \<Rightarrow>
       ''  '' @ fg T clrMuted ''Avg:'' @ ''  '' @ tm_render T [Foreground clrGreen, Bold] (Duration_String avg) @
       ''   '' @ fg T clrMuted ''P95:'' @ ''  '' @ tm_render T [Foreground clrYellow, Bold] (Duration_String p95) @
       ''   '' @ fg T clrMuted ''Failed:'' @ ''  '' @ fg T clrRed (itoa failed) @ ''/'' @ fg T clrText (itoa n) @ newline)"

definition action_line :: "terminal \<Rightarrow> time \<times> string \<times> int \<times> string \<Rightarrow> string" where
  "action_line T row = (case row of (t, action, n, why) \<Rightarrow>
     let icon = encode_rune (if action = ''up'' then 0x25B2 else if action = ''down'' then 0x25BC else 0x25CF);
         clr = (if action = ''up'' then clrRed else if action = ''down'' then clrGreen else clrText)
     in ''  '' @ fg T clrMuted (tm_clock T ''15:04:05'' t) @ ''  '' @
        tm_render T [Foreground clr, Bold] (icon @ '' '' @ pad_right 4 action @ '' +'' @ itoa n) @ ''  '' @ fg T clrText why @ newline)"

definition status_text :: "terminal \<Rightarrow> agent_status \<Rightarrow> string" where
  "status_text T st = (case st of
     AgentOk \<Rightarrow> fg T clrGreen (encode_rune 0x25CF @ '' ok'')
   | Penalized remaining \<Rightarrow> fg T clrRed (encode_rune 0x26D4 @ '' penalized '' @ Duration_String remaining)
   | Failing n red \<Rightarrow> fg T (if red then clrRed else clrYellow) (encode_rune 0x26A0 @ '' '' @ itoa n @ '' consecutive failures''))"

definition config_rows :: "AutoscalerConfig \<Rightarrow> (string \<times> string \<times> string) list" where
  "config_rows cfg =
     [(''Min Workers'', itoa (MinWorkers cfg), ''Max Workers  '' @ itoa (MaxWorkers cfg)),
      (''Up Step'', itoa (MaxScaleUpStep cfg), ''Down Step    '' @ itoa (MaxScaleDownStep cfg)),
      (''Up Cooldown'', Duration_String (ScaleUpCooldown cfg), ''Down Cooldown  '' @ Duration_String (ScaleDownCooldown cfg)),
      (''Up Sustained'', Duration_String (ScaleUpSustained cfg), ''Down Sustained '' @ Duration_String (ScaleDownSustained cfg)),
      (''P95 Ceiling'', fixed 1 (P95LatencyCeiling cfg) @ ''s'', ''Err Rate Ceil  '' @ percent 0 (ErrorRateCeiling cfg)),
      (''RPS Trend'', fixed 1 (RPSTrendThreshold cfg), ''Pre-warm       '' @ itoa (PrewarmWorkers cfg))]"

definition renderConfig :: "terminal \<Rightarrow> AutoscalerConfig \<Rightarrow> string" where
  "renderConfig T cfg = concat (map (\<lambda>(k1, v1, kv2).
     ''  '' @ fg T clrMuted (pad_right 16 k1) @ '' '' @ tm_render T [Foreground clrText, Bold] (pad_right 12 v1) @ ''  '' @
       fg T clrMuted kv2 @ newline) (config_rows cfg))"

definition indentGraph :: "string \<Rightarrow> string" where
  "indentGraph g = Join newline (map (\<lambda>l. ''  '' @ l) (Split CHR 0x0A g))"

definition renderUtilizationGraph :: "terminal \<Rightarrow> histPoint list \<Rightarrow> int \<Rightarrow> AutoscalerConfig \<Rightarrow> string" where
  "renderUtilizationGraph T window width cfg =
     (case utilization_series window cfg of (vals, upLine, downLine, targetLine) \<Rightarrow>
        indentGraph (tm_plot T [vals, upLine, downLine, targetLine] 6 width
          (''Worker Utilization %   [Util] [Up'' @ encode_rune 0x2191 @ ''] [Down'' @ encode_rune 0x2193 @ ''] [Target]'')
          [''lime'', ''red'', ''teal'', ''yellow'']) @ newline)"

definition renderQueueRPSGraph :: "terminal \<Rightarrow> histPoint list \<Rightarrow> int \<Rightarrow> string" where
  "renderQueueRPSGraph T window width =
     (case queue_series window of (queue, rps) \<Rightarrow>
        indentGraph (tm_plot T [queue, rps] 5 width ''Queue Depth  vs  Requests/sec'' [''cyan'', ''magenta'']) @ newline)"

definition renderLatencyGraph :: "terminal \<Rightarrow> histPoint list \<Rightarrow> int \<Rightarrow> string" where
  "renderLatencyGraph T window width =
     indentGraph (tm_plot T [latency_series window] 5 width ''P95 Latency (seconds)'' []) @ newline"

definition graphs_text :: "terminal \<Rightarrow> console \<Rightarrow> string" where
  "graphs_text T m =
     (let window = graph_window m; gw = graphWidth m in
      if length window < 2 then
        empty_note T (''Collecting history'' @ encode_rune 0x2026 @ '' ('' @ itoa (int (length (co_hist m))) @ ''/2 ticks)'')
      else renderUtilizationGraph T window gw (snap_Config (sn_autoscaling (co_snap m))) @ renderQueueRPSGraph T window gw @
        renderLatencyGraph T window gw)"

definition optional_section :: "bool \<Rightarrow> string option \<Rightarrow> string option \<Rightarrow> string option" where
  "optional_section shown title body = (if shown then do { t \<leftarrow> title; b \<leftarrow> body; Some (t @ b) } else Some '''')"

definition autoscaling_text :: "terminal \<Rightarrow> console_env \<Rightarrow> console \<Rightarrow> string option" where
  "autoscaling_text T env m =
     (let a = sn_autoscaling (co_snap m); w = usableWidth m; gw = graphWidth m; actions = snap_RecentActions a;
          zoomLabel = (if 0 \<le> co_zoomStart m then '' '' @ encode_rune 0xB7 @ '' zoom: '' @ itoa (int (length (graph_window m))) @ '' pts'' else '''')
      in do { t1 \<leftarrow> sectionTitle T (''AutoScale '' @ encode_rune 0x2014 @ '' Live Status'') '''' w;
              t2 \<leftarrow> sectionTitle T (''Graphs'' @ zoomLabel) (''[z] zoom  ['' @ encode_rune 0x2190 @ encode_rune 0x2192 @ ''] shift'') w;
              t3 \<leftarrow> sectionTitle T ''Decision Engine'' '''' w; panel \<leftarrow> panel_text T (ke_now env) a gw;
              t4 \<leftarrow> sectionTitle T ''Worker Startup Times'' '''' w;
              acts \<leftarrow> optional_section (0 < length actions)
                (sectionTitle T ''Recent Scaling Actions'' (itoa (int (length actions)) @ '' total'') w)
                (map_option (\<lambda>rows. concat (map (action_line T) rows)) (renderRecentActions (ke_text env) m gw));
              health \<leftarrow> optional_section (0 < length (snap_AgentHealth a)) (sectionTitle T ''Agent Health'' '''' w)
                (map_option (\<lambda>rows. concat (map (\<lambda>(i, st). ''  '' @ pad_right 40 i @ ''  '' @ status_text T st @ newline) rows))
                  (renderAgentHealth (ke_now env) a));
              t7 \<leftarrow> sectionTitle T ''Configuration'' '''' w;
              Some (t1 @ renderStatusBar T (ke_text env) a @ t2 @ graphs_text T m @ t3 @ panel @ t4 @
                startup_text T (sn_startupStats (co_snap m)) @ acts @ health @ t7 @ renderConfig T (snap_Config a)) })"

definition body_text :: "terminal \<Rightarrow> console_env \<Rightarrow> console \<Rightarrow> string option" where
  "body_text T env m = (case co_activeTab m of
     WorkersTab \<Rightarrow> workers_text T m
   | AgentsTab \<Rightarrow> agents_text T (ke_now env) m
   | InflightTab \<Rightarrow> inflight_text T (ke_now env) m
   | LogsTab \<Rightarrow> logs_text T m
   | StatsTab \<Rightarrow> stats_text T m
   | AutoscalingTab \<Rightarrow> autoscaling_text T env m
   | EventsTab \<Rightarrow> events_text T m)"

section \<open>Header, tabs and footer\<close>

text \<open>The cut \<open>line[:w]\<close> is by bytes and panics beyond the end.\<close>

definition cut_line :: "terminal \<Rightarrow> int \<Rightarrow> string \<Rightarrow> string option" where
  "cut_line T w line =
     (if w < tm_cells T line then
        if w < 0 \<or> int (length line) < w then None else Some (take (nat w) line)
      else Some line)"

definition pill :: "terminal \<Rightarrow> string \<Rightarrow> string \<Rightarrow> string \<Rightarrow> string" where
  "pill T val label clr = tm_render T [Foreground clr, Bold] val @ fg T clrMuted ('' '' @ label)"

definition header_pills :: "terminal \<Rightarrow> snapshot \<Rightarrow> string" where
  "header_pills T s = Join ''  ''
     [pill T (itoa (header_healthy s) @ ''/'' @ itoa (int (length (sn_workers s)))) ''workers'' clrGreen,
      pill T (itoa (int (length (sn_agents s)))) ''agents'' clrCyan,
      pill T (itoa (int (length (sn_inflight s)))) ''in-flight'' clrYellow,
      pill T (sn_strategy s) ''strategy'' clrPurple,
      pill T (Duration_String (Round (sn_uptime s) second)) ''uptime'' clrMuted]"

definition header_title :: "terminal \<Rightarrow> string" where
  "header_title T = tm_render T [Bold, Foreground clrAccent, Background clrSurface] (''  '' @ encode_rune 0x2B21 @ '' LLM Cluster  '')"

definition renderHeader :: "terminal \<Rightarrow> console \<Rightarrow> string option" where
  "renderHeader T m =
     (let w = usableWidth m; title = header_title T; pills = header_pills T (co_snap m);
          gap = w - tm_cells T title - tm_cells T pills - 2; gap = (if gap < 1 then 1 else gap)
      in do { g \<leftarrow> Repeat '' '' gap; line \<leftarrow> cut_line T w (title @ g @ pills @ '' ''); Some (tm_render T [Background clrSurface] line) })"

definition tabLabels :: "string list" where
  "tabLabels = [''Workers'', ''Agents'', ''In-Flight'', ''Logs'', ''Stats'', ''AutoScale'', ''Events'']"

definition tab_index :: "console_tab \<Rightarrow> nat" where
  "tab_index t = (case t of WorkersTab \<Rightarrow> 0 | AgentsTab \<Rightarrow> 1 | InflightTab \<Rightarrow> 2 | LogsTab \<Rightarrow> 3 | StatsTab \<Rightarrow> 4
     | AutoscalingTab \<Rightarrow> 5 | EventsTab \<Rightarrow> 6)"

definition tab_part :: "nat \<Rightarrow> nat \<times> string \<Rightarrow> (style \<times> string) list" where
  "tab_part active = (\<lambda>(i, label). let keyStr = itoa (int i + 1) in
     if i = active
     then [([Bold, Foreground ''#ffffff'', Background ''#1c2431'', Underline], '' '' @ keyStr @ '' '' @ label @ '' '')]
     else [([Foreground ''#555e6e''], '' '' @ keyStr), ([Foreground clrMuted], '' '' @ label @ '' '')])"

definition tab_bar :: "console_tab \<Rightarrow> (style \<times> string) list" where
  "tab_bar t = concat (map (tab_part (tab_index t)) (enumerate 0 tabLabels))"

definition renderTabs :: "terminal \<Rightarrow> console \<Rightarrow> string option" where
  "renderTabs T m =
     (let w = usableWidth m; tabBar = styled T (tab_bar (co_activeTab m)); fill = w - tm_cells T tabBar
      in do { pad \<leftarrow> (if 0 < fill then map_option (tm_render T [Background clrBg]) (Repeat '' '' fill) else Some '''');
              d \<leftarrow> Repeat (encode_rune 0x2500) w;
              Some (tabBar @ pad @ newline @ fg T clrBorder d) })"

definition keyHints :: "terminal \<Rightarrow> (string \<times> string) list \<Rightarrow> string" where
  "keyHints T pairs = Join ''  '' (map (\<lambda>(k, l).
     tm_render T [Foreground clrAccent, Bold] (''['' @ k @ '']'') @ '' '' @ fg T clrMuted l) pairs)"

definition footer_middle :: "terminal \<Rightarrow> console \<Rightarrow> string" where
  "footer_middle T m =
     (if co_inputMode m = ''add'' then
        fg T clrYellow ''Add worker: '' @ fg T clrText (co_inputValue m) @ fg T clrAccent (encode_rune 0x2588) @
        fg T clrMuted ''  [Enter] confirm  [Esc] cancel''
      else if co_activeTab m = AutoscalingTab then
        keyHints T [(''z'', ''zoom''), (encode_rune 0x2190 @ encode_rune 0x2192, ''shift zoom''), (''r'', ''refresh''), (''q'', ''quit'')]
      else keyHints T [(encode_rune 0x2191 @ encode_rune 0x2193, ''scroll''), (''a'', ''add''), (''d'', ''drain''), (''x'', ''remove''),
        (''s'', ''strategy''), (''r'', ''refresh''), (''q'', ''quit'')])"

definition footer_left :: "terminal \<Rightarrow> console \<Rightarrow> string" where
  "footer_left T m = fg T clrText (co_status m) @
     (if co_lastError m \<noteq> '''' then ''  '' @ fg T clrRed (encode_rune 0x2717 @ '' '' @ co_lastError m) else '''')"

text \<open>\<open>scrolled\<close> is what the viewport gives as \<open>ScrollPercent\<close>.\<close>

definition renderFooter :: "terminal \<Rightarrow> float64 \<Rightarrow> console \<Rightarrow> string option" where
  "renderFooter T scrolled m =
     (let w = usableWidth m; left = footer_left T m; middle = footer_middle T m; right = fg T clrMuted (percent 0 scrolled);
          leftW = tm_cells T left; rightW = tm_cells T right; midW = tm_cells T middle
      in if w < leftW + rightW + 4
         then Some (tm_render T [Background clrSurface, Foreground clrMuted, CellWidth w] left)
         else
           let totalUsed = leftW + midW + rightW + 4;
               gap1 = (w - totalUsed) sdiv 2; gap2 = w - totalUsed - gap1;
               gap1 = (if gap1 < 1 then 1 else gap1); gap2 = (if gap2 < 1 then 1 else gap2)
           in do { g1 \<leftarrow> Repeat '' '' gap1; g2 \<leftarrow> Repeat '' '' gap2;
                   line \<leftarrow> cut_line T w ('' '' @ left @ g1 @ middle @ g2 @ right @ '' '');
                   Some (tm_render T [Background clrSurface, Foreground clrMuted] line) })"

text \<open>The frame; \<open>shown\<close> is the part of the content the viewport shows.\<close>

definition View :: "terminal \<Rightarrow> string \<Rightarrow> float64 \<Rightarrow> console \<Rightarrow> string option" where
  "View T shown scrolled m =
     (if \<not> co_vpReady m then Some (''initializing'' @ ellipsis @ newline)
      else do { header \<leftarrow> renderHeader T m; tabs \<leftarrow> renderTabs T m; footer \<leftarrow> renderFooter T scrolled m;
                fit_height (co_width m) (co_height m) (tm_vertical T [header, tabs, shown, footer]) })"

section \<open>Drawing never panics by itself\<close>

text \<open>The pieces that are drawn in every state, as the values they have.\<close>

definition drawn_rule :: "terminal \<Rightarrow> int \<Rightarrow> string" where
  "drawn_rule T w = the (rule_line T w)"

definition drawn_title :: "terminal \<Rightarrow> string \<Rightarrow> string \<Rightarrow> int \<Rightarrow> string" where
  "drawn_title T title meta w = the (sectionTitle T title meta w)"

definition drawn_bar :: "terminal \<Rightarrow> float64 \<Rightarrow> int \<Rightarrow> string" where
  "drawn_bar T x w = the (bar_text T x w)"

lemma drawn_rule: "rule_line T w = Some (drawn_rule T w)"
  by (simp add: drawn_rule_def rule_line_def Let_def)

lemma drawn_title: "sectionTitle T title meta w = Some (drawn_title T title meta w)"
  by (simp add: drawn_title_def sectionTitle_def drawn_rule Let_def)

lemma progressBar_cells:
  assumes "progressBar x w = (filled, unfilled)"
  shows "0 \<le> filled" and "0 \<le> unfilled"
proof -
  define width where "width = (if w < 10 then 10 else w)"
  define r where "r = (if 1 < (if x < 0 then 0 else x) then 1 else (if x < 0 then 0 else x))"
  have "0 \<le> r" "0 \<le> width - 2" by (auto simp: r_def width_def)
  then have "0 \<le> int_of_float (fmul r (float_of_int (width - 2)))"
    unfolding fmul_def by (intro int_of_float_nonneg fl_nonneg mult_nonneg_nonneg float_of_int_nonneg)
  then show "0 \<le> filled" "0 \<le> unfilled"
    using assms \<open>0 \<le> width - 2\<close> by (auto simp: progressBar_def Let_def width_def r_def)
qed

lemma drawn_bar: "bar_text T x w = Some (drawn_bar T x w)"
proof -
  obtain a b where p: "progressBar x w = (a, b)" by force
  then show ?thesis using progressBar_cells [OF p] by (simp add: drawn_bar_def bar_text_def Let_def p)
qed

lemmas drawn = drawn_rule drawn_title drawn_bar

lemma sustained_row_drawn: "sustained_row T l b now since limit w \<noteq> None"
  by (simp add: sustained_row_def Let_def drawn)

lemma panel_text_drawn: "panel_text T now a gw \<noteq> None"
  unfolding panel_text_def Let_def drawn option.simps
  by (simp only: Option.bind.simps) (intro bind_total sustained_row_drawn, simp)

text \<open>The text of a tab is drawn exactly when its rows are: no other part of it can panic.\<close>

lemma optional_section_drawn:
  "optional_section b (Some t) x = None \<longleftrightarrow> b \<and> x = None"
  by (simp add: optional_section_def bind_eq_None_conv split: option.split)

lemma body_text_drawn: "body_text T env m \<noteq> None \<longleftrightarrow> renderBody env m"
proof (cases "co_activeTab m")
  case WorkersTab
  then show ?thesis
    by (simp add: body_text_def renderBody_def workers_text_def drawn Let_def bind_eq_None_conv del: not_None_eq split: option.split)
next
  case AgentsTab
  then show ?thesis
    by (simp add: body_text_def renderBody_def agents_text_def drawn Let_def bind_eq_None_conv split_def del: not_None_eq split: option.split)
next
  case InflightTab
  then show ?thesis
    by (simp add: body_text_def renderBody_def inflight_text_def drawn Let_def bind_eq_None_conv split_def del: not_None_eq split: option.split)
next
  case LogsTab
  then show ?thesis
    by (simp add: body_text_def renderBody_def logs_text_def drawn Let_def bind_eq_None_conv del: not_None_eq split: option.split)
next
  case StatsTab
  then show ?thesis
    by (simp add: body_text_def renderBody_def stats_text_def drawn Let_def bind_eq_None_conv del: not_None_eq split: option.split)
next
  case EventsTab
  then show ?thesis
    by (simp add: body_text_def renderBody_def events_text_def drawn Let_def bind_eq_None_conv del: not_None_eq split: option.split)
next
  case AutoscalingTab
  obtain p where p: "panel_text T (ke_now env) (sn_autoscaling (co_snap m)) (graphWidth m) = Some p"
    using panel_text_drawn by blast
  have h: "snap_AgentHealth a = [] \<Longrightarrow> renderAgentHealth now a \<noteq> None" for now a
    by (simp add: renderAgentHealth_def)
  from AutoscalingTab show ?thesis
    by (simp add: body_text_def renderBody_def autoscaling_text_def renderAutoscaling_def drawn p Let_def optional_section_def
        bind_eq_None_conv del: not_None_eq split: option.split) (auto simp: h simp del: not_None_eq)
qed

section \<open>The frame around it\<close>

lemma usableWidth_pos: "0 < usableWidth m"
  by (simp add: usableWidth_def Let_def)

lemma cut_line_total:
  assumes "terminal_ok T"
  shows "cut_line T (usableWidth m) line = None \<longleftrightarrow> False"
proof -
  have "tm_cells T line \<le> int (length line)" using assms by (simp add: terminal_ok_def)
  then show ?thesis using usableWidth_pos [of m] by (simp add: cut_line_def)
qed

lemma renderHeader_total: "terminal_ok T \<Longrightarrow> renderHeader T m \<noteq> None"
  by (simp add: renderHeader_def Let_def bind_eq_None_conv cut_line_total del: not_None_eq split: option.split)

lemma renderFooter_total: "terminal_ok T \<Longrightarrow> renderFooter T scrolled m \<noteq> None"
  by (simp add: renderFooter_def Let_def bind_eq_None_conv cut_line_total del: not_None_eq split: option.split)

lemma printable_append: "printable (s @ t) \<longleftrightarrow> printable s \<and> printable t"
  by (auto simp: printable_def)

text \<open>The tab bar has 74 cells, on every tab.\<close>

lemma tab_bar_pieces:
  "(\<forall>(st, s) \<in> set (tab_bar t). list_all colouring st \<and> printable s) \<and> length (concat (map snd (tab_bar t))) = 74"
  by (cases t) (simp_all add: tab_bar_def tabLabels_def tab_part_def tab_index_def printable_def itoa_def digits.simps)

lemma tab_bar_cells: "terminal_ok T \<Longrightarrow> tm_cells T (styled T (tab_bar t)) = 74"
  using tab_bar_pieces [of t] unfolding terminal_ok_def by (metis of_nat_numeral)

lemma blanks_printable: "printable (blanks n)"
  by (simp add: printable_def)

text \<open>The tabs are a bar that is filled up to the width of the terminal, and a rule of that width. The bar is not cut: on
  less than 74 columns it is longer than a row, although the comment counts it as one row.\<close>

theorem renderTabs_width:
  assumes "terminal_ok T"
  shows "\<exists>bar. renderTabs T m = Some (bar @ newline @ fg T clrBorder (concat (replicate (nat (usableWidth m)) (encode_rune 0x2500)))) \<and>
    tm_cells T bar = max 74 (usableWidth m)"
proof -
  let ?w = "usableWidth m" and ?bar = "tab_bar (co_activeTab m)"
  let ?fill = "[([Background clrBg], blanks (nat (?w - 74)))]"
  note c = tab_bar_cells [OF assms]
  have r: "Repeat '' '' n = Some (blanks (nat n))" if "0 < n" for n
    using that by (simp add: concat_replicate_one)
  show ?thesis
  proof (cases "?w \<le> 74")
    case True
    then show ?thesis using usableWidth_pos [of m] by (auto simp: renderTabs_def Let_def c)
  next
    case False
    have "tm_cells T (styled T (?bar @ ?fill)) = int (length (concat (map snd (?bar @ ?fill))))"
      using assms tab_bar_pieces [of "co_activeTab m"] blanks_printable unfolding terminal_ok_def by simp
    also have "\<dots> = ?w" using tab_bar_pieces [of "co_activeTab m"] False by simp
    finally have "tm_cells T (styled T ?bar @ tm_render T [Background clrBg] (blanks (nat (?w - 74)))) = ?w"
      by (simp add: styled_def)
    then show ?thesis using False by (auto simp: renderTabs_def Let_def c r)
  qed
qed

lemma renderTabs_total: "terminal_ok T \<Longrightarrow> renderTabs T m \<noteq> None"
  using renderTabs_width [of T m] by auto

text \<open>C37. The console can always be drawn. For every state of the console and every terminal with at least one row,
  \<open>View\<close> returns; once the terminal's size is known the frame has exactly as many lines as the terminal, so nothing of an
  older frame stays and nothing scrolls; and the text of the active tab is drawn exactly when its rows are: the only
  panics of the interface are those of the rows.\<close>

theorem console_frame:
  assumes "terminal_ok T" and "0 \<le> co_width m" and "0 < co_height m"
  shows "\<exists>t. View T shown scrolled m = Some t \<and> (co_vpReady m \<longrightarrow> int (length (Split CHR 0x0A t)) = co_height m) \<and>
    (body_text T env m = None \<longleftrightarrow> \<not> renderBody env m)"
proof -
  obtain header tabs footer where h: "renderHeader T m = Some header" "renderTabs T m = Some tabs"
      "renderFooter T scrolled m = Some footer"
    using renderHeader_total renderTabs_total renderFooter_total assms(1) by blast
  obtain t where t: "fit_height (co_width m) (co_height m) (tm_vertical T [header, tabs, shown, footer]) = Some t"
    "int (length (Split CHR 0x0A t)) = co_height m"
    using frame_height [OF assms(3,2)] by blast
  show ?thesis using t body_text_drawn [of T env m] by (auto simp: View_def h simp del: not_None_eq)
qed

theorem console_frame_witness:
  "\<exists>t. View plain_terminal ''body'' 0 ((NewModel 0)\<lparr>co_width := 40, co_height := 24, co_vpReady := True\<rparr>) = Some t \<and>
     length (Split CHR 0x0A t) = 24"
  using console_frame [OF plain_terminal_ok, of "(NewModel 0)\<lparr>co_width := 40, co_height := 24, co_vpReady := True\<rparr>" "''body''" 0]
  by (auto simp: NewModel_def)

theorem renderTabs_width_witness:
  "\<exists>bar rest. renderTabs plain_terminal (NewModel 0) = Some (bar @ newline @ rest) \<and> tm_cells plain_terminal bar = 80"
  using renderTabs_width [OF plain_terminal_ok, of "NewModel 0"] by (auto simp: usableWidth_def NewModel_def)

end
