(* ===== verification/Load_Metrics.thy ===== *)
theory Load_Metrics
  imports Text_Layout
begin

text \<open>
  The measurements of the load test client (\<open>client/loadtest/loadtui/metrics.go\<close> and \<open>types.go\<close>): counters of
  sent, answered and failed requests, the latency summary and the rates of the report. Every reading
  of the clock is an argument.
\<close>

section \<open>Types\<close>

record LoadConfig =
  lc_MasterURL :: string
  lc_UserIDBase :: string
  FreePct :: int
  PaidTier :: string
  BurstCount :: int
  RateCount :: int
  RateEvery :: duration

record LoadLogEntry =
  ll_At :: time
  ll_UserID :: string
  ll_Tier :: string
  ll_Prompt :: string
  ll_ReplyShort :: string
  ll_Latency :: duration
  ll_Status :: string
  ll_Error :: string

record Counters =
  ct_Waiting :: int
  ct_OK :: int
  ct_Failed :: int
  ct_Total :: int

record LatencyStats =
  ls_Count :: int
  ls_Min :: duration
  ls_Max :: duration
  ls_Avg :: duration
  ls_P50 :: duration
  ls_P95 :: duration
  ls_P99 :: duration
  ls_MinMs :: float64
  ls_MaxMs :: float64
  ls_AvgMs :: float64
  ls_P50Ms :: float64
  ls_P95Ms :: float64
  ls_P99Ms :: float64

record RateStats =
  SentPerSec :: float64
  CompletedPerSec :: float64
  SentPerSecOverall :: float64
  CompletedPerSecOverall :: float64
  WindowSeconds :: float64

record SystemStats =
  ss_StartTime :: time
  ss_EndTime :: time
  ss_Duration :: duration
  ss_DurationSeconds :: float64
  RequestsSent :: int
  RequestsOK :: int
  RequestsFailed :: int
  InFlightMax :: int
  ss_Latency :: LatencyStats
  ss_Rate :: RateStats
  ss_FreePct :: int
  ss_PaidTier :: string
  ss_BurstCount :: int
  ss_RateCount :: int
  ss_RateEvery :: duration

record LoadMetrics =
  lm_start :: time
  lm_sent :: int
  lm_ok :: int
  lm_fail :: int
  lm_waiting :: int
  lm_maxWaiting :: int
  lm_latencies :: "duration list"
  lm_lastSentAt :: time
  lm_lastDoneAt :: time
  lm_sentWindow :: "time list"
  lm_completedWindow :: "time list"

section \<open>Counting\<close>

definition NewMetrics :: "time \<Rightarrow> LoadMetrics" where
  "NewMetrics now = \<lparr>lm_start = now, lm_sent = 0, lm_ok = 0, lm_fail = 0, lm_waiting = 0, lm_maxWaiting = 0,
     lm_latencies = [], lm_lastSentAt = zero_time, lm_lastDoneAt = zero_time, lm_sentWindow = [],
     lm_completedWindow = []\<rparr>"

definition MarkSent :: "time \<Rightarrow> LoadMetrics \<Rightarrow> LoadMetrics" where
  "MarkSent now m =
     (let m = m\<lparr>lm_sent := lm_sent m + 1\<rparr>;
          m = m\<lparr>lm_waiting := lm_waiting m + 1\<rparr>;
          m = (if lm_maxWaiting m < lm_waiting m then m\<lparr>lm_maxWaiting := lm_waiting m\<rparr> else m);
          m = m\<lparr>lm_lastSentAt := now\<rparr>
      in m\<lparr>lm_sentWindow := lm_sentWindow m @ [lm_lastSentAt m]\<rparr>)"

definition mark_done :: "time \<Rightarrow> duration \<Rightarrow> LoadMetrics \<Rightarrow> LoadMetrics" where
  "mark_done now latency m =
     (let m = (if 0 < lm_waiting m then m\<lparr>lm_waiting := lm_waiting m - 1\<rparr> else m);
          m = m\<lparr>lm_latencies := lm_latencies m @ [latency]\<rparr>;
          m = m\<lparr>lm_lastDoneAt := now\<rparr>
      in m\<lparr>lm_completedWindow := lm_completedWindow m @ [lm_lastDoneAt m]\<rparr>)"

definition MarkOK :: "time \<Rightarrow> duration \<Rightarrow> LoadMetrics \<Rightarrow> LoadMetrics" where
  "MarkOK now latency m = mark_done now latency (m\<lparr>lm_ok := lm_ok m + 1\<rparr>)"

definition MarkFail :: "time \<Rightarrow> duration \<Rightarrow> LoadMetrics \<Rightarrow> LoadMetrics" where
  "MarkFail now latency m = mark_done now latency (m\<lparr>lm_fail := lm_fail m + 1\<rparr>)"

definition load_Counters :: "LoadMetrics \<Rightarrow> Counters" where
  "load_Counters m = \<lparr>ct_Waiting = lm_waiting m, ct_OK = lm_ok m, ct_Failed = lm_fail m, ct_Total = lm_sent m\<rparr>"

section \<open>Summaries\<close>

text \<open>\<open>math.Round\<close> rounds halves away from zero.\<close>

definition round_away :: "rat \<Rightarrow> int" where
  "round_away x = (if x < 0 then - \<lfloor>- x + 1/2\<rfloor> else \<lfloor>x + 1/2\<rfloor>)"

definition percentile :: "duration list \<Rightarrow> float64 \<Rightarrow> duration" where
  "percentile data p =
     (if length data = 0 then 0
      else
        let idx = round_away (fmul (fsub (float_of_int (int (length data))) 1) p);
            idx = (if idx < 0 then 0 else idx);
            idx = (if int (length data) \<le> idx then int (length data) - 1 else idx)
        in data ! nat idx)"

definition millis :: "duration \<Rightarrow> float64" where
  "millis d = fmul (Seconds d) 1000"

definition no_latency :: LatencyStats where
  "no_latency = \<lparr>ls_Count = 0, ls_Min = 0, ls_Max = 0, ls_Avg = 0, ls_P50 = 0, ls_P95 = 0, ls_P99 = 0,
     ls_MinMs = 0, ls_MaxMs = 0, ls_AvgMs = 0, ls_P50Ms = 0, ls_P95Ms = 0, ls_P99Ms = 0\<rparr>"

definition computeLatency :: "duration list \<Rightarrow> LatencyStats" where
  "computeLatency samples =
     (if length samples = 0 then no_latency
      else
        let data = sort samples;
            mn = data ! 0;
            mx = data ! (length data - 1);
            avg = sum_list data sdiv int (length data);
            p50 = percentile data (fl (50/100));
            p95 = percentile data (fl (95/100));
            p99 = percentile data (fl (99/100))
        in \<lparr>ls_Count = int (length data), ls_Min = mn, ls_Max = mx, ls_Avg = avg,
          ls_P50 = p50, ls_P95 = p95, ls_P99 = p99, ls_MinMs = millis mn, ls_MaxMs = millis mx,
          ls_AvgMs = millis avg, ls_P50Ms = millis p50, ls_P95Ms = millis p95, ls_P99Ms = millis p99\<rparr>)"

definition count_after :: "time \<Rightarrow> time list \<Rightarrow> int" where
  "count_after horizon ts = int (length (filter (\<lambda>t. horizon < t) ts))"

definition computeRates :: "time \<Rightarrow> time list \<Rightarrow> time list \<Rightarrow> int \<Rightarrow> int \<Rightarrow> duration \<Rightarrow> RateStats" where
  "computeRates now sentTimes doneTimes totalSent totalDone d =
     (let window = 10 * second;
          horizon = now + (- window);
          sent = count_after horizon sentTimes;
          completed = count_after horizon doneTimes;
          (overallSent, overallDone) =
            (if 0 < Seconds d
             then (fdiv (float_of_int totalSent) (Seconds d), fdiv (float_of_int totalDone) (Seconds d))
             else (0, 0))
      in \<lparr>SentPerSec = fdiv (float_of_int sent) (Seconds window),
        CompletedPerSec = fdiv (float_of_int completed) (Seconds window),
        SentPerSecOverall = overallSent, CompletedPerSecOverall = overallDone,
        WindowSeconds = Seconds window\<rparr>)"

definition load_Snapshot :: "time \<Rightarrow> time \<Rightarrow> LoadConfig \<Rightarrow> LoadMetrics \<Rightarrow> SystemStats" where
  "load_Snapshot finish now cfg m =
     (let lat = computeLatency (lm_latencies m);
          d = time_sub finish (lm_start m);
          rate = computeRates now (lm_sentWindow m) (lm_completedWindow m) (lm_sent m) (lm_ok m + lm_fail m) d
      in \<lparr>ss_StartTime = lm_start m, ss_EndTime = finish, ss_Duration = d, ss_DurationSeconds = Seconds d,
        RequestsSent = lm_sent m, RequestsOK = lm_ok m, RequestsFailed = lm_fail m,
        InFlightMax = lm_maxWaiting m, ss_Latency = lat, ss_Rate = rate, ss_FreePct = FreePct cfg,
        ss_PaidTier = PaidTier cfg, ss_BurstCount = BurstCount cfg, ss_RateCount = RateCount cfg,
        ss_RateEvery = RateEvery cfg\<rparr>)"


section \<open>Counters\<close>

datatype load_event = Sent time | Answered time duration | Failed time duration

fun apply_event :: "load_event \<Rightarrow> LoadMetrics \<Rightarrow> LoadMetrics" where
  "apply_event (Sent t) m = MarkSent t m"
| "apply_event (Answered t d) m = MarkOK t d m"
| "apply_event (Failed t d) m = MarkFail t d m"

fun backlog_step :: "load_event \<Rightarrow> int" where
  "backlog_step (Sent t) = 1"
| "backlog_step e = -1"

definition backlog :: "load_event list \<Rightarrow> int" where
  "backlog es = sum_list (map backlog_step es)"

fun latency_of :: "load_event \<Rightarrow> duration list" where
  "latency_of (Sent t) = []"
| "latency_of (Answered t d) = [d]"
| "latency_of (Failed t d) = [d]"

definition tally :: "(load_event \<Rightarrow> bool) \<Rightarrow> load_event list \<Rightarrow> int" where
  "tally P es = int (length (filter P es))"

fun is_sent :: "load_event \<Rightarrow> bool" where
  "is_sent (Sent t) = True" | "is_sent e = False"

fun is_answered :: "load_event \<Rightarrow> bool" where
  "is_answered (Answered t d) = True" | "is_answered e = False"

fun is_failed :: "load_event \<Rightarrow> bool" where
  "is_failed (Failed t d) = True" | "is_failed e = False"

lemmas marks = MarkSent_def MarkOK_def MarkFail_def mark_done_def Let_def

lemma backlog_simps [simp]:
  "backlog [] = 0" "backlog (e # es) = backlog_step e + backlog es" "backlog (es @ fs) = backlog es + backlog fs"
  by (simp_all add: backlog_def)

lemma tally_simps [simp]:
  "tally P [] = 0" "tally P (es @ [e]) = tally P es + (if P e then 1 else 0)"
  by (simp_all add: tally_def)

lemma backlog_drop_snoc: "backlog (drop k (es @ [e])) = (if k \<le> length es then backlog (drop k es) + backlog_step e else 0)"
  by simp

lemma waiting_backlog:
  "(\<forall>k. backlog (drop k es) \<le> lm_waiting (fold apply_event es (NewMetrics t))) \<and>
   (\<exists>k \<le> length es. lm_waiting (fold apply_event es (NewMetrics t)) = backlog (drop k es))"
proof (induction es rule: rev_induct)
  case Nil
  then show ?case by (simp add: NewMetrics_def)
next
  case (snoc e es)
  let ?m = "fold apply_event es (NewMetrics t)"
  let ?w = "lm_waiting ?m" and ?v = "lm_waiting (fold apply_event (es @ [e]) (NewMetrics t))"
  have v: "?v = max 0 (?w + backlog_step e) \<or> \<not> 0 \<le> ?w"
    by (cases e) (auto simp: marks)
  have w: "0 \<le> ?w" using snoc [THEN conjunct1, rule_format, of "length es"] by simp
  from snoc obtain k where k: "k \<le> length es" "?w = backlog (drop k es)" by auto
  have "backlog (drop j (es @ [e])) \<le> ?v" for j
  proof (cases "j \<le> length es")
    case True
    then have "backlog (drop j (es @ [e])) = backlog (drop j es) + backlog_step e" by simp
    also have "\<dots> \<le> ?w + backlog_step e" using snoc by simp
    finally show ?thesis using v w by linarith
  qed (use v w in auto)
  moreover have "\<exists>j \<le> length (es @ [e]). ?v = backlog (drop j (es @ [e]))"
  proof (cases "0 \<le> ?w + backlog_step e")
    case True
    then show ?thesis using k v w by (intro exI [of _ k]) auto
  next
    case False
    then show ?thesis using v w by (intro exI [of _ "length (es @ [e])"]) auto
  qed
  ultimately show ?case by blast
qed

lemma event_counts:
  "lm_sent (fold apply_event es (NewMetrics t)) = tally is_sent es"
  "lm_ok (fold apply_event es (NewMetrics t)) = tally is_answered es"
  "lm_fail (fold apply_event es (NewMetrics t)) = tally is_failed es"
  "lm_latencies (fold apply_event es (NewMetrics t)) = concat (map latency_of es)"
  "backlog es = tally is_sent es - tally is_answered es - tally is_failed es"
proof (induction es rule: rev_induct)
  case Nil
  { case 1 show ?case by (simp add: NewMetrics_def) next
    case 2 show ?case by (simp add: NewMetrics_def) next
    case 3 show ?case by (simp add: NewMetrics_def) next
    case 4 show ?case by (simp add: NewMetrics_def) next
    case 5 show ?case by simp }
next
  case (snoc e es)
  { case 1 show ?case using snoc by (cases e) (auto simp: marks) next
    case 2 show ?case using snoc by (cases e) (auto simp: marks) next
    case 3 show ?case using snoc by (cases e) (auto simp: marks) next
    case 4 show ?case using snoc by (cases e) (auto simp: marks) next
    case 5 show ?case using snoc by (cases e) auto }
qed


section \<open>Latencies\<close>

lemma round_away_mono: "x \<le> y \<Longrightarrow> round_away x \<le> round_away y"
  by (auto simp: round_away_def intro: floor_mono) linarith

definition rank_index :: "nat \<Rightarrow> float64 \<Rightarrow> nat" where
  "rank_index n p = nat (min (int n - 1) (max 0 (round_away (fmul (fsub (float_of_int (int n)) 1) p))))"

lemma percentile_nth: "data \<noteq> [] \<Longrightarrow> percentile data p = data ! rank_index (length data) p"
proof -
  have "(if int n \<le> i then int n - 1 else i) = min (int n - 1) i" for n i by auto
  moreover have "(if i < 0 then 0 else i) = max 0 i" for i :: int by auto
  ultimately show "data \<noteq> [] \<Longrightarrow> ?thesis" by (simp add: percentile_def rank_index_def Let_def)
qed

lemma rank_index_less: "0 < n \<Longrightarrow> rank_index n p < n"
  by (simp add: rank_index_def)

lemma rank_index_mono:
  assumes "p \<le> q" and "0 < n"
  shows "rank_index n p \<le> rank_index n q"
proof -
  have "1 \<le> float_of_int (int n)" using fl_mono [of 1 "of_int (int n)"] assms(2) by (simp add: float_of_int_def)
  then have "0 \<le> fsub (float_of_int (int n)) 1" by (simp add: fsub_def fl_nonneg)
  then have "fmul (fsub (float_of_int (int n)) 1) p \<le> fmul (fsub (float_of_int (int n)) 1) q"
    using assms(1) by (simp add: fmul_def fl_mono mult_left_mono)
  then show ?thesis
    unfolding rank_index_def by (intro nat_mono min.mono max.mono round_away_mono order_refl)
qed

lemma sdiv_bounds:
  fixes s n a b :: int
  assumes "0 < n" and "n * a \<le> s" and "s \<le> n * b"
  shows "a \<le> s sdiv n \<and> s sdiv n \<le> b"
proof -
  have d: "x \<le> y div n" if "n * x \<le> y" for x y using zdiv_mono1 [OF that assms(1)] assms(1) by simp
  have u: "y div n \<le> x" if "y \<le> n * x" for x y using zdiv_mono1 [OF that assms(1)] assms(1) by simp
  show ?thesis
  proof (cases "0 \<le> s")
    case True
    then have "s sdiv n = s div n" using assms(1) by (auto simp: signed_divide_int_def sgn_if)
    then show ?thesis using d u assms by simp
  next
    case False
    then have "s sdiv n = - (- s div n)" using assms(1) by (auto simp: signed_divide_int_def sgn_if)
    then show ?thesis using d [of "- b" "- s"] u [of "- s" "- a"] assms by simp
  qed
qed

lemma mean_bounds:
  fixes xs :: "int list"
  assumes "xs \<noteq> []" and "\<forall>x \<in> set xs. a \<le> x \<and> x \<le> b"
  shows "a \<le> sum_list xs sdiv int (length xs) \<and> sum_list xs sdiv int (length xs) \<le> b"
proof (rule sdiv_bounds)
  show "int (length xs) * a \<le> sum_list xs" "sum_list xs \<le> int (length xs) * b"
    using assms(2) by (induction xs) (auto simp: algebra_simps)
qed (use assms(1) in simp)

text \<open>The latency summary of a non-empty run is ordered, minimum, median, 95th and 99th percentile, maximum,
  with the average between the extremes; the percentiles are latencies that were measured and no index
  is out of range, for any number of samples. It depends on the samples and not on their order.\<close>

theorem latency_summary_ordered:
  assumes "samples \<noteq> []"
  shows "let l = computeLatency samples in
    ls_Min l = Min (set samples) \<and> ls_Max l = Max (set samples) \<and>
    ls_Min l \<le> ls_P50 l \<and> ls_P50 l \<le> ls_P95 l \<and> ls_P95 l \<le> ls_P99 l \<and> ls_P99 l \<le> ls_Max l \<and>
    ls_Min l \<le> ls_Avg l \<and> ls_Avg l \<le> ls_Max l \<and> {ls_P50 l, ls_P95 l, ls_P99 l} \<subseteq> set samples \<and>
    computeLatency (rev samples) = l"
proof -
  let ?d = "sort samples" and ?n = "length samples"
  have "?d \<noteq> []" by (metis assms length_0_conv length_sort)
  then have d: "?d \<noteq> []" "length ?d = ?n" "sorted ?d" "set ?d = set samples" "0 < ?n"
    using assms by simp_all
  have le: "?d ! i \<le> ?d ! j" if "i \<le> j" "j < ?n" for i j using sorted_nth_mono [OF d(3), of i j] that d(2) by simp
  have mem: "?d ! i \<in> set samples" if "i < ?n" for i using nth_mem [of i ?d] that d(2,4) by simp
  have ex: "\<exists>i < ?n. x = ?d ! i" if "x \<in> set samples" for x
    using that d(2,4) by (metis in_set_conv_nth)
  have lo: "?d ! 0 = Min (set samples)"
    by (rule Min_eqI [symmetric]) (use mem [of 0] ex le d(5) in \<open>auto\<close>)
  have hi: "?d ! (?n - 1) = Max (set samples)"
    by (rule Max_eqI [symmetric]) (use mem [of "?n - 1"] ex le d(5) in \<open>fastforce+\<close>)
  let ?r = "\<lambda>p. rank_index ?n (fl p)"
  have r: "?r p < ?n" for p using rank_index_less [OF d(5)] .
  have pc: "percentile ?d (fl p) = ?d ! ?r p" for p using percentile_nth [OF d(1)] d(2) by simp
  have m: "?d ! ?r p \<le> ?d ! ?r q" if "p \<le> q" for p q
    by (rule le [OF rank_index_mono [OF fl_mono [OF that] d(5)] r])
  have ends: "?d ! 0 \<le> ?d ! ?r p" "?d ! ?r p \<le> ?d ! (?n - 1)" for p
    using r [of p] d(5) by (auto intro: le)
  have "Min (set samples) \<le> sum_list ?d sdiv int ?n \<and> sum_list ?d sdiv int ?n \<le> Max (set samples)"
    using mean_bounds [OF d(1), of "Min (set samples)" "Max (set samples)"] d(2,4) by simp
  moreover have "sort (rev samples) = sort samples" by (rule properties_for_sort) simp_all
  moreover have "computeLatency (rev samples) = computeLatency samples"
    unfolding computeLatency_def \<open>sort (rev samples) = sort samples\<close> by simp
  moreover have "ls_Min (computeLatency samples) = Min (set samples)" "ls_Max (computeLatency samples) = Max (set samples)"
      "ls_Avg (computeLatency samples) = sum_list ?d sdiv int ?n"
    using assms hi d(2) by (simp_all add: computeLatency_def Let_def lo)
  moreover have "ls_P50 (computeLatency samples) = ?d ! ?r (50/100)" "ls_P95 (computeLatency samples) = ?d ! ?r (95/100)"
      "ls_P99 (computeLatency samples) = ?d ! ?r (99/100)"
    using assms by (simp_all add: computeLatency_def Let_def flip: pc)
  moreover have "?d ! ?r (50/100) \<le> ?d ! ?r (95/100)" "?d ! ?r (95/100) \<le> ?d ! ?r (99/100)"
    by (rule m, simp)+
  ultimately show ?thesis
    using mem [OF r] ends [unfolded lo hi] by (simp add: Let_def del: One_nat_def)
qed



theorem latency_summary_ordered_witness:
  "ls_Min (computeLatency [3, 1, 2]) = 1 \<and> ls_Max (computeLatency [3, 1, 2]) = 3 \<and>
   ls_P50 (computeLatency [3, 1, 2]) \<le> ls_P95 (computeLatency [3, 1, 2])"
  using latency_summary_ordered [of "[3, 1, 2]"] by (simp add: Let_def)

end
