(* ===== verification/Chat_Client.thy ===== *)
theory Chat_Client
  imports Http_Retry Load_Metrics
begin

text \<open>
  The chat client (\<open>client/tui/model.go\<close>, \<open>types.go\<close>, \<open>social.go\<close>): sessions, their messages, and the handler \<open>Update\<close>. A
  prompt is answered locally when it is a greeting or thanks (\<open>AutoReply\<close>, whose regular expressions are matched
  rune by rune, ignoring case as Go does) and sent to the master otherwise. The text area and the
  viewport are third-party components: the text area is its value, changed by a given function; of the
  viewport the size is kept, which the code sets. Rendering is left out. An index out of range panics: \<open>None\<close>.
\<close>

section \<open>Types\<close>

datatype Role = RoleUser | RoleAssistant | RoleError | RoleSystem

record Message =
  ms_Role :: Role
  ms_Content :: string
  ms_RequestID :: string
  ms_At :: time

record PerfStats =
  pf_Total :: int
  pf_OK :: int
  pf_Errors :: int
  pf_Latencies :: "duration list"
  pf_Last :: duration
  pf_LastState :: string

record Session =
  cs_ID :: string
  cs_Title :: string
  cs_Messages :: "Message list"
  cs_CreatedAt :: time

definition newSession :: "time \<Rightarrow> string \<Rightarrow> string \<Rightarrow> Session" where
  "newSession now i title = \<lparr>cs_ID = i, cs_Title = title, cs_Messages = [], cs_CreatedAt = now\<rparr>"

record ClientConfig =
  cl_MasterURL :: string
  cl_UserID :: string
  cl_Tier :: string

datatype focus = FocusInput | FocusSidebar

record ChatModel =
  cm_cfg :: ClientConfig
  cm_width :: int
  cm_height :: int
  cm_input :: string
  cm_vpWidth :: int
  cm_vpHeight :: int
  cm_inputWidth :: int
  cm_sessions :: "Session list"
  cm_activeIdx :: nat
  cm_loading :: bool
  cm_focus :: focus
  cm_sessionCount :: int
  cm_sidebarVisible :: bool
  cm_perf :: PerfStats

datatype client_msg =
    ClientResize int int
  | SpinnerTick
  | ChatResponseMsg string chatResponse duration
  | ChatErrorMsg string string duration
  | AutoReplyMsg string string
  | ClientKey string
  | ClientOther

datatype client_cmd =
    ClientQuit
  | ChatCmd string ClientConfig string \<comment> \<open>session, configuration, prompt\<close>
  | AutoReplyCmd string string \<comment> \<open>session, reply\<close>

section \<open>Small talk\<close>

text \<open>A pattern is a list of runes to match, each possibly optional; the result are the possible rests.\<close>

type_synonym pattern = "((nat \<Rightarrow> bool) \<times> bool) list"

fun match :: "pattern \<Rightarrow> nat list \<Rightarrow> nat list list" where
  "match [] s = [s]"
| "match ((p, optional) # ps) s =
     (if optional then match ps s else []) @
     (case s of [] \<Rightarrow> [] | r # rs \<Rightarrow> if p r then match ps rs else [])"

definition fold_rune :: "nat \<Rightarrow> nat" where
  "fold_rune r = (if 65 \<le> r \<and> r \<le> 90 then r + 32 else if r = 8490 then 107 else if r = 383 then 115 else r)"

definition re_space :: "nat \<Rightarrow> bool" where
  "re_space r \<longleftrightarrow> r = 9 \<or> r = 10 \<or> r = 12 \<or> r = 13 \<or> r = 32"

definition lit :: "string \<Rightarrow> pattern" where
  "lit w = map (\<lambda>c. (\<lambda>r. fold_rune r = byte c, False)) w"

definition opt_space :: pattern where
  "opt_space = [(re_space, True)]"

definition opt_apostrophe :: pattern where
  "opt_apostrophe = [(\<lambda>r. r = 39, True)]"

definition greetings :: "pattern list" where
  "greetings = [lit ''hi'', lit ''hello'', lit ''hey'', lit ''howdy''] @
     map (\<lambda>w. lit ''good'' @ opt_space @ lit w) [''morning'', ''afternoon'', ''evening'', ''day''] @
     [lit ''greetings'', lit ''sup'', lit ''yo'', lit ''what'' @ opt_apostrophe @ lit ''s'' @ opt_space @ lit ''up'', lit ''hola'']"

definition thanks :: "pattern list" where
  "thanks = [lit ''thanks'', lit ''thank'' @ opt_space @ lit ''you'', lit ''thank'', lit ''thx'', lit ''ty'', lit ''cheers'',
     lit ''appreciate'' @ opt_space @ lit ''it'']"

definition tail_rune :: "nat \<Rightarrow> bool" where
  "tail_rune r \<longleftrightarrow> re_space r \<or> r = 33 \<or> r = 46"

definition MatchString :: "pattern list \<Rightarrow> string \<Rightarrow> bool" where
  "MatchString alts s = list_ex (\<lambda>p. list_ex (list_all tail_rune) (match p (runes s))) alts"

definition greetingResponses :: "string list" where
  "greetingResponses = [''Hello! How can I help you?'', ''Hi there! What can I do for you?'',
     ''Hey! How can I assist you today?'', ''Hello! I'' @ [CHR 0x27] @ ''m here to help. What do you need?'']"

definition thanksResponses :: "string list" where
  "thanksResponses = [''You'' @ [CHR 0x27] @ ''re welcome!'', ''Happy to help!'',
     ''Anytime! Let me know if you need anything else.'', ''My pleasure!'']"

definition AutoReply :: "(nat \<Rightarrow> nat) \<Rightarrow> string \<Rightarrow> string option" where
  "AutoReply intn prompt =
     (let p = TrimSpace prompt in
      if MatchString greetings p then Some (greetingResponses ! intn (length greetingResponses))
      else if MatchString thanks p then Some (thanksResponses ! intn (length thanksResponses))
      else None)"

section \<open>Performance\<close>

definition sortDurations :: "duration list \<Rightarrow> duration list" where
  "sortDurations v = insertion_sort id v"

definition perf_avg :: "PerfStats \<Rightarrow> duration" where
  "perf_avg p =
     (if length (pf_Latencies p) = 0 then 0
      else sum_list (pf_Latencies p) sdiv int (length (pf_Latencies p)))"

definition perf_p95 :: "PerfStats \<Rightarrow> duration" where
  "perf_p95 p =
     (if length (pf_Latencies p) = 0 then 0
      else
        let data = sortDurations (pf_Latencies p);
            idx = int_of_float (fmul (float_of_int (int (length data))) (fl (95/100))) - 1;
            idx = (if idx < 0 then 0 else idx);
            idx = (if int (length data) \<le> idx then int (length data) - 1 else idx)
        in data ! nat idx)"

definition renderPerfStats :: "PerfStats \<Rightarrow> string" where
  "renderPerfStats p =
     (if pf_Total p = 0 then ''''
      else
        let st = (if pf_LastState p = ''err'' then ''err'' else ''ok'')
        in ''req='' @ itoa (pf_Total p) @ '' ok='' @ itoa (pf_OK p) @ '' err='' @ itoa (pf_Errors p) @
           '' last='' @ fmtDuration (pf_Last p) @ '' '' @ st @ '' avg='' @ fmtDuration (perf_avg p) @
           '' p95='' @ fmtDuration (perf_p95 p))"

text \<open>\<open>scrollPercent\<close> with the viewport's number of lines and position.\<close>

definition scrollPercent :: "int \<Rightarrow> float64 \<Rightarrow> int" where
  "scrollPercent totalLines pos = (if totalLines = 0 then 100 else round_away (fmul pos 100))"

section \<open>Actions\<close>

definition sidebarWidth :: int where
  "sidebarWidth = 28"

definition client_relayout :: "ChatModel \<Rightarrow> ChatModel" where
  "client_relayout m =
     (let chatWidth = cm_width m;
          chatWidth = (if cm_sidebarVisible m then cm_width m - sidebarWidth - 1 else chatWidth);
          chatWidth = (if chatWidth < 20 then 20 else chatWidth);
          inputHeight = 5; headerHeight = 1; footerHeight = 1;
          vpHeight = cm_height m - headerHeight - inputHeight - footerHeight - 2;
          vpHeight = (if vpHeight < 4 then 4 else vpHeight)
      in m\<lparr>cm_vpWidth := chatWidth - 2, cm_vpHeight := vpHeight, cm_inputWidth := chatWidth - 4\<rparr>)"

text \<open>The two readings of the clock, for the session and its welcome message, are \<open>now 0\<close> and \<open>now 1\<close>.\<close>

definition add_session :: "(nat \<Rightarrow> time) \<Rightarrow> ChatModel \<Rightarrow> ChatModel" where
  "add_session now m =
     (let m = m\<lparr>cm_sessionCount := cm_sessionCount m + 1\<rparr>;
          i = ''session-'' @ itoa (cm_sessionCount m);
          s = newSession (now 0) i ''New Session'';
          s = s\<lparr>cs_Messages := cs_Messages s @
            [\<lparr>ms_Role = RoleSystem, ms_Content = ''Connected to '' @ cl_MasterURL (cm_cfg m) @ ''  |  user: '' @
               cl_UserID (cm_cfg m) @ ''  |  tier: '' @ cl_Tier (cm_cfg m), ms_RequestID = '''', ms_At = now 1\<rparr>]\<rparr>
      in m\<lparr>cm_sessions := cm_sessions m @ [s]\<rparr>)"

definition empty_client :: "ClientConfig \<Rightarrow> ChatModel" where
  "empty_client cfg =
     \<lparr>cm_cfg = cfg, cm_width = 0, cm_height = 0, cm_input = '''', cm_vpWidth = 80, cm_vpHeight = 20,
      cm_inputWidth = 0, cm_sessions = [], cm_activeIdx = 0, cm_loading = False, cm_focus = FocusInput,
      cm_sessionCount = 0, cm_sidebarVisible = True,
      cm_perf = \<lparr>pf_Total = 0, pf_OK = 0, pf_Errors = 0, pf_Latencies = [], pf_Last = 0, pf_LastState = ''''\<rparr>\<rparr>"

definition NewClient :: "(nat \<Rightarrow> time) \<Rightarrow> ClientConfig \<Rightarrow> ChatModel" where
  "NewClient now cfg = add_session now (empty_client cfg)"

definition sendPrompt :: "(nat \<Rightarrow> nat) \<Rightarrow> time \<Rightarrow> string \<Rightarrow> ChatModel \<Rightarrow> ChatModel \<times> client_cmd list" where
  "sendPrompt intn now prompt m =
     (if length (cm_sessions m) \<le> cm_activeIdx m then (m, [])
      else
        let s = cm_sessions m ! cm_activeIdx m;
            s = s\<lparr>cs_Messages := cs_Messages s @
              [\<lparr>ms_Role = RoleUser, ms_Content = prompt, ms_RequestID = '''', ms_At = now\<rparr>]\<rparr>;
            m = m\<lparr>cm_sessions := (cm_sessions m)[cm_activeIdx m := s], cm_loading := True, cm_input := ''''\<rparr>
        in case AutoReply intn prompt of
             Some reply \<Rightarrow> (m, [AutoReplyCmd (cs_ID s) reply])
           | None \<Rightarrow> (m, [ChatCmd (cs_ID s) (cm_cfg m) prompt]))"

section \<open>Messages\<close>

definition count_reply :: "duration \<Rightarrow> bool \<Rightarrow> PerfStats \<Rightarrow> PerfStats" where
  "count_reply d ok p =
     p\<lparr>pf_Total := pf_Total p + 1,
       pf_OK := pf_OK p + (if ok then 1 else 0), pf_Errors := pf_Errors p + (if ok then 0 else 1),
       pf_Last := d, pf_LastState := (if ok then ''ok'' else ''err''),
       pf_Latencies := pf_Latencies p @ [d]\<rparr>"

text \<open>The loop over the sessions stops at the first with the identifier.\<close>

fun to_session :: "string \<Rightarrow> (Session \<Rightarrow> Session) \<Rightarrow> Session list \<Rightarrow> Session list" where
  "to_session i f [] = []"
| "to_session i f (s # ss) = (if cs_ID s = i then f s # ss else s # to_session i f ss)"

definition add_message :: "Message \<Rightarrow> Session \<Rightarrow> Session" where
  "add_message msg s = s\<lparr>cs_Messages := cs_Messages s @ [msg]\<rparr>"

definition title_from :: "string \<Rightarrow> Session \<Rightarrow> Session" where
  "title_from reply s =
     (if cs_Title s = ''New Session'' \<and> reply \<noteq> '''' then
        s\<lparr>cs_Title := if 28 < RuneCount reply then from_runes (take 28 (runes reply)) @ ellipsis else reply\<rparr>
      else s)"

definition delete_active :: "ChatModel \<Rightarrow> ChatModel option" where
  "delete_active m =
     (if 1 < length (cm_sessions m) then
        if length (cm_sessions m) \<le> cm_activeIdx m then None
        else
          let m = m\<lparr>cm_sessions := take (cm_activeIdx m) (cm_sessions m) @ drop (cm_activeIdx m + 1) (cm_sessions m)\<rparr>
          in Some (if length (cm_sessions m) \<le> cm_activeIdx m
                   then m\<lparr>cm_activeIdx := length (cm_sessions m) - 1\<rparr> else m)
      else Some m)"

text \<open>The environment of one call: clock, random draws, and what the text area does with a key.\<close>

record client_env =
  ce_clock :: "nat \<Rightarrow> time"
  ce_intn :: "nat \<Rightarrow> nat"
  ce_edit :: "string \<Rightarrow> string \<Rightarrow> string"

definition delegate :: "client_env \<Rightarrow> string \<Rightarrow> ChatModel \<Rightarrow> ChatModel" where
  "delegate env key m = (if cm_focus m = FocusInput then m\<lparr>cm_input := ce_edit env key (cm_input m)\<rparr> else m)"

definition client_key :: "client_env \<Rightarrow> string \<Rightarrow> ChatModel \<Rightarrow> (ChatModel \<times> client_cmd list) option" where
  "client_key env key m =
     (if key = ''ctrl+c'' \<or> key = ''ctrl+q'' then Some (m, [ClientQuit])
      else if key = ''ctrl+b'' then
        Some (client_relayout (m\<lparr>cm_sidebarVisible := \<not> cm_sidebarVisible m\<rparr>), [])
      else if key = ''tab'' then
        Some (m\<lparr>cm_focus := if cm_focus m = FocusInput then FocusSidebar else FocusInput\<rparr>, [])
      else if key = ''up'' \<or> key = ''k'' then
        Some (delegate env key
          (if cm_focus m = FocusSidebar \<and> 0 < cm_activeIdx m then m\<lparr>cm_activeIdx := cm_activeIdx m - 1\<rparr> else m), [])
      else if key = ''down'' \<or> key = ''j'' then
        Some (delegate env key
          (if cm_focus m = FocusSidebar \<and> int (cm_activeIdx m) < int (length (cm_sessions m)) - 1
           then m\<lparr>cm_activeIdx := cm_activeIdx m + 1\<rparr> else m), [])
      else if key = ''ctrl+n'' then
        (let m = add_session (ce_clock env) m
         in Some (m\<lparr>cm_activeIdx := length (cm_sessions m) - 1, cm_focus := FocusInput, cm_input := ''''\<rparr>, []))
      else if key = ''ctrl+d'' then map_option (\<lambda>m. (m, [])) (delete_active m)
      else if key = ''enter'' then
        (let (m, cmds) =
               (if cm_focus m = FocusInput \<and> \<not> cm_loading m then
                  let prompt = TrimSpace (cm_input m) in
                  if prompt \<noteq> '''' then sendPrompt (ce_intn env) (ce_clock env 0) prompt m else (m, [])
                else (m, []))
         in Some (delegate env key m, cmds))
      else Some (delegate env key m, []))"

fun client_Update :: "client_env \<Rightarrow> client_msg \<Rightarrow> ChatModel \<Rightarrow> (ChatModel \<times> client_cmd list) option" where
  "client_Update env (ClientResize w h) m = Some (client_relayout (m\<lparr>cm_width := w, cm_height := h\<rparr>), [])"
| "client_Update env SpinnerTick m = Some (m, [])"
| "client_Update env (ChatResponseMsg i resp d) m =
     Some (m\<lparr>cm_loading := False, cm_perf := count_reply d True (cm_perf m),
       cm_sessions := to_session i (\<lambda>s. title_from (cr_Reply resp) (add_message
         \<lparr>ms_Role = RoleAssistant, ms_Content = cr_Reply resp, ms_RequestID = cr_RequestID resp,
          ms_At = ce_clock env 0\<rparr> s)) (cm_sessions m)\<rparr>, [])"
| "client_Update env (ChatErrorMsg i err d) m =
     Some (m\<lparr>cm_loading := False, cm_perf := count_reply d False (cm_perf m),
       cm_sessions := to_session i (add_message
         \<lparr>ms_Role = RoleError, ms_Content = err, ms_RequestID = '''', ms_At = ce_clock env 0\<rparr>) (cm_sessions m)\<rparr>, [])"
| "client_Update env (AutoReplyMsg i reply) m =
     Some (m\<lparr>cm_loading := False, cm_perf := count_reply (600 * millisecond) True (cm_perf m),
       cm_sessions := to_session i (add_message
         \<lparr>ms_Role = RoleAssistant, ms_Content = reply, ms_RequestID = '''', ms_At = ce_clock env 0\<rparr>) (cm_sessions m)\<rparr>, [])"
| "client_Update env (ClientKey key) m = client_key env key m"
| "client_Update env ClientOther m = Some (delegate env '''' m, [])"

text \<open>What the runtime does with a command: the message it produces. \<open>d\<close> is the time measured.\<close>

definition run_chat :: "(string \<Rightarrow> chatRequest \<Rightarrow> nat \<Rightarrow> attempt) \<Rightarrow> (nat \<Rightarrow> bool) \<Rightarrow> duration \<Rightarrow> string \<Rightarrow> ClientConfig \<Rightarrow>
    string \<Rightarrow> client_msg" where
  "run_chat server cancelled d i cfg prompt =
     (case fst (sendChat server cancelled (cl_MasterURL cfg) (cl_UserID cfg) (cl_Tier cfg) prompt) of
        Inl (Some err) \<Rightarrow> ChatErrorMsg i err d
      | Inl None \<Rightarrow> ChatResponseMsg i \<lparr>cr_RequestID = '''', cr_Reply = ''''\<rparr> d
      | Inr resp \<Rightarrow> ChatResponseMsg i resp d)"


section \<open>Messages on the screen\<close>

text \<open>The width a message is laid out in, and that of its bubble.\<close>

definition message_widths :: "int \<Rightarrow> int \<times> int" where
  "message_widths vpWidth =
     (let maxW = vpWidth;
          maxW = (if maxW < 20 then 80 else maxW);
          bubbleMaxW = int_of_float (fmul (float_of_int maxW) (fl (75/100)));
          bubbleMaxW = (if bubbleMaxW < 30 then maxW - 4 else bubbleMaxW)
      in (maxW, bubbleMaxW))"

text \<open>The text of a message before it is styled: its heading, the request it answers, its body.\<close>

definition renderMessage :: "ChatModel \<Rightarrow> Message \<Rightarrow> (string \<times> string \<times> string) option" where
  "renderMessage m msg =
     (let (maxW, bubbleMaxW) = message_widths (cm_vpWidth m) in
      case ms_Role msg of
        RoleUser \<Rightarrow> Some (''You'', '''', wordWrap (ms_Content msg) bubbleMaxW)
      | RoleAssistant \<Rightarrow>
          let body = wordWrap (ms_Content msg) bubbleMaxW in
          if ms_RequestID msg \<noteq> '''' then
            map_option (\<lambda>i. (''Assistant'', ''req:'' @ i, body)) (Text_Layout.truncate (ms_RequestID msg) 13)
          else Some (''Assistant'', '''', body)
      | RoleError \<Rightarrow> Some (''Error'', '''', wordWrap (ms_Content msg) maxW)
      | RoleSystem \<Rightarrow> Some ('''', '''', ms_Content msg))"

fun renderMessages :: "ChatModel \<Rightarrow> Message list \<Rightarrow> (string \<times> string \<times> string) list option" where
  "renderMessages m [] = Some []"
| "renderMessages m (msg # msgs) =
     (case renderMessage m msg of
        None \<Rightarrow> None
      | Some r \<Rightarrow> map_option ((#) r) (renderMessages m msgs))"

text \<open>Every message is shown with all its words in order.\<close>

lemma renderMessage_words: "\<exists>h i b. renderMessage m msg = Some (h, i, b) \<and> Fields b = Fields (ms_Content msg)"
  by (cases "ms_Role msg") (auto simp: renderMessage_def split_beta Let_def Text_Layout.truncate_def wordWrap_Fields)

lemma renderMessages_words:
  "\<exists>rows. renderMessages m msgs = Some rows \<and>
     map (\<lambda>(h, i, b). Fields b) rows = map (\<lambda>msg. Fields (ms_Content msg)) msgs"
proof (induction msgs)
  case (Cons msg msgs)
  then show ?case using renderMessage_words [of m msg] by auto
qed simp

text \<open>A viewport of less than 20 columns lays its messages out in 80.\<close>

lemma narrow_overflows: "v < 20 \<Longrightarrow> fst (message_widths v) = 80"
  by (simp add: message_widths_def Let_def)

section \<open>Runs of the client\<close>

text \<open>The runtime delivers user messages and the outcomes of the commands it was given, in any order.\<close>

fun user_msg :: "client_msg \<Rightarrow> bool" where
  "user_msg (ChatResponseMsg i r d) = False"
| "user_msg (ChatErrorMsg i e d) = False"
| "user_msg (AutoReplyMsg i r) = False"
| "user_msg msg = True"

fun outcome_of :: "client_cmd \<Rightarrow> client_msg \<Rightarrow> bool" where
  "outcome_of (ChatCmd i cfg p) (ChatResponseMsg j r d) = (i = j)"
| "outcome_of (ChatCmd i cfg p) (ChatErrorMsg j e d) = (i = j)"
| "outcome_of (AutoReplyCmd i r) (AutoReplyMsg j s) = (i = j \<and> r = s)"
| "outcome_of c msg = False"

fun target :: "client_cmd \<Rightarrow> string option" where
  "target (ChatCmd i cfg p) = Some i"
| "target (AutoReplyCmd i r) = Some i"
| "target ClientQuit = None"

inductive client_run :: "ChatModel \<Rightarrow> client_cmd list \<Rightarrow> bool" where
  start: "client_run (NewClient now cfg) []"
| user: "client_run m ps \<Longrightarrow> user_msg msg \<Longrightarrow> client_Update env msg m = Some (m', cmds) \<Longrightarrow>
    client_run m' (ps @ filter (\<lambda>c. target c \<noteq> None) cmds)"
| outcome: "client_run m ps \<Longrightarrow> c \<in> set ps \<Longrightarrow> outcome_of c msg \<Longrightarrow> client_Update env msg m = Some (m', cmds) \<Longrightarrow>
    client_run m' (remove1 c ps)"

fun alternates :: "Role list \<Rightarrow> bool \<Rightarrow> bool" where
  "alternates [] waiting = (\<not> waiting)"
| "alternates [r] waiting = (waiting \<and> r = RoleUser)"
| "alternates (r # r' # rs) waiting = (r = RoleUser \<and> (r' = RoleAssistant \<or> r' = RoleError) \<and> alternates rs waiting)"

definition dialogue :: "Session \<Rightarrow> bool \<Rightarrow> bool" where
  "dialogue s waiting \<longleftrightarrow> (\<exists>rs. map ms_Role (cs_Messages s) = RoleSystem # rs \<and> alternates rs waiting)"

definition session_id :: "int \<Rightarrow> string" where
  "session_id k = ''session-'' @ itoa k"

definition perf_ok :: "PerfStats \<Rightarrow> bool" where
  "perf_ok p \<longleftrightarrow> pf_Total p = pf_OK p + pf_Errors p \<and> pf_Total p = int (length (pf_Latencies p)) \<and>
     0 \<le> pf_OK p \<and> 0 \<le> pf_Errors p"

definition client_ok :: "ChatModel \<Rightarrow> client_cmd list \<Rightarrow> bool" where
  "client_ok m ps \<longleftrightarrow> cm_activeIdx m < length (cm_sessions m) \<and> distinct (map cs_ID (cm_sessions m)) \<and>
     length ps \<le> 1 \<and> cm_loading m = (ps \<noteq> []) \<and> perf_ok (cm_perf m) \<and>
     cs_ID ` set (cm_sessions m) \<union> {i. Some i \<in> target ` set ps} \<subseteq> session_id ` {1 .. cm_sessionCount m} \<and>
     0 \<le> cm_sessionCount m \<and>
     (\<forall>s \<in> set (cm_sessions m). dialogue s (Some (cs_ID s) \<in> target ` set ps))"

lemma alternates_user: "alternates rs False \<Longrightarrow> alternates (rs @ [RoleUser]) True"
  by (induction rs False rule: alternates.induct) auto

lemma alternates_reply: "alternates rs True \<Longrightarrow> r = RoleAssistant \<or> r = RoleError \<Longrightarrow> alternates (rs @ [r]) False"
  by (induction rs True rule: alternates.induct) auto

lemma dialogue_user: "dialogue s False \<Longrightarrow> ms_Role msg = RoleUser \<Longrightarrow> dialogue (add_message msg s) True"
  by (auto simp: dialogue_def add_message_def intro: alternates_user)

lemma dialogue_reply: "dialogue s True \<Longrightarrow> ms_Role msg = RoleAssistant \<or> ms_Role msg = RoleError \<Longrightarrow>
    dialogue (add_message msg s) False"
  by (auto simp: dialogue_def add_message_def intro: alternates_reply)

lemma add_message_ID [simp]: "cs_ID (add_message msg s) = cs_ID s"
  by (simp add: add_message_def)

lemma title_from_fields [simp]: "cs_ID (title_from r s) = cs_ID s" "dialogue (title_from r s) w = dialogue s w"
  by (auto simp: title_from_def dialogue_def)

lemma to_session_ids: "(\<And>s. cs_ID (f s) = cs_ID s) \<Longrightarrow> map cs_ID (to_session i f ss) = map cs_ID ss"
  by (induction ss) auto

lemma to_session_set:
  "distinct (map cs_ID ss) \<Longrightarrow> t \<in> set (to_session i f ss) \<Longrightarrow>
   (\<exists>s \<in> set ss. if cs_ID s = i then t = f s else t = s)"
proof (induction ss)
  case (Cons s ss)
  show ?case
  proof (cases "cs_ID s = i")
    case True
    have "cs_ID s \<notin> cs_ID ` set ss" using Cons.prems(1) by simp
    moreover have "t = f s \<or> t \<in> set ss" using True Cons.prems(2) by simp
    ultimately have "t = f s \<or> t \<in> set ss \<and> cs_ID t \<noteq> i" using True by (metis image_eqI)
    then show ?thesis using True by auto
  next
    case False
    then consider "t = s" | "t \<in> set (to_session i f ss)" using Cons.prems(2) by auto
    then show ?thesis
    proof cases
      case 1
      then show ?thesis using False by auto
    next
      case 2
      then obtain u where "u \<in> set ss" "if cs_ID u = i then t = f u else t = u"
        using Cons.IH Cons.prems(1) by auto
      then show ?thesis by (intro bexI [of _ u]) simp_all
    qed
  qed
qed simp

lemma session_id_inj: "0 \<le> j \<Longrightarrow> 0 \<le> k \<Longrightarrow> session_id j = session_id k \<Longrightarrow> j = k"
  by (auto simp: session_id_def intro: itoa_inj)

lemma perf_ok_count: "perf_ok p \<Longrightarrow> perf_ok (count_reply d ok p)"
  by (simp add: perf_ok_def count_reply_def)

text \<open>Steps that leave sessions and the performance alone.\<close>

lemma client_ok_same:
  assumes "client_ok m ps" and "cm_sessions m' = cm_sessions m" and "cm_loading m' = cm_loading m"
    and "cm_perf m' = cm_perf m" and "cm_sessionCount m' = cm_sessionCount m" and "cm_activeIdx m' < length (cm_sessions m)"
  shows "client_ok m' ps"
  using assms by (simp add: client_ok_def)

lemma delegate_fields [simp]:
  "cm_sessions (delegate env key m) = cm_sessions m" "cm_loading (delegate env key m) = cm_loading m"
  "cm_perf (delegate env key m) = cm_perf m" "cm_sessionCount (delegate env key m) = cm_sessionCount m"
  "cm_activeIdx (delegate env key m) = cm_activeIdx m"
  by (simp_all add: delegate_def)

lemma client_relayout_fields [simp]:
  "cm_sessions (client_relayout m) = cm_sessions m" "cm_loading (client_relayout m) = cm_loading m"
  "cm_perf (client_relayout m) = cm_perf m" "cm_sessionCount (client_relayout m) = cm_sessionCount m"
  "cm_activeIdx (client_relayout m) = cm_activeIdx m"
  by (simp_all add: client_relayout_def Let_def)

lemma client_ok_new:
  assumes "client_ok m ps \<or> cm_sessions m = [] \<and> ps = [] \<and> \<not> cm_loading m \<and> perf_ok (cm_perf m) \<and> cm_sessionCount m = 0"
    and "cm_activeIdx m' = length (cm_sessions m)" and "cm_sessions m' = cm_sessions (add_session now m)"
    and "cm_loading m' = cm_loading m" and "cm_perf m' = cm_perf m" and "cm_sessionCount m' = cm_sessionCount m + 1"
  shows "client_ok m' ps"
proof -
  let ?i = "session_id (cm_sessionCount m + 1)"
  obtain s where s: "cm_sessions m' = cm_sessions m @ [s]" "cs_ID s = ?i" "dialogue s False"
    using assms(3) by (auto simp: add_session_def newSession_def session_id_def dialogue_def Let_def)
  have sub: "cs_ID ` set (cm_sessions m) \<union> {i. Some i \<in> target ` set ps} \<subseteq> session_id ` {1 .. cm_sessionCount m}"
    using assms(1) by (auto simp: client_ok_def)
  have new: "?i \<notin> session_id ` {1 .. cm_sessionCount m}"
  proof
    assume "?i \<in> session_id ` {1 .. cm_sessionCount m}"
    then obtain k where "1 \<le> k" "k \<le> cm_sessionCount m" "?i = session_id k" by auto
    then show False using session_id_inj [of "cm_sessionCount m + 1" k] by simp
  qed
  then have 1: "?i \<notin> cs_ID ` set (cm_sessions m)" and 2: "Some ?i \<notin> target ` set ps" using sub by blast+
  have n: "0 \<le> cm_sessionCount m" and d: "distinct (map cs_ID (cm_sessions m))" and l: "length ps \<le> 1"
    and ld: "cm_loading m = (ps \<noteq> [])" and p: "perf_ok (cm_perf m)"
    and dl: "\<forall>s \<in> set (cm_sessions m). dialogue s (Some (cs_ID s) \<in> target ` set ps)"
    using assms(1) by (auto simp: client_ok_def)
  have "session_id ` {1 .. cm_sessionCount m} \<subseteq> session_id ` {1 .. cm_sessionCount m + 1}" by (rule image_mono) auto
  moreover have "?i \<in> session_id ` {1 .. cm_sessionCount m + 1}" using n by (intro imageI) simp
  ultimately have "cs_ID ` set (cm_sessions m') \<union> {i. Some i \<in> target ` set ps} \<subseteq> session_id ` {1 .. cm_sessionCount m'}"
    using sub s(1,2) assms(6) by auto
  moreover have "\<forall>t \<in> set (cm_sessions m'). dialogue t (Some (cs_ID t) \<in> target ` set ps)"
    using dl s 2 by auto
  moreover have "distinct (map cs_ID (cm_sessions m'))" using d s(1,2) 1 by simp
  moreover have "cm_activeIdx m' < length (cm_sessions m')" using s(1) assms(2) by simp
  ultimately show ?thesis using l ld p n assms(4-6) by (simp add: client_ok_def)
qed



lemma client_ok_delete:
  assumes "client_ok m ps" and "delete_active m = Some m'"
  shows "client_ok m' ps"
proof (cases "1 < length (cm_sessions m)")
  case True
  let ?ss = "take (cm_activeIdx m) (cm_sessions m) @ drop (cm_activeIdx m + 1) (cm_sessions m)"
  have i: "cm_activeIdx m < length (cm_sessions m)" using assms(1) by (simp add: client_ok_def)
  have ss: "cm_sessions m' = ?ss" and i': "cm_activeIdx m' < length ?ss"
    using assms(2) True i by (auto simp: delete_active_def Let_def split: if_splits)
  have same: "cm_loading m' = cm_loading m" "cm_perf m' = cm_perf m" "cm_sessionCount m' = cm_sessionCount m"
    using assms(2) True i by (auto simp: delete_active_def Let_def split: if_splits)
  have sub: "set ?ss \<subseteq> set (cm_sessions m)" using set_take_subset set_drop_subset by fastforce
  let ?X = "map cs_ID (cm_sessions m)"
  have "?X = take (cm_activeIdx m) ?X @ ?X ! cm_activeIdx m # drop (Suc (cm_activeIdx m)) ?X"
    using i by (intro id_take_nth_drop) simp
  moreover have "distinct ?X" using assms(1) by (simp add: client_ok_def)
  ultimately have "distinct (take (cm_activeIdx m) ?X @ drop (Suc (cm_activeIdx m)) ?X)"
    by (metis distinct_append distinct.simps(2) disjoint_insert(1) list.simps(15))
  then have d: "distinct (map cs_ID ?ss)" by (simp add: take_map drop_map)
  have "cs_ID ` set ?ss \<subseteq> cs_ID ` set (cm_sessions m)" using sub by (rule image_mono)
  moreover have "cs_ID ` set (cm_sessions m) \<union> {i. Some i \<in> target ` set ps} \<subseteq> session_id ` {1 .. cm_sessionCount m}"
    using assms(1) by (simp add: client_ok_def)
  ultimately have "cs_ID ` set ?ss \<union> {i. Some i \<in> target ` set ps} \<subseteq> session_id ` {1 .. cm_sessionCount m}" by blast
  moreover have "\<forall>s \<in> set ?ss. dialogue s (Some (cs_ID s) \<in> target ` set ps)"
    using assms(1) sub unfolding client_ok_def by blast
  ultimately show ?thesis
    using assms(1) i' same d by (simp add: client_ok_def ss)
next
  case False
  then show ?thesis using assms by (simp add: delete_active_def)
qed

lemma client_ok_send:
  assumes "client_ok m []" and "prompt \<noteq> ''''" and "sendPrompt intn now prompt m = (m', cmds)"
  shows "client_ok m' cmds \<and> (\<forall>c \<in> set cmds. target c \<noteq> None)"
proof -
  let ?i = "cm_activeIdx m" and ?s = "cm_sessions m ! cm_activeIdx m"
  define msg where "msg = \<lparr>ms_Role = RoleUser, ms_Content = prompt, ms_RequestID = '''', ms_At = now\<rparr>"
  have i: "?i < length (cm_sessions m)" using assms(1) by (simp add: client_ok_def)
  have s: "add_message msg ?s = ?s\<lparr>cs_Messages := cs_Messages ?s @ [msg]\<rparr>" by (simp add: add_message_def)
  obtain c where c: "cmds = [c]" "target c = Some (cs_ID ?s)"
    and ss: "cm_sessions m' = (cm_sessions m)[?i := add_message msg ?s]" and ld: "cm_loading m'"
    and same: "cm_perf m' = cm_perf m" "cm_sessionCount m' = cm_sessionCount m" "cm_activeIdx m' = ?i"
    using assms(3) i by (auto simp: sendPrompt_def Let_def msg_def add_message_def split: option.splits)
  have ids: "map cs_ID (cm_sessions m') = map cs_ID (cm_sessions m)"
    by (simp add: ss map_update) (metis i list_update_id map_update nth_map)
  have "dialogue t (Some (cs_ID t) \<in> target ` set cmds)" if t: "t \<in> set (cm_sessions m')" for t
  proof -
    obtain j where "j < length (cm_sessions m')" "t = cm_sessions m' ! j" using t by (metis in_set_conv_nth)
    then have j: "j < length (cm_sessions m)" "t = (if j = ?i then add_message msg ?s else cm_sessions m ! j)"
      by (auto simp: ss nth_list_update)
    have "dialogue (cm_sessions m ! j) False" using assms(1) j(1) by (auto simp: client_ok_def)
    moreover have "cs_ID (cm_sessions m ! j) \<noteq> cs_ID ?s" if "j \<noteq> ?i"
      using assms(1) i j(1) that by (metis client_ok_def length_map nth_eq_iff_index_eq nth_map)
    ultimately show ?thesis
      using j(2) dialogue_user [of ?s msg] c by (auto simp: msg_def)
  qed
  moreover have "cs_ID ?s \<in> cs_ID ` set (cm_sessions m)" using i by (intro imageI nth_mem)
  moreover have "cs_ID ` set (cm_sessions m') = cs_ID ` set (cm_sessions m)" by (metis ids set_map)
  ultimately show ?thesis
    using assms(1) c ids ld same by (simp add: client_ok_def ss)
qed

lemma client_ok_outcome:
  assumes "client_ok m [c]" and "target c = Some i" and "cm_sessions m' = to_session i f (cm_sessions m)"
    and "\<And>s. cs_ID (f s) = cs_ID s" and "\<And>s. dialogue s True \<Longrightarrow> dialogue (f s) False"
    and "\<not> cm_loading m'" and "perf_ok (cm_perf m')" and "cm_sessionCount m' = cm_sessionCount m"
    and "cm_activeIdx m' = cm_activeIdx m"
  shows "client_ok m' []"
proof -
  have ids: "map cs_ID (cm_sessions m') = map cs_ID (cm_sessions m)" using assms(3,4) to_session_ids by metis
  have "dialogue t False" if t: "t \<in> set (cm_sessions m')" for t
  proof -
    have "distinct (map cs_ID (cm_sessions m))" using assms(1) by (simp add: client_ok_def)
    then obtain s where s: "s \<in> set (cm_sessions m)" "if cs_ID s = i then t = f s else t = s"
      using to_session_set [of "cm_sessions m" t i f] t unfolding assms(3) by blast
    then have "dialogue s (cs_ID s = i)" using assms(1,2) by (auto simp: client_ok_def)
    then show ?thesis using s(2) assms(5) by (cases "cs_ID s = i") auto
  qed
  moreover have "cs_ID ` set (cm_sessions m') = cs_ID ` set (cm_sessions m)" by (metis ids set_map)
  moreover have "length (cm_sessions m') = length (cm_sessions m)" by (metis ids length_map)
  ultimately show ?thesis using assms(1,6-9) ids by (auto simp: client_ok_def)
qed


lemma client_ok_key:
  assumes "client_ok m ps" and "client_key env key m = Some (m', cmds)"
  shows "client_ok m' (ps @ filter (\<lambda>c. target c \<noteq> None) cmds)"
proof -
  have idx: "cm_activeIdx m < length (cm_sessions m)" using assms(1) by (simp add: client_ok_def)
  consider (enter) "key = ''enter''" "cm_focus m = FocusInput" "\<not> cm_loading m" "TrimSpace (cm_input m) \<noteq> ''''"
    | (new) "key = ''ctrl+n''" | (delete) "key = ''ctrl+d''"
    | (other) "\<not> (key = ''enter'' \<and> cm_focus m = FocusInput \<and> \<not> cm_loading m \<and> TrimSpace (cm_input m) \<noteq> '''')"
        "key \<noteq> ''ctrl+n''" "key \<noteq> ''ctrl+d''" by blast
  then show ?thesis
  proof cases
    case enter
    obtain m1 c where S: "sendPrompt (ce_intn env) (ce_clock env 0) (TrimSpace (cm_input m)) m = (m1, c)" by (metis surj_pair)
    have ps: "ps = []" using assms(1) enter(3) by (simp add: client_ok_def)
    note ok = client_ok_send [OF assms(1) [unfolded ps] enter(4) S]
    have "m' = delegate env key m1" "cmds = c" using assms(2) enter by (simp_all add: client_key_def S Let_def)
    then show ?thesis
      using client_ok_same [of m1 c "delegate env key m1"] ok ps by (simp add: client_ok_def)
  next
    case new
    then show ?thesis
      using assms client_ok_new [of m ps m' "ce_clock env"]
      by (auto simp: client_key_def Let_def add_session_def)
  next
    case delete
    then show ?thesis
      using assms client_ok_delete [of m ps m'] by (auto simp: client_key_def)
  next
    case other
    define quit where "quit \<longleftrightarrow> key = ''ctrl+c'' \<or> key = ''ctrl+q''"
    define side where "side \<longleftrightarrow> key = ''ctrl+b''"
    define tab where "tab \<longleftrightarrow> key = ''tab''"
    define up where "up \<longleftrightarrow> key = ''up'' \<or> key = ''k''"
    define down where "down \<longleftrightarrow> key = ''down'' \<or> key = ''j''"
    define send where "send \<longleftrightarrow> key = ''enter''"
    note keys = quit_def [symmetric] side_def [symmetric] tab_def [symmetric] up_def [symmetric] down_def [symmetric]
      send_def [symmetric]
    have "cm_sessions m' = cm_sessions m \<and> cm_loading m' = cm_loading m \<and> cm_perf m' = cm_perf m \<and>
        cm_sessionCount m' = cm_sessionCount m \<and> cm_activeIdx m' < length (cm_sessions m) \<and>
        filter (\<lambda>c. target c \<noteq> None) cmds = []"
      using assms(2) idx other(1)
      unfolding client_key_def if_not_P [OF other(2)] if_not_P [OF other(3)] Let_def keys
      by (auto split: if_splits)
    then show ?thesis using client_ok_same [OF assms(1), of m'] by simp
  qed
qed

lemma client_key_runs: "client_ok m ps \<Longrightarrow> client_key env key m \<noteq> None"
  by (auto simp: client_key_def client_ok_def delete_active_def Let_def split_beta)

lemma client_run_ok: "client_run m ps \<Longrightarrow> client_ok m ps"
proof (induction rule: client_run.induct)
  case (start now cfg)
  show ?case
    by (rule client_ok_new [where now = now and m = "empty_client cfg"])
      (simp_all add: NewClient_def empty_client_def perf_ok_def add_session_def Let_def)
next
  case (user m ps msg env m' cmds)
  note step = user.hyps(3)
  have idx: "cm_activeIdx m < length (cm_sessions m)" using user.IH by (simp add: client_ok_def)
  consider (key) key where "msg = ClientKey key"
    | (other) "cm_sessions m' = cm_sessions m" "cm_loading m' = cm_loading m" "cm_perf m' = cm_perf m"
        "cm_sessionCount m' = cm_sessionCount m" "cm_activeIdx m' = cm_activeIdx m" "cmds = []"
    using step user.hyps(2) by (cases msg) auto
  then show ?case
  proof cases
    case key
    then show ?thesis using client_ok_key [OF user.IH, of env key m' cmds] step by simp
  next
    case other
    then show ?thesis using client_ok_same [OF user.IH, of m'] idx by simp
  qed
next
  case (outcome m ps c msg env m' cmds)
  then have ps: "ps = [c]" by (cases ps) (auto simp: client_ok_def)
  have p: "perf_ok (cm_perf m)" using outcome.IH by (simp add: client_ok_def)
  obtain i where i: "target c = Some i" using outcome.hyps(3) by (cases c) auto
  have "client_ok m' []"
    using outcome.hyps(3,4) i p
    by (cases c; cases msg) (auto intro!: client_ok_outcome [OF outcome.IH [unfolded ps] i] dialogue_reply perf_ok_count)
  then show ?case by (simp add: ps)
qed

text \<open>C15. The chat client keeps every conversation a dialogue, whatever the user does and whenever answers arrive: a
  session is the welcome message followed by questions each with one answer or error, and a last
  question only while its request runs. At most one request runs at a time, answers go to the session
  that asked even when another is shown or it was deleted, identifiers are never reused, and the
  performance counters agree. No key and no answer makes the client panic.\<close>

theorem client_dialogue:
  assumes "client_run m ps"
  shows "length ps \<le> 1 \<and> cm_loading m = (ps \<noteq> []) \<and> cm_activeIdx m < length (cm_sessions m) \<and>
    distinct (map cs_ID (cm_sessions m)) \<and>
    list_all (\<lambda>s. dialogue s (Some (cs_ID s) \<in> target ` set ps)) (cm_sessions m) \<and>
    perf_ok (cm_perf m) \<and> (\<forall>env msg. client_Update env msg m \<noteq> None)"
proof -
  have ok: "client_ok m ps" by (rule client_run_ok [OF assms])
  have "client_Update env msg m \<noteq> None" for env msg
    using client_key_runs [OF ok] by (cases msg) simp_all
  then show ?thesis using ok by (simp add: client_ok_def list_all_iff)
qed


definition example_client :: ClientConfig where
  "example_client = \<lparr>cl_MasterURL = ''url'', cl_UserID = ''u'', cl_Tier = ''free''\<rparr>"

definition typing :: client_env where
  "typing = \<lparr>ce_clock = int, ce_intn = (\<lambda>_. 0), ce_edit = (\<lambda>key s. if s = '''' then ''q'' else s)\<rparr>"

lemma no_small_talk: "AutoReply intn ''q'' = None"
proof -
  have r: "runes (TrimSpace ''q'') = [113]"
    by (simp add: TrimSpace_def runes_def decode_rune_def byte_def space_chunk_def IsSpace_def)
  show ?thesis
    unfolding AutoReply_def Let_def MatchString_def r
    by (simp add: greetings_def thanks_def lit_def opt_space_def opt_apostrophe_def fold_rune_def byte_def re_space_def)
qed

theorem client_dialogue_witness:
  "\<exists>m. client_run m [ChatCmd (session_id 1) example_client ''q''] \<and> cm_loading m \<and>
     list_all (\<lambda>s. dialogue s (cs_ID s = session_id 1)) (cm_sessions m)"
proof -
  let ?m = "NewClient int example_client"
  obtain m1 where m1: "client_Update typing ClientOther ?m = Some (m1, [])" "cm_input m1 = ''q''"
      "cm_sessions m1 = cm_sessions ?m" "cm_activeIdx m1 = 0" "\<not> cm_loading m1" "cm_focus m1 = FocusInput" "cm_cfg m1 = example_client"
    by (simp add: delegate_def NewClient_def empty_client_def add_session_def typing_def Let_def)
  have r1: "client_run m1 []"
    using client_run.user [OF client_run.start [of int example_client] _ m1(1)] by simp
  obtain s where s: "cm_sessions ?m = [s]" "cs_ID s = session_id 1"
    by (simp add: NewClient_def empty_client_def add_session_def newSession_def Let_def session_id_def)
  have t: "TrimSpace ''q'' = ''q''"
    by (simp add: TrimSpace_def decode_rune_def byte_def space_chunk_def IsSpace_def)
  obtain m2 where "client_Update typing (ClientKey ''enter'') m1 = Some (m2, [ChatCmd (session_id 1) example_client ''q''])"
    using m1 s t by (simp add: client_key_def sendPrompt_def no_small_talk Let_def)
  from client_run.user [OF r1 _ this] have r2: "client_run m2 [ChatCmd (session_id 1) example_client ''q'']" by simp
  then show ?thesis using client_dialogue [OF r2] by (auto simp: eq_commute)
qed

end
