(* ===== verification/Client_Frames.thy ===== *)
theory Client_Frames
  imports Terminal Chat_Client
begin

text \<open>
  The frame of the chat client: the theme (\<open>client/tui/theme.go\<close>) and the sidebar, header, input box and footer around
  the messages (\<open>View\<close>, \<open>renderSidebar\<close> and \<open>renderChatArea\<close> of \<open>client/tui/model.go\<close>). What the third-party viewport,
  text area and spinner show is a record of strings. \<open>None\<close> is a panic.
\<close>

section \<open>Theme\<close>

definition colorBase :: string where "colorBase = ''#1e1e2e''"
definition colorMantle :: string where "colorMantle = ''#181825''"
definition colorCrust :: string where "colorCrust = ''#11111b''"
definition colorSurface :: string where "colorSurface = ''#313244''"
definition colorOverlay :: string where "colorOverlay = ''#45475a''"
definition colorText :: string where "colorText = ''#cdd6f4''"
definition colorSubtext :: string where "colorSubtext = ''#a6adc8''"
definition colorMuted :: string where "colorMuted = ''#6c7086''"
definition colorAccent :: string where "colorAccent = ''#89b4fa''"
definition colorGreen :: string where "colorGreen = ''#a6e3a1''"
definition colorRed :: string where "colorRed = ''#f38ba8''"
definition colorYellow :: string where "colorYellow = ''#f9e2af''"
definition colorMauve :: string where "colorMauve = ''#cba6f7''"
definition colorSky :: string where "colorSky = ''#89dceb''"
definition colorPeach :: string where "colorPeach = ''#fab387''"

definition styleSidebar :: style where
  "styleSidebar = [Background colorMantle, BorderRight, Border ''normal'', BorderForeground colorOverlay]"

definition styleSidebarTitle :: style where
  "styleSidebarTitle = [Bold, Foreground colorMauve, Background colorCrust, Padding 0 1]"

definition styleSessionItem :: style where
  "styleSessionItem = [Foreground colorSubtext, PaddingLeft 1]"

definition styleSessionSelected :: style where
  "styleSessionSelected = [Bold, Foreground colorAccent, Background colorSurface, PaddingLeft 1]"

definition styleMain :: style where
  "styleMain = [Background colorBase]"

definition styleHeader :: style where
  "styleHeader = [Bold, Foreground colorText, Background colorCrust, Padding 0 2]"

definition styleUserBubble :: style where
  "styleUserBubble = [Foreground colorAccent, Bold]"

definition styleAssistantBubble :: style where
  "styleAssistantBubble = [Foreground colorGreen]"

definition styleErrorBubble :: style where
  "styleErrorBubble = [Foreground colorRed, Italic]"

definition styleReqID :: style where
  "styleReqID = [Foreground colorSky, Faint]"

definition styleMetaBubble :: style where
  "styleMetaBubble = [Foreground colorMuted, Italic]"

definition styleInputContainer :: style where
  "styleInputContainer = [Background colorSurface, Border ''rounded'', BorderForeground colorAccent, Padding 0 1]"

definition styleInputContainerBlur :: style where
  "styleInputContainerBlur = [Background colorSurface, Border ''rounded'', BorderForeground colorOverlay, Padding 0 1]"

definition styleFooter :: style where
  "styleFooter = [Foreground colorMuted, Background colorCrust, Padding 0 2]"

definition styleSpinner :: style where
  "styleSpinner = [Foreground colorYellow]"

definition styleTier :: style where
  "styleTier = [Foreground colorPeach, Bold]"

text \<open>What the components of the library show.\<close>

record client_screen =
  cs_viewport :: string
  cs_input :: string
  cs_spinner :: string
  cs_lines :: int
  cs_scroll :: float64

section \<open>Messages\<close>

text \<open>The rows of \<open>renderMessage\<close> with their styles.\<close>

definition message_text :: "terminal \<Rightarrow> ChatModel \<Rightarrow> Message \<Rightarrow> string option" where
  "message_text T m msg =
     (case renderMessage m msg of
        None \<Rightarrow> None
      | Some (heading, req, body) \<Rightarrow>
          let maxW = fst (message_widths (cm_vpWidth m)); ts = tm_render T styleMetaBubble (tm_clock T ''15:04'' (ms_At msg))
          in Some (case ms_Role msg of
               RoleUser \<Rightarrow>
                 let bubble = tm_render T [Background colorSurface, Foreground colorText, Padding 0 2] body;
                     row = tm_render T [CellWidth maxW, AlignRight] bubble;
                     header = tm_render T [CellWidth maxW, AlignRight] (ts @ ''  '' @ tm_render T styleUserBubble heading)
                 in header @ newline @ row @ newline
             | RoleAssistant \<Rightarrow>
                 let bubble = tm_render T [Background colorOverlay, Foreground colorText, Padding 0 2] body;
                     reqID = (if req \<noteq> '''' then ''  '' @ tm_render T styleReqID req else '''');
                     header = tm_render T styleAssistantBubble heading @ reqID @ ''  '' @ ts
                 in header @ newline @ bubble @ newline
             | RoleError \<Rightarrow>
                 let bubble = tm_render T [Background colorCrust, Foreground colorRed, Padding 0 2] body;
                     header = tm_render T styleErrorBubble heading @ ''  '' @ ts
                 in header @ newline @ bubble @ newline
             | RoleSystem \<Rightarrow> tm_render T (styleMetaBubble @ [CellWidth maxW, AlignCenter]) body @ newline))"

definition messages_text :: "terminal \<Rightarrow> ChatModel \<Rightarrow> Session \<Rightarrow> string option" where
  "messages_text T m s =
     (if length (cs_Messages s) = 0 then
        Some (tm_render T [Foreground colorMuted, Italic, Padding 4 2, CellWidth (cm_vpWidth m), AlignCenter]
          (''Start a conversation by typing below'' @ ellipsis))
      else map_option concat (those (map (\<lambda>msg. map_option (\<lambda>t. t @ newline) (message_text T m msg)) (cs_Messages s))))"

text \<open>\<open>refreshViewport\<close>: what the viewport is given, or nothing when no session is active.\<close>

definition refreshViewport :: "terminal \<Rightarrow> ChatModel \<Rightarrow> string option option" where
  "refreshViewport T m =
     (if length (cm_sessions m) \<le> cm_activeIdx m then Some None
      else map_option Some (messages_text T m (cm_sessions m ! cm_activeIdx m)))"

section \<open>Sidebar\<close>

definition session_row :: "terminal \<Rightarrow> ChatModel \<Rightarrow> nat \<times> Session \<Rightarrow> string option" where
  "session_row T m = (\<lambda>(i, s).
     case Text_Layout.truncate (cs_Title s) (sidebarWidth - 4) of
       None \<Rightarrow> None
     | Some label \<Rightarrow> Some (if i = cm_activeIdx m
         then tm_render T (styleSessionSelected @ [CellWidth (sidebarWidth - 2)]) (encode_rune 0x25B6 @ '' '' @ label)
         else tm_render T (styleSessionItem @ [CellWidth (sidebarWidth - 2)]) (''  '' @ label)))"

definition sidebar_hint :: string where
  "sidebar_hint = ''  Tab '' @ encode_rune 0x21C4 @ ''  ^N new  ^D del  ^B hide  ^Q quit''"

text \<open>The loops write each line with its end; the hint follows an empty line.\<close>

definition sidebar_content :: "terminal \<Rightarrow> ChatModel \<Rightarrow> string list \<Rightarrow> string" where
  "sidebar_content T m rows =
     (let title = tm_render T (styleSidebarTitle @ [CellWidth sidebarWidth]) ''  LLM Chat'';
          used = 1 + int (length (cm_sessions m)) + 3;
          remaining = cm_height m - used;
          hint = tm_render T (styleMetaBubble @ [CellWidth (sidebarWidth - 2)]) sidebar_hint
      in title @ newline @ concat (map (\<lambda>row. row @ newline) rows) @
         concat (replicate (nat remaining) (replicate (nat sidebarWidth) CHR '' '' @ newline)) @ newline @ hint)"

definition renderSidebar :: "terminal \<Rightarrow> ChatModel \<Rightarrow> string option" where
  "renderSidebar T m =
     (case those (map (session_row T m) (enumerate 0 (cm_sessions m))) of
        None \<Rightarrow> None
      | Some rows \<Rightarrow> Some (tm_render T (styleSidebar @ [CellWidth sidebarWidth, CellHeight (cm_height m)])
          (sidebar_content T m rows)))"

section \<open>Chat area\<close>

definition chat_width :: "ChatModel \<Rightarrow> int" where
  "chat_width m =
     (let chatWidth = (if cm_sidebarVisible m then cm_width m - sidebarWidth - 1 else cm_width m)
      in if chatWidth < 20 then 20 else chatWidth)"

definition chat_header :: "terminal \<Rightarrow> ChatModel \<Rightarrow> string option" where
  "chat_header T m =
     (let w = chat_width m;
          sessionTitle = (if cm_activeIdx m < length (cm_sessions m) then cs_Title (cm_sessions m ! cm_activeIdx m) else ''New Session'')
      in case Text_Layout.truncate sessionTitle (w - 20) of
           None \<Rightarrow> None
         | Some left \<Rightarrow>
             let right = tm_render T styleTier (''['' @ cl_Tier (cm_cfg m) @ '']'') @ ''  '' @
                   tm_render T styleMetaBubble (cl_UserID (cm_cfg m));
                 gap = w - tm_cells T left - tm_cells T right - 4;
                 gap = (if gap < 1 then 1 else gap)
             in map_option (\<lambda>g. tm_render T (styleHeader @ [CellWidth w]) (left @ g @ right)) (Repeat '' '' gap))"

definition input_box :: "terminal \<Rightarrow> client_screen \<Rightarrow> ChatModel \<Rightarrow> string" where
  "input_box T scr m =
     (let w = chat_width m in
      if cm_loading m then
        tm_render T (styleInputContainerBlur @ [CellWidth (w - 2)])
          (tm_render T styleSpinner (cs_spinner scr @ ''  Waiting for response'' @ ellipsis))
      else
        tm_render T ((if cm_focus m \<noteq> FocusInput then styleInputContainerBlur else styleInputContainer) @ [CellWidth (w - 2)])
          (cs_input scr))"

definition footer_info :: "client_screen \<Rightarrow> ChatModel \<Rightarrow> string" where
  "footer_info scr m =
     (let stats = renderPerfStats (cm_perf m);
          scrollInfo = encode_rune 0x2191 @ encode_rune 0x2193 @ '' scroll  '' @
            itoa (scrollPercent (cs_lines scr) (cs_scroll scr)) @ ''%''
      in if stats \<noteq> '''' then scrollInfo @ ''  '' @ encode_rune 0xB7 @ ''  '' @ stats else scrollInfo)"

text \<open>The gap is computed from the lengths in bytes.\<close>

definition chat_footer :: "terminal \<Rightarrow> client_screen \<Rightarrow> ChatModel \<Rightarrow> string option" where
  "chat_footer T scr m =
     (let w = chat_width m; leftInfo = footer_info scr m;
          sendHint = (if cm_loading m then tm_render T styleSpinner (''sending'' @ ellipsis)
            else ''Enter '' @ encode_rune 0x2192 @ '' send  ^Q quit'')
      in map_option (\<lambda>g. tm_render T (styleFooter @ [CellWidth w]) (leftInfo @ g @ sendHint))
           (Repeat '' '' (max 1 (w - int (length leftInfo) - int (length sendHint) - 4))))"

definition renderChatArea :: "terminal \<Rightarrow> client_screen \<Rightarrow> ChatModel \<Rightarrow> string option" where
  "renderChatArea T scr m =
     (case (chat_header T m, chat_footer T scr m) of
        (Some header, Some footer) \<Rightarrow>
          Some (tm_vertical T [header, tm_render T (styleMain @ [CellWidth (chat_width m)]) (cs_viewport scr), input_box T scr m, footer])
      | _ \<Rightarrow> None)"

definition client_View :: "terminal \<Rightarrow> client_screen \<Rightarrow> ChatModel \<Rightarrow> string option" where
  "client_View T scr m =
     (if cm_width m = 0 then Some (''Loading'' @ ellipsis)
      else if \<not> cm_sidebarVisible m then renderChatArea T scr m
      else case renderSidebar T m of
          None \<Rightarrow> None
        | Some sidebar \<Rightarrow> map_option (\<lambda>area. tm_horizontal T [sidebar, area]) (renderChatArea T scr m))"

section \<open>Drawing the client\<close>

lemma truncate_total: "0 \<le> n \<Longrightarrow> Text_Layout.truncate s n \<noteq> None"
  by (simp add: Text_Layout.truncate_def Let_def)

lemma chat_width_min: "20 \<le> chat_width m"
  by (simp add: chat_width_def Let_def)

lemma renderChatArea_total: "\<exists>t. renderChatArea T scr m = Some t"
proof -
  obtain left where "Text_Layout.truncate (if cm_activeIdx m < length (cm_sessions m)
      then cs_Title (cm_sessions m ! cm_activeIdx m) else ''New Session'') (chat_width m - 20) = Some left"
    using truncate_total [of "chat_width m - 20"] chat_width_min [of m] by fastforce
  then have "\<exists>h. chat_header T m = Some h" by (simp add: chat_header_def Let_def)
  moreover have "\<exists>f. chat_footer T scr m = Some f" by (simp add: chat_footer_def Let_def)
  ultimately show ?thesis by (auto simp: renderChatArea_def)
qed

lemma message_text_total: "message_text T m msg \<noteq> None"
proof -
  obtain h i b where "renderMessage m msg = Some (h, i, b)" using renderMessage_words by blast
  then show ?thesis by (simp add: message_text_def Let_def)
qed

lemma messages_text_total: "messages_text T m s \<noteq> None"
proof -
  have "those (map (\<lambda>msg. map_option (\<lambda>t. t @ newline) (message_text T m msg)) (cs_Messages s)) \<noteq> None"
    by (rule those_total) (use message_text_total [of T m] in auto)
  then show ?thesis by (auto simp: messages_text_def simp del: not_None_eq)
qed

lemma session_row_total: "session_row T m x \<noteq> None"
  using truncate_total [of 24] by (cases x) (auto simp: session_row_def sidebarWidth_def split: option.split)

text \<open>The lines of the sidebar when its pieces are single lines.\<close>

definition sidebar_lines :: "terminal \<Rightarrow> ChatModel \<Rightarrow> string list \<Rightarrow> string list" where
  "sidebar_lines T m rows =
     [tm_render T (styleSidebarTitle @ [CellWidth sidebarWidth]) ''  LLM Chat''] @ rows @
     replicate (nat (cm_height m - (1 + int (length (cm_sessions m)) + 3))) (replicate (nat sidebarWidth) CHR '' '') @
     ['''', tm_render T (styleMetaBubble @ [CellWidth (sidebarWidth - 2)]) sidebar_hint]"

lemma Join_lines: "ys \<noteq> [] \<Longrightarrow> concat (map (\<lambda>l. l @ newline) xs) @ Join newline ys = Join newline (xs @ ys)"
proof (induction xs)
  case (Cons x xs)
  then obtain z zs where "xs @ ys = z # zs" by (cases "xs @ ys") auto
  then show ?case using Cons by simp
qed simp

lemma sidebar_content_lines: "sidebar_content T m rows = Join newline (sidebar_lines T m rows)"
proof -
  let ?n = "nat (cm_height m - (1 + int (length (cm_sessions m)) + 3))" and ?b = "replicate (nat sidebarWidth) CHR '' ''"
  let ?t = "tm_render T (styleSidebarTitle @ [CellWidth sidebarWidth]) ''  LLM Chat''"
  let ?h = "tm_render T (styleMetaBubble @ [CellWidth (sidebarWidth - 2)]) sidebar_hint"
  have "concat (map (\<lambda>l. l @ newline) (?t # rows @ replicate ?n ?b)) @ Join newline ['''', ?h] =
      Join newline ((?t # rows @ replicate ?n ?b) @ ['''', ?h])"
    by (rule Join_lines) simp
  then show ?thesis
    by (simp add: sidebar_content_def sidebar_lines_def Let_def)
qed

lemma those_length: "those xs = Some ys \<Longrightarrow> length ys = length xs"
  by (induction xs arbitrary: ys) (auto split: option.splits)

text \<open>The client can always be drawn: for every state, whatever the size of the terminal, neither \<open>View\<close> nor the text of
  the messages panics. The sidebar has one line for each session; it has one line less than the terminal as long as they fit, and is taller than
  the terminal as soon as there are more than its height less three.\<close>

theorem client_frame:
  "\<exists>t rows. client_View T scr m = Some t \<and> length rows = length (cm_sessions m) \<and>
    renderSidebar T m = Some (tm_render T (styleSidebar @ [CellWidth sidebarWidth, CellHeight (cm_height m)])
      (Join newline (sidebar_lines T m rows))) \<and>
    int (length (sidebar_lines T m rows)) = max (cm_height m - 1) (int (length (cm_sessions m)) + 3) \<and>
    refreshViewport T m \<noteq> None"
proof -
  obtain area where a: "renderChatArea T scr m = Some area" using renderChatArea_total by blast
  have "those (map (session_row T m) (enumerate 0 (cm_sessions m))) \<noteq> None"
    by (rule those_total) (rule session_row_total)
  then obtain rows where r: "those (map (session_row T m) (enumerate 0 (cm_sessions m))) = Some rows" by blast
  have len: "length rows = length (cm_sessions m)" using those_length [OF r] by simp
  have s: "renderSidebar T m = Some (tm_render T (styleSidebar @ [CellWidth sidebarWidth, CellHeight (cm_height m)])
      (Join newline (sidebar_lines T m rows)))"
    by (simp add: renderSidebar_def r sidebar_content_lines)
  moreover have "int (length (sidebar_lines T m rows)) = max (cm_height m - 1) (int (length (cm_sessions m)) + 3)"
    by (simp add: sidebar_lines_def len max_def)
  moreover have "\<exists>t. client_View T scr m = Some t" by (simp add: client_View_def s a)
  moreover have "refreshViewport T m \<noteq> None"
    using messages_text_total by (simp add: refreshViewport_def del: not_None_eq)
  ultimately show ?thesis using len by blast
qed

end
