(* ===== verification/Load_Test.thy ===== *)
theory Load_Test
  imports Load_Metrics Http_Retry
begin

text \<open>
  The load test client (\<open>client/loadtest/loadtui/model.go\<close>, and the configuration \<open>main.go\<close> gives it): the
  model of the terminal interface with its message handler \<open>Update\<close>, which sends bursts of generated
  requests and counts the answers. A command the runtime is asked to run is a value of \<open>lt_cmd\<close>; the
  clock, the random generator and the styles are parameters. The viewport is a third-party component:
  its size and the content given to it are kept.
\<close>

section \<open>State\<close>

datatype lt_tab = TabDashboard | TabLogs | TabConfig

record sendMsg =
  sm_ID :: string
  sm_UserID :: string
  sm_Tier :: string
  sm_Prompt :: string
  sm_Started :: time

record doneMsg =
  dm_ID :: string
  dm_UserID :: string
  dm_Tier :: string
  dm_Prompt :: string
  dm_Reply :: string
  dm_Latency :: duration
  dm_Err :: "string option"
  dm_Finished :: time

record lt_viewport =
  vp_Width :: int
  vp_Height :: int
  vp_Content :: string

record LoadModel =
  lt_cfg :: LoadConfig
  lt_active :: lt_tab
  lt_width :: int
  lt_height :: int
  lt_logs :: "LoadLogEntry list"
  lt_metrics :: LoadMetrics
  lt_logVP :: lt_viewport
  lt_paused :: bool
  lt_mode :: string
  lt_seed :: int
  lt_lastRate :: time

datatype lt_msg = WindowSizeMsg int int | TickMsg | SendMsg sendMsg | DoneMsg doneMsg | KeyMsg string | OtherMsg

datatype lt_cmd = CmdTick | CmdSend sendMsg | CmdRun string sendMsg | CmdQuit

text \<open>The readings of the clock in one call, the draws \<open>Intn(n)\<close> of a generator with a given seed, and the
  appearance of a log line.\<close>

record load_env =
  le_now :: "nat \<Rightarrow> time"
  le_intn :: "int \<Rightarrow> nat \<Rightarrow> int \<Rightarrow> int"
  le_clock :: "time \<Rightarrow> string"
  le_ok :: "string \<Rightarrow> string"
  le_err :: "string \<Rightarrow> string"

definition load_config :: "string \<Rightarrow> string \<Rightarrow> int \<Rightarrow> string \<Rightarrow> int \<Rightarrow> int \<Rightarrow> duration \<Rightarrow> LoadConfig" where
  "load_config masterURL userID freePercent paidTier burstCount rateCount rateEvery =
     \<lparr>lc_MasterURL = masterURL, lc_UserIDBase = userID, FreePct = clampPct freePercent, PaidTier = paidTier,
      BurstCount = max 1 burstCount, RateCount = max 1 rateCount, RateEvery = rateEvery\<rparr>"

definition New :: "time \<Rightarrow> time \<Rightarrow> LoadConfig \<Rightarrow> LoadModel" where
  "New t1 t2 cfg =
     \<lparr>lt_cfg = cfg, lt_active = TabDashboard, lt_width = 0, lt_height = 0, lt_logs = [],
      lt_metrics = NewMetrics t1, lt_logVP = \<lparr>vp_Width = 80, vp_Height = 20, vp_Content = ''''\<rparr>,
      lt_paused = True, lt_mode = ''burst'', lt_seed = t2, lt_lastRate = zero_time\<rparr>"

section \<open>Sending\<close>

definition pickUser :: "load_env \<Rightarrow> int \<Rightarrow> LoadModel \<Rightarrow> string \<times> string" where
  "pickUser env seed m =
     (if le_intn env seed 0 100 < FreePct (lt_cfg m)
      then (lc_UserIDBase (lt_cfg m) @ ''-free-'' @ itoa (le_intn env seed 1 100000), ''free'')
      else (lc_UserIDBase (lt_cfg m) @ ''-paid-'' @ itoa (le_intn env seed 1 100000), PaidTier (lt_cfg m)))"

definition prompt_words :: "string list" where
  "prompt_words = [''Explain'', ''summarize'', ''compare'', ''list'', ''outline'', ''design'',
     ''distributed'', ''systems'', ''load'', ''balancing'', ''GPU'', ''cluster'',
     ''RAG'', ''retrieval'', ''latency'', ''throughput'', ''autoscaling'',
     ''fault'', ''tolerance'', ''health'', ''check'', ''queue'']"

definition randomPrompt :: "load_env \<Rightarrow> int \<Rightarrow> string" where
  "randomPrompt env seed =
     (let cnt = 6 + le_intn env seed 0 6 in
      Join '' '' (map (\<lambda>i. prompt_words ! nat (le_intn env seed (1 + i) (int (length prompt_words)))) [0 ..< nat cnt]))"

definition sendOne :: "load_env \<Rightarrow> nat \<Rightarrow> LoadModel \<Rightarrow> LoadModel \<times> lt_cmd list" where
  "sendOne env k m =
     (let seed = lt_seed m;
          m = m\<lparr>lt_seed := lt_seed m + 1\<rparr>;
          (userID, tier) = pickUser env seed m;
          prompt = randomPrompt env seed;
          i = ''req-'' @ itoa (le_now env k);
          started = le_now env (k + 1);
          msg = \<lparr>sm_ID = i, sm_UserID = userID, sm_Tier = tier, sm_Prompt = prompt, sm_Started = started\<rparr>
      in (m, [CmdSend msg, CmdRun (lc_MasterURL (lt_cfg m)) msg]))"

fun burst_loop :: "load_env \<Rightarrow> nat \<Rightarrow> nat \<Rightarrow> LoadModel \<Rightarrow> lt_cmd list \<Rightarrow> LoadModel \<times> lt_cmd list" where
  "burst_loop env 0 k m cmds = (m, cmds)"
| "burst_loop env (Suc n) k m cmds =
     (let (m, c) = sendOne env k m in burst_loop env n (k + 2) m (cmds @ c))"

definition scheduleBurst :: "load_env \<Rightarrow> nat \<Rightarrow> int \<Rightarrow> LoadModel \<Rightarrow> LoadModel \<times> lt_cmd list" where
  "scheduleBurst env k n m = (if n \<le> 0 then (m, []) else burst_loop env (nat n) k m [])"

text \<open>What a \<open>CmdRun\<close> does, with the server of \<open>sendChat\<close>: \<open>t1\<close> and \<open>t2\<close> are the clock after the answer.\<close>

definition runRequest :: "(string \<Rightarrow> chatRequest \<Rightarrow> nat \<Rightarrow> attempt) \<Rightarrow> (nat \<Rightarrow> bool) \<Rightarrow> time \<Rightarrow> time \<Rightarrow> string \<Rightarrow>
    sendMsg \<Rightarrow> doneMsg" where
  "runRequest server cancelled t1 t2 masterURL s =
     (let d = \<lparr>dm_ID = sm_ID s, dm_UserID = sm_UserID s, dm_Tier = sm_Tier s, dm_Prompt = sm_Prompt s,
                dm_Reply = '''', dm_Latency = time_sub t1 (sm_Started s), dm_Err = None, dm_Finished = t2\<rparr>
      in case fst (lt_sendChat server cancelled masterURL (sm_UserID s) (sm_Tier s) (sm_Prompt s)) of
           Inl (Some err) \<Rightarrow> d\<lparr>dm_Err := Some err\<rparr>
         | Inl None \<Rightarrow> d
         | Inr resp \<Rightarrow> d\<lparr>dm_Reply := cr_Reply resp\<rparr>)"

section \<open>Logs\<close>

definition log_entry_of :: "doneMsg \<Rightarrow> LoadLogEntry" where
  "log_entry_of msg =
     (let reply = dm_Reply msg;
          reply = (if reply = '''' \<and> dm_Err msg \<noteq> None then the (dm_Err msg) else reply);
          short = lt_truncate reply 60;
          st = (if dm_Err msg \<noteq> None then ''err'' else ''ok'');
          entry = \<lparr>ll_At = dm_Finished msg, ll_UserID = dm_UserID msg, ll_Tier = dm_Tier msg,
            ll_Prompt = lt_truncate (dm_Prompt msg) 60, ll_ReplyShort = short, ll_Latency = dm_Latency msg,
            ll_Status = st, ll_Error = ''''\<rparr>
      in case dm_Err msg of None \<Rightarrow> entry | Some e \<Rightarrow> entry\<lparr>ll_Error := e\<rparr>)"

definition appendLog :: "doneMsg \<Rightarrow> LoadModel \<Rightarrow> LoadModel" where
  "appendLog msg m =
     (let m = m\<lparr>lt_logs := lt_logs m @ [log_entry_of msg]\<rparr> in
      if 1000 < length (lt_logs m) then m\<lparr>lt_logs := drop (length (lt_logs m) - 1000) (lt_logs m)\<rparr> else m)"

definition log_line :: "load_env \<Rightarrow> LoadLogEntry \<Rightarrow> string" where
  "log_line env entry =
     (let st = (if ll_Status entry \<noteq> ''ok'' then le_err env ''ERR'' else le_ok env ''OK'')
      in le_clock env (ll_At entry) @ '' '' @ st @ '' '' @ pad (ll_Tier entry) 5 @ '' '' @ pad (ll_UserID entry) 18 @
         '' | '' @ pad (ll_Prompt entry) 40 @ '' | '' @ pad (ll_ReplyShort entry) 60 @ '' | '' @
         fmtDuration (ll_Latency entry))"

definition renderLogContent :: "load_env \<Rightarrow> LoadModel \<Rightarrow> string" where
  "renderLogContent env m = concat (map (\<lambda>e. log_line env e @ newline) (lt_logs m))"

definition refreshLogs :: "load_env \<Rightarrow> LoadModel \<Rightarrow> LoadModel" where
  "refreshLogs env m =
     (if lt_active m \<noteq> TabLogs then m
      else m\<lparr>lt_logVP := (lt_logVP m)\<lparr>vp_Content := renderLogContent env m\<rparr>\<rparr>)"

definition relayout :: "LoadModel \<Rightarrow> LoadModel" where
  "relayout m =
     (let bodyHeight = lt_height m - 4;
          bodyHeight = (if bodyHeight < 6 then 6 else bodyHeight)
      in m\<lparr>lt_logVP := (lt_logVP m)\<lparr>vp_Width := lt_width m - 4, vp_Height := bodyHeight - 2\<rparr>\<rparr>)"


section \<open>Messages\<close>

definition update_cfg :: "(LoadConfig \<Rightarrow> LoadConfig) \<Rightarrow> LoadModel \<Rightarrow> LoadModel" where
  "update_cfg f m = m\<lparr>lt_cfg := f (lt_cfg m)\<rparr>"

definition handle_key :: "load_env \<Rightarrow> string \<Rightarrow> LoadModel \<Rightarrow> LoadModel \<times> lt_cmd list" where
  "handle_key env key m =
     (if key = ''ctrl+c'' \<or> key = ''ctrl+q'' then (m, [CmdQuit])
      else if key = ''1'' then (m\<lparr>lt_active := TabDashboard\<rparr>, [])
      else if key = ''2'' then (m\<lparr>lt_active := TabLogs\<rparr>, [])
      else if key = ''3'' then (m\<lparr>lt_active := TabConfig\<rparr>, [])
      else if key = ''b'' then scheduleBurst env 0 (BurstCount (lt_cfg m)) m
      else if key = ''r'' then (m\<lparr>lt_mode := ''rate'', lt_paused := False, lt_lastRate := le_now env 0\<rparr>, [])
      else if key = ''p'' then (m\<lparr>lt_paused := True\<rparr>, [])
      else if key = ''+'' then (update_cfg (\<lambda>c. c\<lparr>BurstCount := BurstCount c + 10\<rparr>) m, [])
      else if key = ''-'' then
        (update_cfg (\<lambda>c. if 1 < BurstCount c then c\<lparr>BurstCount := BurstCount c - 10\<rparr> else c) m, [])
      else if key = '']'' then (update_cfg (\<lambda>c. c\<lparr>RateCount := RateCount c + 1\<rparr>) m, [])
      else if key = ''['' then
        (update_cfg (\<lambda>c. if 1 < RateCount c then c\<lparr>RateCount := RateCount c - 1\<rparr> else c) m, [])
      else if key = ''='' then (update_cfg (\<lambda>c. c\<lparr>FreePct := clampPct (FreePct c + 5)\<rparr>) m, [])
      else if key = ''_'' then (update_cfg (\<lambda>c. c\<lparr>FreePct := clampPct (FreePct c - 5)\<rparr>) m, [])
      else if key = ''t'' then
        (update_cfg (\<lambda>c. c\<lparr>PaidTier := if PaidTier c = ''pro'' then ''elite'' else ''pro''\<rparr>) m, [])
      else if key = ''s'' then (m\<lparr>lt_mode := ''burst'', lt_paused := True\<rparr>, [])
      else (m, []))"

definition handle_tick :: "load_env \<Rightarrow> LoadModel \<Rightarrow> LoadModel \<times> lt_cmd list" where
  "handle_tick env m =
     (let (m, cmds) =
            (if \<not> lt_paused m \<and> lt_mode m = ''rate'' \<and>
                (IsZero (lt_lastRate m) \<or> RateEvery (lt_cfg m) \<le> time_sub (le_now env 0) (lt_lastRate m))
             then scheduleBurst env 2 (RateCount (lt_cfg m)) (m\<lparr>lt_lastRate := le_now env 1\<rparr>)
             else (m, []))
      in (m, cmds @ [CmdTick]))"

fun lt_Update :: "load_env \<Rightarrow> lt_msg \<Rightarrow> LoadModel \<Rightarrow> LoadModel \<times> lt_cmd list" where
  "lt_Update env (WindowSizeMsg w h) m =
     (refreshLogs env (relayout (m\<lparr>lt_width := w, lt_height := h\<rparr>)), [])"
| "lt_Update env TickMsg m = handle_tick env m"
| "lt_Update env (SendMsg s) m = (m\<lparr>lt_metrics := MarkSent (le_now env 0) (lt_metrics m)\<rparr>, [])"
| "lt_Update env (DoneMsg d) m =
     (let mark = (if dm_Err d \<noteq> None then MarkFail else MarkOK);
          m = m\<lparr>lt_metrics := mark (le_now env 0) (dm_Latency d) (lt_metrics m)\<rparr>
      in (refreshLogs env (appendLog d m), []))"
| "lt_Update env (KeyMsg key) m = handle_key env key m"
| "lt_Update env OtherMsg m = (m, [])"

definition Report :: "time \<Rightarrow> time \<Rightarrow> LoadModel \<Rightarrow> SystemStats" where
  "Report t1 t2 m = load_Snapshot t1 t2 (lt_cfg m) (lt_metrics m)"

text \<open>What the dashboard shows.\<close>

definition dashboard_status :: "LoadModel \<Rightarrow> string" where
  "dashboard_status m =
     (if \<not> lt_paused m \<and> lt_mode m = ''rate'' then ''rate''
      else if \<not> lt_paused m \<and> lt_mode m = ''burst'' then ''burst'' else ''paused'')"

definition dashboard :: "time \<Rightarrow> time \<Rightarrow> LoadModel \<Rightarrow> string \<times> Counters \<times> LatencyStats \<times> RateStats" where
  "dashboard t1 t2 m =
     (let ms = lt_metrics m in
      (dashboard_status m, load_Counters ms, computeLatency (lm_latencies ms),
       computeRates t1 (lm_sentWindow ms) (lm_completedWindow ms) (lm_sent ms) (lm_ok ms + lm_fail ms)
         (time_sub t2 (lm_start ms))))"

text \<open>A session: the messages in the order the runtime delivers them, each with its environment.\<close>

fun session :: "(load_env \<times> lt_msg) list \<Rightarrow> LoadModel \<Rightarrow> LoadModel" where
  "session [] m = m"
| "session ((env, msg) # ms) m = session ms (fst (lt_Update env msg m))"

section \<open>Bursts\<close>

lemma sendOne_fields:
  "fst (sendOne env k m) = m\<lparr>lt_seed := lt_seed m + 1\<rparr>"
  by (simp add: sendOne_def Let_def split_beta)

lemma burst_loop_model: "fst (burst_loop env n k m cmds) = m\<lparr>lt_seed := lt_seed m + int n\<rparr>"
proof (induction n arbitrary: k m cmds)
  case (Suc n)
  show ?case using Suc [of "k + 2" "fst (sendOne env k m)"] by (simp add: sendOne_fields split_beta)
qed simp

lemma scheduleBurst_model: "fst (scheduleBurst env k n m) = m\<lparr>lt_seed := lt_seed m + max 0 n\<rparr>"
  by (simp add: scheduleBurst_def burst_loop_model)

definition request_of :: "load_env \<Rightarrow> nat \<Rightarrow> LoadModel \<Rightarrow> nat \<Rightarrow> sendMsg" where
  "request_of env k m i =
     (let seed = lt_seed m + int i in
      \<lparr>sm_ID = ''req-'' @ itoa (le_now env (k + 2 * i)), sm_UserID = fst (pickUser env seed m),
       sm_Tier = snd (pickUser env seed m), sm_Prompt = randomPrompt env seed,
       sm_Started = le_now env (k + 2 * i + 1)\<rparr>)"

lemma pickUser_seed [simp]: "pickUser env s (m\<lparr>lt_seed := x\<rparr>) = pickUser env s m"
  by (simp add: pickUser_def)

lemma burst_loop_cmds:
  "snd (burst_loop env n k m cmds) = cmds @
     concat (map (\<lambda>i. [CmdSend (request_of env k m i), CmdRun (lc_MasterURL (lt_cfg m)) (request_of env k m i)]) [0 ..< n])"
proof (induction n arbitrary: k m cmds)
  case (Suc n)
  have r: "request_of env (Suc (Suc k)) (m\<lparr>lt_seed := lt_seed m + 1\<rparr>) i = request_of env k m (Suc i)" for i
    by (simp add: request_of_def Let_def add.assoc)
  have s: "snd (sendOne env k m) = [CmdSend (request_of env k m 0), CmdRun (lc_MasterURL (lt_cfg m)) (request_of env k m 0)]"
    by (simp add: sendOne_def request_of_def Let_def split_beta)
  have u: "[0 ..< Suc n] = 0 # map Suc [0 ..< n]" by (simp add: map_Suc_upt upt_conv_Cons)
  show ?case
    unfolding u using Suc [of "k + 2" "fst (sendOne env k m)"] by (simp add: sendOne_fields split_beta s r o_def)
qed simp

text \<open>A burst sends exactly as many requests as configured, none when the size is not positive: each is
  counted and run with the same identifier, user, tier and prompt, and the seeds are consecutive. When the
  generator draws from its range, a free share of 100 makes every request free and one of 0 makes
  every request paid.\<close>

theorem burst_requests:
  assumes "\<forall>s k. 0 \<le> le_intn env s k 100 \<and> le_intn env s k 100 < 100"
  shows "let n = nat (BurstCount (lt_cfg m)); reqs = map (request_of env 0 m) [0 ..< n] in
    lt_Update env (KeyMsg ''b'') m = (m\<lparr>lt_seed := lt_seed m + int n\<rparr>,
      concat (map (\<lambda>r. [CmdSend r, CmdRun (lc_MasterURL (lt_cfg m)) r]) reqs)) \<and>
    (FreePct (lt_cfg m) = 100 \<longrightarrow> map sm_Tier reqs = replicate n ''free'') \<and>
    (FreePct (lt_cfg m) = 0 \<longrightarrow> map sm_Tier reqs = replicate n (PaidTier (lt_cfg m)))"
proof -
  let ?n = "nat (BurstCount (lt_cfg m))"
  have "lt_Update env (KeyMsg ''b'') m = scheduleBurst env 0 (BurstCount (lt_cfg m)) m"
    by (simp add: handle_key_def)
  also have "\<dots> = burst_loop env ?n 0 m []" by (simp add: scheduleBurst_def)
  also have "\<dots> = (m\<lparr>lt_seed := lt_seed m + int ?n\<rparr>,
      concat (map (\<lambda>r. [CmdSend r, CmdRun (lc_MasterURL (lt_cfg m)) r]) (map (request_of env 0 m) [0 ..< ?n])))"
    using burst_loop_model [of env ?n 0 m "[]"] burst_loop_cmds [of env ?n 0 m "[]"] by (simp add: prod_eq_iff o_def)
  finally have b: "lt_Update env (KeyMsg ''b'') m = \<dots>" .
  have t: "sm_Tier (request_of env 0 m i) = (if FreePct (lt_cfg m) = 100 then ''free'' else PaidTier (lt_cfg m))"
    if "FreePct (lt_cfg m) = 100 \<or> FreePct (lt_cfg m) = 0" for i
    using assms [rule_format, of "lt_seed m + int i" 0] that by (auto simp: request_of_def pickUser_def Let_def)
  show ?thesis
    unfolding Let_def b using t by (auto intro!: nth_equalityI)
qed


section \<open>Sessions\<close>

fun event_of :: "load_env \<times> lt_msg \<Rightarrow> load_event list" where
  "event_of (env, SendMsg s) = [Sent (le_now env 0)]"
| "event_of (env, DoneMsg d) =
     [if dm_Err d \<noteq> None then Failed (le_now env 0) (dm_Latency d) else Answered (le_now env 0) (dm_Latency d)]"
| "event_of (env, msg) = []"

fun done_of :: "load_env \<times> lt_msg \<Rightarrow> doneMsg list" where
  "done_of (env, DoneMsg d) = [d]"
| "done_of (env, msg) = []"

definition cfg_ok :: "LoadConfig \<Rightarrow> LoadConfig \<Rightarrow> bool" where
  "cfg_ok c0 c \<longleftrightarrow> 0 \<le> FreePct c \<and> FreePct c \<le> 100 \<and> 1 \<le> RateCount c \<and> -8 \<le> BurstCount c \<and>
     RateEvery c = RateEvery c0 \<and> lc_MasterURL c = lc_MasterURL c0 \<and> lc_UserIDBase c = lc_UserIDBase c0"

lemma appendLog_logs: "length (lt_logs m) \<le> 1000 \<Longrightarrow> lt_logs (appendLog d m) = lastn 1000 (lt_logs m @ [log_entry_of d])"
  by (simp add: appendLog_def Let_def lastn_def)

lemma appendLog_fields [simp]:
  "lt_cfg (appendLog d m) = lt_cfg m" "lt_metrics (appendLog d m) = lt_metrics m" "lt_seed (appendLog d m) = lt_seed m"
  by (simp_all add: appendLog_def Let_def)

lemma refreshLogs_fields [simp]:
  "lt_cfg (refreshLogs env m) = lt_cfg m" "lt_metrics (refreshLogs env m) = lt_metrics m"
  "lt_seed (refreshLogs env m) = lt_seed m" "lt_logs (refreshLogs env m) = lt_logs m"
  by (simp_all add: refreshLogs_def)

lemma relayout_fields [simp]:
  "lt_cfg (relayout m) = lt_cfg m" "lt_metrics (relayout m) = lt_metrics m"
  "lt_seed (relayout m) = lt_seed m" "lt_logs (relayout m) = lt_logs m"
  by (simp_all add: relayout_def Let_def)

lemma handle_key_fields:
  "lt_metrics (fst (handle_key env key m)) = lt_metrics m" "lt_logs (fst (handle_key env key m)) = lt_logs m"
  "lt_seed m \<le> lt_seed (fst (handle_key env key m))"
  "cfg_ok c0 (lt_cfg m) \<Longrightarrow> cfg_ok c0 (lt_cfg (fst (handle_key env key m)))"
  using clampPct_range
  by (simp_all add: handle_key_def scheduleBurst_model update_cfg_def cfg_ok_def)

lemma handle_tick_fields:
  "lt_metrics (fst (handle_tick env m)) = lt_metrics m" "lt_logs (fst (handle_tick env m)) = lt_logs m"
  "lt_seed m \<le> lt_seed (fst (handle_tick env m))" "lt_cfg (fst (handle_tick env m)) = lt_cfg m"
  by (auto simp: handle_tick_def scheduleBurst_model Let_def split_beta)

lemma Update_step:
  assumes "length (lt_logs m) \<le> 1000"
  shows "lt_metrics (fst (lt_Update env msg m)) = fold apply_event (event_of (env, msg)) (lt_metrics m)"
    and "lt_logs (fst (lt_Update env msg m)) = lastn 1000 (lt_logs m @ map log_entry_of (done_of (env, msg)))"
    and "lt_seed m \<le> lt_seed (fst (lt_Update env msg m))"
    and "cfg_ok c0 (lt_cfg m) \<Longrightarrow> cfg_ok c0 (lt_cfg (fst (lt_Update env msg m)))"
  using assms
  by (cases msg; simp add: Let_def handle_key_fields handle_tick_fields appendLog_logs)+

lemma lastn_again: "lastn n (lastn n xs @ ys) = lastn n (xs @ ys)"
  by (simp add: lastn_append lastn_lastn)

lemma session_step:
  assumes "length (lt_logs m) \<le> 1000" and "cfg_ok c0 (lt_cfg m)"
  shows "cfg_ok c0 (lt_cfg (session ms m)) \<and> lt_seed m \<le> lt_seed (session ms m) \<and>
    lt_metrics (session ms m) = fold apply_event (concat (map event_of ms)) (lt_metrics m) \<and>
    lt_logs (session ms m) = lastn 1000 (lt_logs m @ map log_entry_of (concat (map done_of ms)))"
  using assms
proof (induction ms arbitrary: m)
  case (Cons p ms)
  obtain env msg where p: "p = (env, msg)" by (cases p)
  let ?m = "fst (lt_Update env msg m)"
  note U = Update_step [OF Cons.prems(1), where env = env and msg = msg]
  have "length (lt_logs ?m) \<le> 1000" by (simp add: U)
  then have IH: "cfg_ok c0 (lt_cfg (session ms ?m)) \<and> lt_seed ?m \<le> lt_seed (session ms ?m) \<and>
    lt_metrics (session ms ?m) = fold apply_event (concat (map event_of ms)) (lt_metrics ?m) \<and>
    lt_logs (session ms ?m) = lastn 1000 (lt_logs ?m @ map log_entry_of (concat (map done_of ms)))"
    using Cons.IH [of ?m] U(4) [OF Cons.prems(2)] by blast
  have "lt_logs (session ms ?m) =
      lastn 1000 (lt_logs m @ map log_entry_of (done_of (env, msg) @ concat (map done_of ms)))"
    using IH by (simp add: U(2) lastn_again)
  then show ?case using IH U(1,3) by (simp add: p)
qed simp

text \<open>The burst mode is always paused: the dashboard never shows it.\<close>

definition mode_ok :: "LoadModel \<Rightarrow> bool" where
  "mode_ok m \<longleftrightarrow> lt_mode m = ''rate'' \<or> lt_mode m = ''burst'' \<and> lt_paused m"

lemma mode_kept: "mode_ok m \<Longrightarrow> mode_ok (fst (lt_Update env msg m))"
proof (cases msg)
  case (KeyMsg key)
  then show "mode_ok m \<Longrightarrow> ?thesis"
    unfolding mode_ok_def by (elim disjE conjE) (simp_all add: handle_key_def scheduleBurst_model update_cfg_def)
qed (auto simp: mode_ok_def handle_tick_def scheduleBurst_model appendLog_def refreshLogs_def relayout_def Let_def split_beta)

lemma never_burst: "dashboard_status (session ms (New t1 t2 cfg)) \<noteq> ''burst''"
proof -
  have "mode_ok m \<Longrightarrow> mode_ok (session ms m)" for m
    by (induction ms m rule: session.induct) (simp_all add: mode_kept)
  then have "mode_ok (session ms (New t1 t2 cfg))" by (simp add: mode_ok_def New_def)
  then show ?thesis by (auto simp: mode_ok_def dashboard_status_def)
qed


text \<open>The burst size does leave its range: from 5, one key press makes it -5, and a burst then sends nothing.\<close>

lemma burst_below_zero:
  "BurstCount (lt_cfg m) = 5 \<Longrightarrow> BurstCount (lt_cfg (fst (lt_Update env (KeyMsg ''-'') m))) = -5"
  by (simp add: handle_key_def update_cfg_def)

definition example_load_env :: load_env where
  "example_load_env = \<lparr>le_now = int, le_intn = (\<lambda>_ _ _. 7), le_clock = (\<lambda>_. ''''), le_ok = id, le_err = id\<rparr>"

theorem burst_requests_witness:
  "snd (lt_Update example_load_env (KeyMsg ''b'') (New 1 2 (load_config ''url'' ''u'' 100 ''pro'' 1 1 second))) =
   [CmdSend (request_of example_load_env 0 (New 1 2 (load_config ''url'' ''u'' 100 ''pro'' 1 1 second)) 0),
    CmdRun ''url'' (request_of example_load_env 0 (New 1 2 (load_config ''url'' ''u'' 100 ''pro'' 1 1 second)) 0)]"
  using burst_requests [of example_load_env "New 1 2 (load_config ''url'' ''u'' 100 ''pro'' 1 1 second)"]
  by (simp add: example_load_env_def New_def load_config_def clampPct_def Let_def)

end
