(* ===== verification/Load_Frames.thy ===== *)
theory Load_Frames
  imports Terminal Load_Test
begin

text \<open>
  What the load test client shows (\<open>client/loadtest/loadtui/theme.go\<close> and \<open>View\<close> with its parts in \<open>model.go\<close>): the
  tabs, the dashboard of measurements, the log panel and the list of keys. The viewport of the log is a third-party
  component: \<open>view\<close> is what it shows for its size and content.
\<close>

section \<open>Theme\<close>

definition lt_colorBase :: string where "lt_colorBase = ''#141414''"
definition lt_colorSurface :: string where "lt_colorSurface = ''#1f1f1f''"
definition lt_colorBorder :: string where "lt_colorBorder = ''#303030''"
definition lt_colorText :: string where "lt_colorText = ''#e8e3d6''"
definition lt_colorMuted :: string where "lt_colorMuted = ''#a19788''"
definition lt_colorAccent :: string where "lt_colorAccent = ''#d08c60''"
definition lt_colorGreen :: string where "lt_colorGreen = ''#8fbf7f''"
definition lt_colorRed :: string where "lt_colorRed = ''#d46a6a''"
definition lt_colorGold :: string where "lt_colorGold = ''#e5b567''"

definition lt_styleHeader :: style where
  "lt_styleHeader = [Background lt_colorSurface, Foreground lt_colorText, Bold, Padding 0 1]"

definition styleTab :: style where
  "styleTab = [Foreground lt_colorMuted, Padding 0 1]"

definition styleTabActive :: style where
  "styleTabActive = [Foreground lt_colorText, Background lt_colorSurface, Bold, Padding 0 1]"

definition stylePanel :: style where
  "stylePanel = [Background lt_colorBase, Border ''rounded'', BorderForeground lt_colorBorder, Padding 0 1]"

definition styleKeyHint :: style where
  "styleKeyHint = [Foreground lt_colorMuted]"

definition styleOK :: style where
  "styleOK = [Foreground lt_colorGreen]"

definition styleErr :: style where
  "styleErr = [Foreground lt_colorRed]"

definition styleWarn :: style where
  "styleWarn = [Foreground lt_colorGold]"

text \<open>The appearance of the log lines is that of the theme.\<close>

definition themed :: "terminal \<Rightarrow> load_env \<Rightarrow> load_env" where
  "themed T env = env\<lparr>le_clock := tm_clock T ''15:04:05'', le_ok := tm_render T styleOK, le_err := tm_render T styleErr\<rparr>"

section \<open>Header and footer\<close>

definition lt_tabs :: "(lt_tab \<times> string) list" where
  "lt_tabs = [(TabDashboard, ''Dashboard''), (TabLogs, ''Logs''), (TabConfig, ''Config'')]"

definition lt_renderHeader :: "terminal \<Rightarrow> LoadModel \<Rightarrow> string option" where
  "lt_renderHeader T m =
     (let left = tm_render T lt_styleHeader ''Load Test Client'';
          tabs = map (\<lambda>(t, name). tm_render T (if t = lt_active m then styleTabActive else styleTab) name) lt_tabs;
          right = Join '' '' tabs;
          gap = max 1 (lt_width m - tm_cells T left - tm_cells T right - 2)
      in map_option (\<lambda>g. tm_horizontal T [left, g, right]) (Repeat '' '' gap))"

definition lt_renderFooter :: "terminal \<Rightarrow> string" where
  "lt_renderFooter T =
     tm_render T styleKeyHint ''1-3 tabs  |  b burst  r start rate  s stop  p pause  t tier  ctrl+c quit''"

section \<open>Tabs\<close>

definition panel :: "terminal \<Rightarrow> LoadModel \<Rightarrow> string \<Rightarrow> string" where
  "panel T m s = tm_render T (stylePanel @ [CellWidth (lt_width m - 2)]) s"

definition dashboard_lines :: "time \<Rightarrow> time \<Rightarrow> LoadModel \<Rightarrow> string list" where
  "dashboard_lines t1 t2 m =
     (let (st, stats, lat, rate) = dashboard t1 t2 m; cfg = lt_cfg m in
      [''Master: '' @ lc_MasterURL cfg,
       ''Mode: '' @ st @ ''  |  Free: '' @ itoa (FreePct cfg) @ ''%  |  Paid tier: '' @ PaidTier cfg,
       ''Burst size: '' @ itoa (BurstCount cfg) @ ''  |  Rate: '' @ itoa (RateCount cfg) @ '' every '' @
         Duration_String (RateEvery cfg),
       '''',
       ''In-flight: '' @ itoa (ct_Waiting stats) @ ''  OK: '' @ itoa (ct_OK stats) @ ''  Failed: '' @ itoa (ct_Failed stats) @
         ''  Total: '' @ itoa (ct_Total stats),
       ''Latency avg: '' @ fmtDuration (ls_Avg lat) @ ''  p50: '' @ fmtDuration (ls_P50 lat) @
         ''  p95: '' @ fmtDuration (ls_P95 lat) @ ''  p99: '' @ fmtDuration (ls_P99 lat),
       ''Latency min: '' @ fmtDuration (ls_Min lat) @ ''  max: '' @ fmtDuration (ls_Max lat),
       ''Sent/s: '' @ fixed 2 (SentPerSec rate) @ ''  Done/s: '' @ fixed 2 (CompletedPerSec rate) @
         ''  (window '' @ fixed 0 (WindowSeconds rate) @ ''s)'',
       ''Overall sent/s: '' @ fixed 2 (SentPerSecOverall rate) @ ''  Overall done/s: '' @ fixed 2 (CompletedPerSecOverall rate)])"

definition lt_renderDashboard :: "terminal \<Rightarrow> time \<Rightarrow> time \<Rightarrow> LoadModel \<Rightarrow> string" where
  "lt_renderDashboard T t1 t2 m = panel T m (Join newline (dashboard_lines t1 t2 m))"

definition lt_renderLogs :: "terminal \<Rightarrow> (lt_viewport \<Rightarrow> string) \<Rightarrow> LoadModel \<Rightarrow> string" where
  "lt_renderLogs T view m =
     (let content = view (lt_logVP m) in
      panel T m (if TrimSpace content = '''' then ''No logs yet.'' else content))"

definition key_row :: "string \<Rightarrow> string \<Rightarrow> string" where
  "key_row key what = ''  '' @ key @ encode_rune 0x2192 @ '' '' @ what"

definition lt_config_lines :: "LoadModel \<Rightarrow> string list" where
  "lt_config_lines m =
     (let cfg = lt_cfg m in
      [''Controls:'',
       key_row ''1/2/3  '' ''switch tabs'',
       key_row ''b      '' ''send burst'',
       key_row ''r      '' ''start rate mode'',
       key_row ''s      '' ''stop rate mode'',
       key_row ''p      '' ''pause (stop sending)'',
       key_row ''+ / -  '' ''burst size +/-10'',
       key_row ''[ / ]  '' ''rate size +/-1'',
       key_row ''= / _  '' ''free percent +/-5'',
       key_row ''t      '' ''toggle paid tier (pro/elite)'',
       key_row ''ctrl+c '' ''quit and export report'',
       '''',
       ''Config:'',
       ''  Free percent: '' @ itoa (FreePct cfg) @ ''%'',
       ''  Paid tier: '' @ PaidTier cfg,
       ''  Burst: '' @ itoa (BurstCount cfg),
       ''  Rate: '' @ itoa (RateCount cfg) @ '' every '' @ Duration_String (RateEvery cfg),
       '''',
       ''Notes:'',
       ''  - Logs show prompt + reply snippets'',
       ''  - Report saved to ./client-load-report.json on exit''])"

definition lt_renderConfig :: "terminal \<Rightarrow> LoadModel \<Rightarrow> string" where
  "lt_renderConfig T m = panel T m (Join newline (lt_config_lines m))"

definition lt_View :: "terminal \<Rightarrow> (lt_viewport \<Rightarrow> string) \<Rightarrow> time \<Rightarrow> time \<Rightarrow> LoadModel \<Rightarrow> string option" where
  "lt_View T view t1 t2 m =
     (if lt_width m = 0 then Some (''Loading'' @ ellipsis)
      else
        let body = (case lt_active m of
              TabDashboard \<Rightarrow> lt_renderDashboard T t1 t2 m
            | TabLogs \<Rightarrow> lt_renderLogs T view m
            | TabConfig \<Rightarrow> lt_renderConfig T m)
        in map_option (\<lambda>header. tm_vertical T [header, body, lt_renderFooter T]) (lt_renderHeader T m))"

section \<open>The log panel\<close>

lemma lt_renderHeader_total: "\<exists>h. lt_renderHeader T m = Some h"
  by (simp add: lt_renderHeader_def Let_def)

text \<open>Off the log tab no message but the key 2 opens it, and the content of the viewport stays.\<close>

lemma log_closed_step:
  assumes "lt_active m \<noteq> TabLogs" and "msg \<noteq> KeyMsg ''2''"
  shows "lt_active (fst (lt_Update env msg m)) \<noteq> TabLogs"
    and "vp_Content (lt_logVP (fst (lt_Update env msg m))) = vp_Content (lt_logVP m)"
proof -
  have tick: "lt_active (fst (handle_tick env m)) = lt_active m \<and> lt_logVP (fst (handle_tick env m)) = lt_logVP m"
    by (auto simp: handle_tick_def scheduleBurst_model split_beta Let_def)
  have "lt_active (fst (handle_key env key m)) \<noteq> TabLogs \<and> lt_logVP (fst (handle_key env key m)) = lt_logVP m"
    if "key \<noteq> ''2''" for key
    using assms that by (simp add: handle_key_def scheduleBurst_model update_cfg_def)
  then have "lt_active (fst (lt_Update env msg m)) \<noteq> TabLogs \<and>
      vp_Content (lt_logVP (fst (lt_Update env msg m))) = vp_Content (lt_logVP m)"
    using assms tick by (cases msg) (simp_all add: refreshLogs_def relayout_def appendLog_def Let_def)
  then show "lt_active (fst (lt_Update env msg m)) \<noteq> TabLogs"
    and "vp_Content (lt_logVP (fst (lt_Update env msg m))) = vp_Content (lt_logVP m)" by blast+
qed

lemma log_closed:
  "lt_active m \<noteq> TabLogs \<Longrightarrow> \<forall>p \<in> set ms. snd p \<noteq> KeyMsg ''2'' \<Longrightarrow>
    lt_active (session ms m) \<noteq> TabLogs \<and> vp_Content (lt_logVP (session ms m)) = vp_Content (lt_logVP m)"
  by (induction ms m rule: session.induct) (auto simp: log_closed_step)

lemma session_append: "session (xs @ ys) m = session ys (session xs m)"
  by (induction xs m rule: session.induct) simp_all

lemma session_metrics:
  assumes "length (lt_logs m) \<le> 1000"
  shows "lt_logs (session ms m) = lastn 1000 (lt_logs m @ map log_entry_of (concat (map done_of ms)))"
  using assms
proof (induction ms arbitrary: m)
  case (Cons p ms)
  obtain env msg where p: "p = (env, msg)" by (cases p)
  have U: "lt_logs (fst (lt_Update env msg m)) = lastn 1000 (lt_logs m @ map log_entry_of (done_of (env, msg)))"
    by (rule Update_step(2) [OF Cons.prems])
  then have "length (lt_logs (fst (lt_Update env msg m))) \<le> 1000" by simp
  from Cons.IH [OF this] show ?case by (simp add: p U lastn_again)
qed simp


text \<open>A session that answered one request before the log was opened.\<close>

definition one_answer :: doneMsg where
  "one_answer = \<lparr>dm_ID = ''req-1'', dm_UserID = ''u'', dm_Tier = ''pro'', dm_Prompt = ''p'', dm_Reply = ''r'',
     dm_Latency = second, dm_Err = None, dm_Finished = 1\<rparr>"


end
