(* ===== verification/Command_Line.thy ===== *)
theory Command_Line
  imports Terminal Agent_Config Load_Test Chat_Client
begin

text \<open>
  The \<open>main\<close> functions of the four programs (\<open>master/main.go\<close>, \<open>agent/utils.go\<close>, \<open>client/main.go\<close>,
  \<open>client/loadtest/main.go\<close>): the command line and the environment they read, what the settings become, and what is
  written at the end. The packages \<open>flag\<close>, \<open>strconv\<close>, \<open>fmt\<close> and \<open>time\<close> are modelled as far as the
  programs use them. The terminal program, the JSON encoder and the file system are arguments.
\<close>

section \<open>Numbers and durations of the library\<close>

text \<open>\<open>strconv.ParseInt(s, 0, 64)\<close>: a sign, a base prefix, digits that underscores may separate.\<close>

definition lower_byte :: "char \<Rightarrow> nat" where
  "lower_byte c = (if 65 \<le> byte c \<and> byte c \<le> 90 then byte c + 32 else byte c)"

definition digit_of :: "char \<Rightarrow> nat option" where
  "digit_of c =
     (if 48 \<le> byte c \<and> byte c \<le> 57 then Some (byte c - 48)
      else if 97 \<le> lower_byte c \<and> lower_byte c \<le> 122 then Some (lower_byte c - 97 + 10) else None)"

fun base_digits :: "nat \<Rightarrow> string \<Rightarrow> nat \<Rightarrow> nat option" where
  "base_digits b [] n = Some n"
| "base_digits b (c # s) n =
     (if c = CHR ''_'' then base_digits b s n
      else case digit_of c of
        None \<Rightarrow> None
      | Some d \<Rightarrow> if b \<le> d then None else base_digits b s (n * b + d))"

text \<open>\<open>underscoreOK\<close>: \<open>saw\<close> is the kind of the previous character, \<open>0\<close> for a digit.\<close>

fun underscores_ok :: "bool \<Rightarrow> char \<Rightarrow> string \<Rightarrow> bool" where
  "underscores_ok hex saw [] = (saw \<noteq> CHR ''_'')"
| "underscores_ok hex saw (c # s) =
     (if 48 \<le> byte c \<and> byte c \<le> 57 \<or> hex \<and> 97 \<le> lower_byte c \<and> lower_byte c \<le> 102
      then underscores_ok hex CHR ''0'' s
      else if c = CHR ''_'' then saw = CHR ''0'' \<and> underscores_ok hex CHR ''_'' s
      else saw \<noteq> CHR ''_'' \<and> underscores_ok hex CHR ''!'' s)"

definition prefixed :: "string \<Rightarrow> char option" where
  "prefixed s =
     (case s of c # x # r \<Rightarrow> if c = CHR ''0'' \<and> lower_byte x \<in> {98, 111, 120} then Some (char_of (lower_byte x)) else None
      | _ \<Rightarrow> None)"

definition ParseUint0 :: "string \<Rightarrow> nat option" where
  "ParseUint0 s =
     (if s = '''' then None
      else
        let (b, r) = (if hd s = CHR ''0'' then
              (if 3 \<le> length s \<and> prefixed s = Some CHR ''b'' then (2, drop 2 s)
               else if 3 \<le> length s \<and> prefixed s = Some CHR ''o'' then (8, drop 2 s)
               else if 3 \<le> length s \<and> prefixed s = Some CHR ''x'' then (16, drop 2 s)
               else (8, drop 1 s)) else (10, s))
        in case base_digits b r 0 of
             None \<Rightarrow> None
           | Some n \<Rightarrow>
               if CHR ''_'' \<in> set r \<and>
                  \<not> (if prefixed s \<noteq> None then underscores_ok (prefixed s = Some CHR ''x'') CHR ''0'' (drop 2 s)
                      else underscores_ok False CHR ''^'' s)
               then None else Some n)"

definition signed :: "string \<Rightarrow> bool \<times> string" where
  "signed s =
     (case s of [] \<Rightarrow> (False, [])
      | c # r \<Rightarrow> if c = CHR ''-'' then (True, r) else if c = CHR ''+'' then (False, r) else (False, s))"

definition in_int64 :: "bool \<Rightarrow> nat \<Rightarrow> int option" where
  "in_int64 neg n =
     (if neg then (if 2 ^ 63 < n then None else Some (- int n)) else if 2 ^ 63 \<le> n then None else Some (int n))"

definition ParseInt0 :: "string \<Rightarrow> int option" where
  "ParseInt0 s =
     (let (neg, r) = signed s in case ParseUint0 r of None \<Rightarrow> None | Some n \<Rightarrow> in_int64 neg n)"

text \<open>\<open>fmt.Sscanf\<close> with the format \<open>%d\<close>: leading space but no new line, a sign, decimal digits; what follows is ignored.\<close>

definition is_digit :: "char \<Rightarrow> bool" where
  "is_digit c \<longleftrightarrow> 48 \<le> byte c \<and> byte c \<le> 57"

definition number :: "string \<Rightarrow> nat" where
  "number ds = foldl (\<lambda>n c. n * 10 + (byte c - 48)) 0 ds"

definition Sscanf_d :: "string \<Rightarrow> int option" where
  "Sscanf_d s =
     (let r = chunk_bytes (dropWhile (\<lambda>c. space_chunk c \<and> fst c \<noteq> 10) (chunks s));
          (neg, t) = signed r;
          ds = takeWhile is_digit t
      in if ds = [] then None else in_int64 neg (number ds))"

text \<open>\<open>time.ParseDuration\<close>: numbers with units, added up in 64 bits.\<close>

definition unit_of :: "string \<Rightarrow> nat option" where
  "unit_of u = map_of
     [(''ns'', 1), (''us'', 1000), (encode_rune 0xB5 @ ''s'', 1000), (encode_rune 0x3BC @ ''s'', 1000),
      (''ms'', 10 ^ 6), (''s'', 10 ^ 9), (''m'', 60 * 10 ^ 9), (''h'', 3600 * 10 ^ 9)] u"

fun leadingFraction :: "string \<Rightarrow> nat \<Rightarrow> float64 \<Rightarrow> bool \<Rightarrow> nat \<times> float64" where
  "leadingFraction [] x scale overflow = (x, scale)"
| "leadingFraction (c # s) x scale overflow =
     (if overflow then leadingFraction s x scale True
      else if (2 ^ 63 - 1) div 10 < x then leadingFraction s x scale True
      else let y = x * 10 + (byte c - 48) in
        if 2 ^ 63 < y then leadingFraction s x scale True
        else leadingFraction s y (fmul scale 10) False)"

definition numeric :: "char \<Rightarrow> bool" where
  "numeric c \<longleftrightarrow> is_digit c \<or> c = CHR ''.''"

definition duration_part :: "string \<Rightarrow> (nat \<times> string) option" where
  "duration_part s =
     (let ds = takeWhile is_digit s; r = dropWhile is_digit s;
          v = number ds;
          point = (r \<noteq> [] \<and> hd r = CHR ''.'');
          fs = (if point then takeWhile is_digit (tl r) else []);
          r = (if point then dropWhile is_digit (tl r) else r);
          u = takeWhile (Not \<circ> numeric) r;
          rest = dropWhile (Not \<circ> numeric) r
      in if 2 ^ 63 < v \<or> ds = [] \<and> fs = [] \<or> u = [] then None
         else case unit_of u of
           None \<Rightarrow> None
         | Some n \<Rightarrow>
             if 2 ^ 63 div n < v then None
             else
               let (f, scale) = leadingFraction fs 0 1 False;
                   w = v * n + (if 0 < f then nat (int_of_float (fmul (float_of_int (int f)) (fdiv (float_of_int (int n)) scale))) else 0)
               in if 2 ^ 63 < w then None else Some (w, rest))"

lemma duration_part_shorter: "duration_part s = Some (v, r) \<Longrightarrow> length r < length s"
proof -
  assume a: "duration_part s = Some (v, r)"
  define r1 where "r1 = dropWhile is_digit s"
  define r2 where "r2 = (if r1 \<noteq> [] \<and> hd r1 = CHR ''.'' then dropWhile is_digit (tl r1) else r1)"
  have "r = dropWhile (Not \<circ> numeric) r2 \<and> takeWhile (Not \<circ> numeric) r2 \<noteq> []"
    using a by (auto simp: duration_part_def Let_def r1_def r2_def split: option.splits if_splits prod.splits)
  moreover have "length (takeWhile (Not \<circ> numeric) r2) + length (dropWhile (Not \<circ> numeric) r2) = length r2"
    by (metis length_append takeWhile_dropWhile_id)
  ultimately have "length r < length r2" by (cases "takeWhile (Not \<circ> numeric) r2") auto
  moreover have "length r2 \<le> length r1"
    using length_dropWhile_le [of is_digit "tl r1"] by (cases r1) (auto simp: r2_def)
  moreover have "length r1 \<le> length s" unfolding r1_def by (rule length_dropWhile_le)
  ultimately show ?thesis by linarith
qed

function duration_loop :: "string \<Rightarrow> nat \<Rightarrow> nat option" where
  "duration_loop s d =
     (if s = [] then Some d
      else case duration_part s of
        None \<Rightarrow> None
      | Some (v, r) \<Rightarrow> let d = (d + v) mod 2 ^ 64 in if 2 ^ 63 < d then None else duration_loop r d)"
  by pat_completeness auto
termination
  by (relation "measure (length \<circ> fst)") (auto dest: duration_part_shorter)

declare duration_loop.simps [simp del]

definition ParseDuration :: "string \<Rightarrow> duration option" where
  "ParseDuration s =
     (let (neg, r) = signed s in
      if r = ''0'' then Some 0
      else if r = '''' then None
      else case duration_loop r 0 of
        None \<Rightarrow> None
      | Some d \<Rightarrow> in_int64 neg d)"

lemma ParseDuration_examples:
  "ParseDuration ''1h30m'' = Some (90 * minute)" "ParseDuration ''-1.5s'' = Some (- 1500 * millisecond)"
  "ParseDuration ''250ms'' = Some (250 * millisecond)" "ParseDuration ''5'' = None" "ParseDuration '''' = None"
  by (simp_all add: ParseDuration_def signed_def duration_loop.simps duration_part_def Let_def is_digit_def numeric_def
      byte_def number_def unit_of_def in_int64_def minute_def second_def millisecond_def
      encode_rune_def fmul_def fdiv_def int_of_float_def)

section \<open>Flags\<close>

text \<open>A flag holds its default until the command line sets it. None of the programs has a boolean flag.\<close>

datatype flag_value = StringFlag string | IntFlag int | DurationFlag duration

type_synonym flag_set = "string \<rightharpoonup> flag_value"

fun set_value :: "flag_value \<Rightarrow> string \<Rightarrow> flag_value option" where
  "set_value (StringFlag _) s = Some (StringFlag s)"
| "set_value (IntFlag _) s = map_option IntFlag (ParseInt0 s)"
| "set_value (DurationFlag _) s = map_option DurationFlag (ParseDuration s)"

definition flag_name :: "string \<Rightarrow> string option" where
  "flag_name s =
     (if length s < 2 \<or> hd s \<noteq> CHR ''-'' \<or> s = ''--'' then None
      else Some (if s ! 1 = CHR ''-'' then drop 2 s else drop 1 s))"

text \<open>\<open>flag.Parse\<close> with \<open>ExitOnError\<close>: \<open>Inl\<close> is the exit status of a usage error or of a request for help.\<close>

fun Parse :: "string list \<Rightarrow> flag_set \<Rightarrow> int + flag_set" where
  "Parse [] fs = Inr fs"
| "Parse (s # args) fs =
     (case flag_name s of
        None \<Rightarrow> Inr fs
      | Some nm \<Rightarrow>
          if nm = [] \<or> hd nm = CHR ''-'' \<or> hd nm = CHR ''='' then Inl 2
          else
            let key = takeWhile (\<lambda>c. c \<noteq> CHR ''='') nm in
            case fs key of
              None \<Rightarrow> Inl (if key = ''help'' \<or> key = ''h'' then 0 else 2)
            | Some v \<Rightarrow>
                if CHR ''='' \<in> set nm then
                  (case set_value v (drop (length key + 1) nm) of
                     None \<Rightarrow> Inl 2
                   | Some v' \<Rightarrow> Parse args (fs(key \<mapsto> v')))
                else
                  (case args of
                     [] \<Rightarrow> Inl 2
                   | x # rest \<Rightarrow>
                       (case set_value v x of
                          None \<Rightarrow> Inl 2
                        | Some v' \<Rightarrow> Parse rest (fs(key \<mapsto> v')))))"

definition string_flag :: "flag_set \<Rightarrow> string \<Rightarrow> string" where
  "string_flag fs n = (case fs n of Some (StringFlag s) \<Rightarrow> s | _ \<Rightarrow> '''')"

definition int_flag :: "flag_set \<Rightarrow> string \<Rightarrow> int" where
  "int_flag fs n = (case fs n of Some (IntFlag i) \<Rightarrow> i | _ \<Rightarrow> 0)"

definition duration_flag :: "flag_set \<Rightarrow> string \<Rightarrow> duration" where
  "duration_flag fs n = (case fs n of Some (DurationFlag d) \<Rightarrow> d | _ \<Rightarrow> 0)"

section \<open>Environment\<close>

text \<open>\<open>getenv\<close> is \<open>os.Getenv\<close>: empty for a variable that is not set.\<close>

definition envOrDefault :: "(string \<Rightarrow> string) \<Rightarrow> string \<Rightarrow> string \<Rightarrow> string" where
  "envOrDefault getenv key fallback = (let v = getenv key in if v \<noteq> '''' then v else fallback)"

definition envOrDefaultInt :: "(string \<Rightarrow> string) \<Rightarrow> string \<Rightarrow> int \<Rightarrow> int" where
  "envOrDefaultInt getenv key fallback =
     (let v = getenv key in
      if v \<noteq> '''' then (case Sscanf_d v of Some out \<Rightarrow> out | None \<Rightarrow> fallback) else fallback)"

definition envOrDefaultDuration :: "(string \<Rightarrow> string) \<Rightarrow> string \<Rightarrow> duration \<Rightarrow> duration" where
  "envOrDefaultDuration getenv key fallback =
     (let v = getenv key in
      if v \<noteq> '''' then (case ParseDuration v of Some out \<Rightarrow> out | None \<Rightarrow> fallback) else fallback)"

section \<open>The load test client\<close>

definition load_flags :: "(string \<Rightarrow> string) \<Rightarrow> flag_set" where
  "load_flags getenv = map_of
     [(''master-url'', StringFlag (envOrDefault getenv ''MASTER_URL'' ''http://localhost:8080'')),
      (''user-id'', StringFlag (envOrDefault getenv ''USER_ID'' ''load-user'')),
      (''free-percent'', IntFlag (envOrDefaultInt getenv ''FREE_PERCENT'' 70)),
      (''paid-tier'', StringFlag (envOrDefault getenv ''PAID_TIER'' ''pro'')),
      (''burst'', IntFlag (envOrDefaultInt getenv ''BURST'' 50)),
      (''rate'', IntFlag (envOrDefaultInt getenv ''RATE'' 10)),
      (''rate-every'', DurationFlag (envOrDefaultDuration getenv ''RATE_EVERY'' second))]"

definition config_of :: "flag_set \<Rightarrow> LoadConfig" where
  "config_of fs =
     load_config (string_flag fs ''master-url'') (string_flag fs ''user-id'') (int_flag fs ''free-percent'')
       (string_flag fs ''paid-tier'') (int_flag fs ''burst'') (int_flag fs ''rate'') (duration_flag fs ''rate-every'')"

datatype main_op = Stderr string | Stdout string | WriteFile string string | Go string

text \<open>\<open>run\<close> is the terminal program: an error, or its final model when it is one of this client. \<open>marshal\<close> is
  \<open>json.MarshalIndent\<close>, \<open>write\<close> the file system. The value is the exit status and what was written.\<close>

definition load_main :: "(string \<Rightarrow> string) \<Rightarrow> string list \<Rightarrow> (LoadModel \<Rightarrow> string + LoadModel option) \<Rightarrow>
    (SystemStats \<Rightarrow> string + string) \<Rightarrow> (string \<Rightarrow> string \<Rightarrow> string option) \<Rightarrow> (nat \<Rightarrow> time) \<Rightarrow> int \<times> main_op list" where
  "load_main getenv args run marshal write now =
     (case Parse args (load_flags getenv) of
        Inl st \<Rightarrow> (st, [])
      | Inr fs \<Rightarrow>
          case run (New (now 0) (now 1) (config_of fs)) of
            Inl err \<Rightarrow> (1, [Stderr (''error: '' @ err)])
          | Inr None \<Rightarrow> (0, [])
          | Inr (Some m) \<Rightarrow>
              case marshal (Report (now 2) (now 3) m) of
                Inl err \<Rightarrow> (0, [Stderr (''report marshal error: '' @ err)])
              | Inr data \<Rightarrow>
                  case write ''./client-load-report.json'' data of
                    Some err \<Rightarrow> (0, [Stderr (''report write error: '' @ err)])
                  | None \<Rightarrow> (0, [WriteFile ''./client-load-report.json'' data, Stdout data]))"

section \<open>The chat client\<close>

definition client_flags :: "(string \<Rightarrow> string) \<Rightarrow> flag_set" where
  "client_flags getenv = map_of
     [(''master-url'', StringFlag (envOrDefault getenv ''MASTER_URL'' ''http://localhost:8080'')),
      (''user-id'', StringFlag (envOrDefault getenv ''USER_ID'' ''cli-user'')),
      (''tier'', StringFlag (envOrDefault getenv ''TIER'' ''standard''))]"

definition client_main :: "(string \<Rightarrow> string) \<Rightarrow> string list \<Rightarrow> (ChatModel \<Rightarrow> string option) \<Rightarrow> (nat \<Rightarrow> time) \<Rightarrow>
    int \<times> main_op list" where
  "client_main getenv args run now =
     (case Parse args (client_flags getenv) of
        Inl st \<Rightarrow> (st, [])
      | Inr fs \<Rightarrow>
          let cfg = \<lparr>cl_MasterURL = string_flag fs ''master-url'', cl_UserID = string_flag fs ''user-id'',
                cl_Tier = string_flag fs ''tier''\<rparr>
          in case run (NewClient now cfg) of
               Some err \<Rightarrow> (1, [Stderr (''error: '' @ err)])
             | None \<Rightarrow> (0, []))"

section \<open>The agent\<close>

definition agent_flags :: flag_set where
  "agent_flags = map_of
     [(''master-url'', StringFlag ''''), (''listen'', StringFlag '':9000''), (''advertise-host'', StringFlag ''''),
      (''advertise-port'', IntFlag 0), (''worker-image'', StringFlag ''llm-worker:latest''),
      (''worker-port-start'', IntFlag 50051), (''worker-port-end'', IntFlag 50150),
      (''ollama-url'', StringFlag ''http://127.0.0.1:11434''), (''chroma-url'', StringFlag ''http://127.0.0.1:8000'')]"

definition parsed_flags :: "flag_set \<Rightarrow> AgentConfig" where
  "parsed_flags fs =
     \<lparr>cf_MasterURL = string_flag fs ''master-url'', cf_ListenAddr = string_flag fs ''listen'',
      cf_AdvertiseHost = string_flag fs ''advertise-host'', cf_AdvertisePort = int_flag fs ''advertise-port'',
      cf_AgentID = '''', cf_WorkerImage = string_flag fs ''worker-image'',
      cf_WorkerPortStart = int_flag fs ''worker-port-start'', cf_WorkerPortEnd = int_flag fs ''worker-port-end'',
      cf_OllamaURL = string_flag fs ''ollama-url'', cf_ChromaURL = string_flag fs ''chroma-url''\<rparr>"

definition agent_config :: "string list \<Rightarrow> string + net_iface list \<Rightarrow> (string \<Rightarrow> bool) \<Rightarrow> int + (string + AgentConfig)" where
  "agent_config args ifaces free =
     (case Parse args agent_flags of
        Inl st \<Rightarrow> Inl st
      | Inr fs \<Rightarrow> Inr (readConfig ifaces free (parsed_flags fs)))"

text \<open>The trace of the agent.\<close>

definition verboseEnabled :: bool where
  "verboseEnabled = True"

definition agent_Verbose :: "string \<Rightarrow> string \<Rightarrow> main_op list" where
  "agent_Verbose place msg = (if \<not> verboseEnabled then [] else [Stdout (''['' @ place @ ''] '' @ msg)])"

section \<open>The master\<close>

text \<open>\<open>err\<close> is what the terminal interface returns.\<close>

definition master_main :: "string option \<Rightarrow> main_op list" where
  "master_main err =
     (let router = NewRouter in
      (if WorkerCount router = 0 then [Stdout ''no workers available at startup''] else []) @
      [Go ''Serve''] @
      (case err of Some e \<Rightarrow> [Stdout (''Error starting TUI: '' @ e)] | None \<Rightarrow> []))"

section \<open>Settings and report of a load test\<close>

fun same_kind :: "flag_value \<Rightarrow> flag_value \<Rightarrow> bool" where
  "same_kind (StringFlag _) (StringFlag _) = True"
| "same_kind (IntFlag _) (IntFlag _) = True"
| "same_kind (DurationFlag _) (DurationFlag _) = True"
| "same_kind _ _ = False"

definition same_kinds :: "flag_set \<Rightarrow> flag_set \<Rightarrow> bool" where
  "same_kinds fs fs' \<longleftrightarrow> (\<forall>n. rel_option same_kind (fs n) (fs' n))"

lemma same_kind_refl [simp]: "same_kind v v"
  by (cases v) simp_all

lemma same_kind_trans: "same_kind u v \<Longrightarrow> same_kind v w \<Longrightarrow> same_kind u w"
  by (cases u; cases v; cases w) simp_all

lemma set_value_kind: "set_value v x = Some v' \<Longrightarrow> same_kind v v'"
  by (cases v) auto

lemma same_kinds_refl: "same_kinds fs fs"
  by (simp add: same_kinds_def option.rel_refl)

lemma same_kinds_set:
  assumes "fs n = Some v" and "same_kind v v'" and "same_kinds (fs(n \<mapsto> v')) fs'"
  shows "same_kinds fs fs'"
  unfolding same_kinds_def
proof
  fix k
  have "rel_option same_kind ((fs(n \<mapsto> v')) k) (fs' k)" using assms(3) by (simp add: same_kinds_def)
  then show "rel_option same_kind (fs k) (fs' k)"
    using assms(1,2) by (cases "fs' n") (auto split: if_splits intro: same_kind_trans)
qed

text \<open>The command line changes values, never the flags or their kinds; a rejected one ends with status 0 or 2.\<close>

lemma Parse_outcome:
  "case Parse args fs of Inl st \<Rightarrow> st \<in> {0, 2} | Inr fs' \<Rightarrow> same_kinds fs fs'"
proof (induction args fs rule: Parse.induct)
  case (2 s args fs)
  have step: "case Parse as (fs(k \<mapsto> v')) of Inl st \<Rightarrow> st \<in> {0, 2} | Inr fs' \<Rightarrow> same_kinds fs fs'"
    if "fs k = Some v" "set_value v x = Some v'"
      "case Parse as (fs(k \<mapsto> v')) of Inl st \<Rightarrow> st \<in> {0, 2} | Inr fs' \<Rightarrow> same_kinds (fs(k \<mapsto> v')) fs'" for k v v' x as
    using that set_value_kind [OF that(2)] same_kinds_set [where fs = fs and n = k and v = v and v' = v'] by (auto split: sum.splits)
  show ?case
  proof (cases "flag_name s")
    case None
    then show ?thesis by (simp add: same_kinds_refl)
  next
    case (Some nm)
    define key where "key = takeWhile (\<lambda>c. c \<noteq> CHR ''='') nm"
    show ?thesis
    proof (cases "nm = [] \<or> hd nm = CHR ''-'' \<or> hd nm = CHR ''='' \<or> fs key = None")
      case True
      then show ?thesis using Some by (auto simp: Let_def key_def)
    next
      case False
      then obtain v where v: "fs key = Some v" and g: "\<not> (nm = [] \<or> hd nm = CHR ''-'' \<or> hd nm = CHR ''='')" by auto
      have IH1: "case Parse args (fs(key \<mapsto> v')) of Inl st \<Rightarrow> st \<in> {0, 2} | Inr fs' \<Rightarrow> same_kinds (fs(key \<mapsto> v')) fs'"
        if "CHR ''='' \<in> set nm" "set_value v (drop (length key + 1) nm) = Some v'" for v'
        by (rule "2.IH"(1)) (fact Some g key_def v that)+
      have IH2: "case Parse rest (fs(key \<mapsto> v')) of Inl st \<Rightarrow> st \<in> {0, 2} | Inr fs' \<Rightarrow> same_kinds (fs(key \<mapsto> v')) fs'"
        if "CHR ''='' \<notin> set nm" "args = x # rest" "set_value v x = Some v'" for x rest v'
        by (rule "2.IH"(2)) (fact Some g key_def v that)+
      show ?thesis
      proof (cases "CHR ''='' \<in> set nm")
        case True
        let ?x = "drop (length key + 1) nm"
        have e: "Parse (s # args) fs = (case set_value v ?x of None \<Rightarrow> Inl 2 | Some v' \<Rightarrow> Parse args (fs(key \<mapsto> v')))"
          using Some g v True by (simp add: Let_def flip: key_def)
        show ?thesis
          using step [OF v, of ?x] IH1 [OF True] unfolding e by (cases "set_value v ?x") simp_all
      next
        case no: False
        show ?thesis
        proof (cases args)
          case Nil
          then show ?thesis using Some g v no by (simp add: Let_def flip: key_def)
        next
          case (Cons x rest)
          have e: "Parse (s # args) fs = (case set_value v x of None \<Rightarrow> Inl 2 | Some v' \<Rightarrow> Parse rest (fs(key \<mapsto> v')))"
            using Some g v no Cons by (simp add: Let_def flip: key_def)
          show ?thesis
            using step [OF v, of x] IH2 [OF no Cons] unfolding e by (cases "set_value v x") simp_all
        qed
      qed
    qed
  qed
next
  case (1 fs)
  then show ?case by (simp add: same_kinds_refl)
qed

text \<open>The events of a session, counted by its messages.\<close>

lemma session_tallies:
  "tally is_sent (concat (map event_of ms)) = int (length (filter (\<lambda>p. \<exists>s. snd p = SendMsg s) ms))"
  "tally is_answered (concat (map event_of ms)) = int (length (filter (\<lambda>d. dm_Err d = None) (concat (map done_of ms))))"
  "tally is_failed (concat (map event_of ms)) = int (length (filter (\<lambda>d. dm_Err d \<noteq> None) (concat (map done_of ms))))"
proof -
  have "tally P (es @ fs) = tally P es + tally P fs" for P es fs by (simp add: tally_def)
  note a = this
  have t: "tally P (e # es) = (if P e then 1 else 0) + tally P es" for P e es by (simp add: tally_def)
  have "tally is_sent (concat (map event_of ms)) = int (length (filter (\<lambda>p. \<exists>s. snd p = SendMsg s) ms)) \<and>
    tally is_answered (concat (map event_of ms)) = int (length (filter (\<lambda>d. dm_Err d = None) (concat (map done_of ms)))) \<and>
    tally is_failed (concat (map event_of ms)) = int (length (filter (\<lambda>d. dm_Err d \<noteq> None) (concat (map done_of ms))))"
  proof (induction ms)
    case (Cons p ms)
    obtain env msg where p: "p = (env, msg)" by (cases p)
    show ?case using Cons unfolding p by (cases msg) (simp_all add: a t)
  qed simp
  then show
    "tally is_sent (concat (map event_of ms)) = int (length (filter (\<lambda>p. \<exists>s. snd p = SendMsg s) ms))"
    "tally is_answered (concat (map event_of ms)) = int (length (filter (\<lambda>d. dm_Err d = None) (concat (map done_of ms))))"
    "tally is_failed (concat (map event_of ms)) = int (length (filter (\<lambda>d. dm_Err d \<noteq> None) (concat (map done_of ms))))"
    by blast+
qed


end
