(* ===== verification/Spec2Isabelle.thy ===== *)
theory Spec2Isabelle
  imports Monitoring Coexistence Agent Agent_Start End_To_End Console_Text Client_Frames Load_Frames Command_Line
begin

text \<open>
  The LLM cluster orchestrator: a master (\<open>src/master\<close>) that serves chat requests by sending them to
  workers over gRPC, watches the load and asks agents (\<open>src/agent\<close>) on other hosts to start or destroy
  worker containers; a chat client and a load test (\<open>src/client\<close>) that send the requests; and the operator's
  console of the master (\<open>src/master/tui\<close>). This development models the logic of these programs.

  Theories, from the bottom. Each opens with a description of what it holds.

  \<^item> \<open>Prelude\<close>: types shared by all parts (\<open>time\<close> and \<open>duration\<close> are nanoseconds as \<open>int\<close>; decimal numbers;
    pointers into a heap of workers) and lemmas on lists, maps and 64-bit wrap-around (\<open>wrap64\<close>).
  \<^item> \<open>Float64\<close>: Go's \<open>float64\<close> as the exact rational rounded to the nearest binary64, ties to even, with
    monotonicity and range lemmas. Infinities and NaN are not represented; subnormals are.
  \<^item> \<open>Bounded_Log\<close>, \<open>Keyed_Store\<close>: the two contracts several components share, as locales: a log trimmed to
    its last entries, and a keyed store that behaves like a map. Both are interpreted on the code's own
    definitions, in \<open>Monitoring\<close>, \<open>Inflight\<close>, \<open>Scaling\<close>, \<open>Metrics\<close>, \<open>Registry\<close> and \<open>Console\<close>.
  \<^item> \<open>Monitoring\<close> (\<open>monitoring/verbose.go\<close>), \<open>Inflight\<close> (\<open>monitoring/inflight.go\<close>), \<open>Cluster_Limits\<close>
    (\<open>lib/limits.go\<close>).
  \<^item> \<open>Worker\<close> (\<open>lib/worker.go\<close>): the record of a worker, its life cycle, dialling and sending.
  \<^item> \<open>Router\<close> (\<open>lib/router.go\<close> and \<open>lib/admin.go\<close>): the registries of workers and agents. A worker is a
    pointer, as in the code, because drains and requests keep pointers to workers that have left the map.
    \<open>Registry\<close> states the well-formedness \<open>wf_router\<close>, shows that the registry refines a map, and collects
    what every operation keeps. \<open>Admin\<close> holds the administrative operations.
  \<^item> \<open>Strategy\<close> (\<open>lib/strategy.go\<close>): the three ways to pick a worker. The iteration order of a Go map is a
    parameter of the pick, one per loop.
  \<^item> \<open>Metrics\<close> (\<open>lib/metrics.go\<close>): moving average, rolling window, percentiles, trend.
  \<^item> \<open>Autoscaler\<close> (\<open>lib/autoscaler.go\<close>), with \<open>Scaling\<close> (facts on one decision) and \<open>Control_Loop\<close> (facts on
    a whole control step). The clock and the answers of agents are the record \<open>world\<close>, read at the
    numbered steps of the run.
  \<^item> \<open>Admission\<close> (\<open>lib/admission.go\<close>): \<open>Admit\<close> is cut at each atomic access (\<open>pc\<close>, \<open>client_step\<close>) and any
    number of requests interleave (\<open>admission_step\<close>, \<open>reachable\<close>).
  \<^item> \<open>Chat\<close> (\<open>Router.HandleChat\<close> and \<open>chatRequestHandler\<close> of \<open>lib/server.go\<close>) and \<open>Server\<close> (the rest of
    \<open>lib/server.go\<close>): registration, callbacks, spawn requests, health checks.
  \<^item> \<open>Interference\<close>: a request served while the rest of the program changes the router. What the others may do is
    the relation \<open>others\<close> (a rely condition): they keep the router well formed, free no worker, take no connection
    object away and leave the entry of this request alone.
  \<^item> \<open>Cluster\<close>: the master as a step relation in which requests, handlers, ticks of the autoscaler, health
    checks, drains and operator commands interleave on the shared router. \<open>Coexistence\<close> shows that the steps of this
    relation meet the rely condition of \<open>Interference\<close>, so that what is proved of one request holds in the
    running master, and states the invariants of the requests being served.
  \<^item> \<open>Agent_Config\<close> (\<open>src/agent/utils.go\<close>, \<open>types.go\<close>), \<open>Agent\<close> (\<open>docker.go\<close>, \<open>handlers.go\<close>) and \<open>Agent_Start\<close>
    (\<open>server.go\<close>, \<open>ollama.go\<close>, \<open>chroma.go\<close>: the start-up and the services it waits for).
  \<^item> \<open>Go_Text\<close>: the string functions of Go's standard library the interfaces use, on UTF-8 bytes: runes and
    their encoding, \<open>Fields\<close>, \<open>TrimSpace\<close>, \<open>Split\<close>, \<open>Join\<close>, \<open>Repeat\<close>. \<open>Text_Layout\<close>: the helpers the three terminal
    interfaces have for cutting, padding and wrapping text and for durations.
  \<^item> \<open>Http_Retry\<close> (\<open>client/tui/api.go\<close> and its copy in \<open>loadtui/api.go\<close>): a request with its retries.
  \<^item> \<open>End_To_End\<close>: a client's request against the master's handler, each attempt meeting the master at a moment
    of its own.
  \<^item> \<open>Load_Metrics\<close> (\<open>loadtui/metrics.go\<close>, \<open>types.go\<close>) and \<open>Load_Test\<close> (\<open>loadtui/model.go\<close>): the load test, a
    handler of messages that returns the commands to run.
  \<^item> \<open>Chat_Client\<close> (\<open>client/tui/model.go\<close>, \<open>types.go\<close>, \<open>social.go\<close>): the sessions of the chat client and its
    handler; \<open>client_run\<close> delivers the user's messages and the outcomes of commands in any order.
  \<^item> \<open>Console_Views\<close> and \<open>Console\<close> (\<open>master/tui\<close>): the state of the operator's console, what each tab shows, the
    handler, and the sessions of an operator on the router (\<open>console_reach\<close>).
  \<^item> \<open>Terminal\<close>: the library that draws styled text, as a record of functions with the laws \<open>terminal_ok\<close>.
    On it stand the texts of the three interfaces: \<open>Console_Text\<close> (\<open>chrome.go\<close>, \<open>views.go\<close>, \<open>autoscaling.go\<close>,
    \<open>helpers.go\<close> of \<open>master/tui\<close>), \<open>Client_Frames\<close> (\<open>client/tui/theme.go\<close> and the views of \<open>model.go\<close>) and
    \<open>Load_Frames\<close> (\<open>loadtui/theme.go\<close> and the views of \<open>loadtui/model.go\<close>).
  \<^item> \<open>Command_Line\<close>: the \<open>main\<close> functions with the flags and environment variables they read, and the trace of the
    agent (\<open>agent/verbose.go\<close>).

  What the properties show, by group. The registry refines a map (C1); the counters, the requests in flight and the
  limits are invariants under every interleaving (C7 to C10). Serving a request among the other goroutines (C3, C5), the
  master meeting what that needs (C4), and a prompt from the client to a worker and back (C6). A control step and its
  parts (C2, C11, C27 to C32); picking a worker (C12, C25, C26); registration, callbacks and health checks (C13, C17,
  C18); metrics (C33 to C35); the end of a drain (C36). The agent: the round trip of a worker's identity through a
  restart of the master (C14) and the start (C24). The clients: dialogues, retries, measurements, command line and report
  (C15, C21 to C23, C39). The interfaces: the console and its frame (C16, C20, C37), the log of the load test (C38), the
  text they wrap (C40). Where the code falls short of its comments, the theorem states what it does: C18, C19, C20,
  C26, C28, C31, C32, C38; further theorems of this kind stand in their theories (a drain undone by a request, a drain
  that removes a replacement, an unbounded burst, a scale-up of none that blocks the scale-down, workers the agents tab
  hides, the vanishing marker of a full cluster, a tab bar wider than the terminal, a sidebar taller than it).

  Bounds and fuel. The counted loops of the code are recursions on the number of rounds left, the code's own
  constants: 3 attempts of a chat request, 10 retries of the handler, 3 dials of a worker, 3 spawn requests,
  6 registrations, 50 attempts of a client. A drain polls until a deadline: \<open>drain_wait\<close> takes fuel, and 300 checks are
  enough since each sleeps for a second and the limit is five minutes (C36). \<open>waitForPort\<close> and the waits for
  services have no fuel (\<open>partial_function\<close>); they end after at most 25 dials (lemma \<open>waitForPort_ends\<close>) and 60
  probes (C24).
  Integers are \<open>int\<close>; the wrap-around is written out where it can be reached (the penalty of an
  agent, C31; the memory report of \<open>SystemInfo\<close>).

  Parameters. Code that is not in the repository, and the environment, are arguments of the definitions:
  the answers of workers, HTTP peers and the Docker engine, free ports, the clock, the iteration order of
  maps, JSON (a handler gets the decoded value or none), random draws, the library of the terminal interfaces
  (\<open>terminal\<close>) with its text area and viewport, and what other goroutines do while one blocks (\<open>during\<close>,
  \<open>ce_during\<close>). Hypotheses on them say what is documented, for instance that a map is iterated over each key once
  (\<open>enumerates\<close>), that the clock does not go back, that sleeping takes at least the time asked for (\<open>ticking\<close>), and
  that coloured ASCII has a cell for each character (\<open>terminal_ok\<close>). The other goroutines are assumed only to be
  \<open>tolerant\<close>, and C4 proves that of the master's own steps.

  Simplifications that hold everywhere: log lines are left out except where they are data (\<open>Monitoring\<close>);
  a section under a mutex is one step; floating-point operations are not fused; in \<open>Cluster\<close> a control
  step, a handler and the end of a drain are one step each; of the third-party viewport the size and content
  the code sets are kept, not its scrolling.

  Not modelled: the generated protocol code; the drawing of characters by the terminal library, its scrolling and its
  plots; the package that only names build tools (\<open>tools.go\<close>); the Python worker, the scripts and the vector database,
  which are not Go.
\<close>

end
